(* ===== verification/Go_Base.thy ===== *)
theory Go_Base
  imports Main "HOL-Library.Word"
begin

text \<open>
  The prelude of the development: the parts of Go and of its standard library that every
  component of maild uses, and the generic lemmas the component theories share.

  \<^item> A Go string is a sequence of bytes, modelled as \<^typ>\<open>string\<close> (a HOL character is a byte).
    \<open>TrimSpace\<close> removes the UTF-8 encodings of all Unicode white space, as the Go function
    does. \<open>ToLower\<close> lowers the ASCII letters and leaves every other byte alone: it is the Go
    function on strings whose non-ASCII letters have no upper case.
  \<^item> \<open>int64\<close> values are \<^typ>\<open>int\<close>s; where a result can leave the range, the range is checked
    (\<open>ParseInt\<close>) or the value is a \<^typ>\<open>64 word\<close> (the shifts of the back-off functions).
  \<^item> \<open>time.Time\<close> and \<open>time.Duration\<close> are integers counting nanoseconds; the zero time is a
    constant before every instant the program sees.
\<close>

section \<open>Collections of facts used by the component theories\<close>

named_theorems go_string \<open>normal forms of the string functions\<close>
named_theorems frame \<open>state components an operation leaves alone\<close>
named_theorems keeps \<open>invariants an operation preserves\<close>

section \<open>Time and machine integers\<close>

type_synonym go_time = int
type_synonym duration = int

definition Millisecond :: duration where "Millisecond = 1000000"
definition Second :: duration where "Second = 1000 * Millisecond"
definition Minute :: duration where "Minute = 60 * Second"
definition Hour :: duration where "Hour = 60 * Minute"

text \<open>The zero \<open>time.Time\<close>, midnight of 1 January of the year 1.\<close>

definition zero_time :: go_time where "zero_time = - 62135596800 * Second"

definition UnixMilli :: "go_time \<Rightarrow> int" where
  "UnixMilli t = t div Millisecond"

definition max_int64 :: int where "max_int64 = 2 ^ 63 - 1"
definition min_int64 :: int where "min_int64 = - (2 ^ 63)"

definition is_int64 :: "int \<Rightarrow> bool" where
  "is_int64 i \<longleftrightarrow> min_int64 \<le> i \<and> i \<le> max_int64"

definition is_int32 :: "int \<Rightarrow> bool" where
  "is_int32 i \<longleftrightarrow> - (2 ^ 31) \<le> i \<and> i \<le> 2 ^ 31 - 1"

lemmas time_units = Millisecond_def Second_def Minute_def Hour_def

section \<open>Strings\<close>

text \<open>The UTF-8 encodings of the code points for which \<open>unicode.IsSpace\<close> holds.\<close>

definition space_seqs :: "string list" where
  "space_seqs =
    [[CHR 0x20], [CHR 0x09], [CHR 0x0A], [CHR 0x0B], [CHR 0x0C], [CHR 0x0D],
     [CHR 0xC2, CHR 0x85], [CHR 0xC2, CHR 0xA0],
     [CHR 0xE1, CHR 0x9A, CHR 0x80],
     [CHR 0xE2, CHR 0x80, CHR 0x80], [CHR 0xE2, CHR 0x80, CHR 0x81],
     [CHR 0xE2, CHR 0x80, CHR 0x82], [CHR 0xE2, CHR 0x80, CHR 0x83],
     [CHR 0xE2, CHR 0x80, CHR 0x84], [CHR 0xE2, CHR 0x80, CHR 0x85],
     [CHR 0xE2, CHR 0x80, CHR 0x86], [CHR 0xE2, CHR 0x80, CHR 0x87],
     [CHR 0xE2, CHR 0x80, CHR 0x88], [CHR 0xE2, CHR 0x80, CHR 0x89],
     [CHR 0xE2, CHR 0x80, CHR 0x8A],
     [CHR 0xE2, CHR 0x80, CHR 0xA8], [CHR 0xE2, CHR 0x80, CHR 0xA9],
     [CHR 0xE2, CHR 0x80, CHR 0xAF], [CHR 0xE2, CHR 0x81, CHR 0x9F],
     [CHR 0xE3, CHR 0x80, CHR 0x80]]"

definition HasPrefix :: "string \<Rightarrow> string \<Rightarrow> bool" where
  "HasPrefix s p \<longleftrightarrow> take (length p) s = p"

fun strip_seqs :: "string list \<Rightarrow> string \<Rightarrow> string" where
  "strip_seqs ps s =
     (case find (\<lambda>p. p \<noteq> [] \<and> HasPrefix s p) ps of
        None \<Rightarrow> s
      | Some p \<Rightarrow> if s = [] then s else strip_seqs ps (drop (max 1 (length p)) s))"

declare strip_seqs.simps [simp del]

definition TrimLeft :: "string \<Rightarrow> string" where
  "TrimLeft s = strip_seqs space_seqs s"

definition TrimRight :: "string \<Rightarrow> string" where
  "TrimRight s = rev (strip_seqs (map rev space_seqs) (rev s))"

definition TrimSpace :: "string \<Rightarrow> string" where
  "TrimSpace s = TrimRight (TrimLeft s)"

definition lower_char :: "char \<Rightarrow> char" where
  "lower_char c =
     (if 65 \<le> (of_char c :: int) \<and> (of_char c :: int) \<le> 90
      then char_of ((of_char c :: int) + 32) else c)"

definition ToLower :: "string \<Rightarrow> string" where
  "ToLower s = map lower_char s"

definition EqualFold :: "string \<Rightarrow> string \<Rightarrow> bool" where
  "EqualFold s t \<longleftrightarrow> ToLower s = ToLower t"

fun Contains :: "string \<Rightarrow> string \<Rightarrow> bool" where
  "Contains [] p \<longleftrightarrow> p = []"
| "Contains (c # s) p \<longleftrightarrow> HasPrefix (c # s) p \<or> Contains s p"

text \<open>\<open>strings.Split\<close> with a one-byte separator, and \<open>strings.Join\<close>.\<close>

fun Split :: "char \<Rightarrow> string \<Rightarrow> string list" where
  "Split d [] = [[]]"
| "Split d (c # s) =
     (if c = d then [] # Split d s
      else (case Split d s of [] \<Rightarrow> [[c]] | p # ps \<Rightarrow> (c # p) # ps))"

fun Join :: "string list \<Rightarrow> string \<Rightarrow> string" where
  "Join [] sep = []"
| "Join [p] sep = p"
| "Join (p # q # ps) sep = p @ sep @ Join (q # ps) sep"

text \<open>The text after the last occurrence of a byte, if there is one.\<close>

fun after_last :: "char \<Rightarrow> string \<Rightarrow> string option" where
  "after_last d [] = None"
| "after_last d (c # s) =
     (case after_last d s of
        Some r \<Rightarrow> Some r
      | None \<Rightarrow> (if c = d then Some s else None))"

section \<open>Decimal integers\<close>

definition digit_char :: "int \<Rightarrow> char" where
  "digit_char n = char_of (48 + n)"

definition char_digit :: "char \<Rightarrow> int option" where
  "char_digit c =
     (if 48 \<le> (of_char c :: int) \<and> (of_char c :: int) \<le> 57
      then Some (of_char c - 48) else None)"

function decimal :: "int \<Rightarrow> string" where
  "decimal n =
     (if n < 10 then [digit_char n] else decimal (n div 10) @ [digit_char (n mod 10)])"
  by pat_completeness auto
termination
  by (relation "measure nat") auto

declare decimal.simps [simp del]

text \<open>\<open>strconv.FormatInt(i, 10)\<close> and \<open>fmt\<close>'s \<open>%d\<close>.\<close>

definition FormatInt :: "int \<Rightarrow> string" where
  "FormatInt i = (if i < 0 then CHR ''-'' # decimal (- i) else decimal i)"

text \<open>
  \<open>strconv.Quote\<close>, the verb \<open>%q\<close>: bytes above ASCII stand for printable characters and are kept.
\<close>

definition hex_digit :: "int \<Rightarrow> char" where
  "hex_digit d = (if d < 10 then char_of (48 + d) else char_of (87 + d))"

definition quote_char :: "char \<Rightarrow> string" where
  "quote_char c =
     (let n = (of_char c :: int) in
      if n = 34 then [CHR 0x5C, CHR 0x22] else if n = 92 then [CHR 0x5C, CHR 0x5C]
      else if n = 7 then [CHR 0x5C, CHR ''a''] else if n = 8 then [CHR 0x5C, CHR ''b'']
      else if n = 12 then [CHR 0x5C, CHR ''f''] else if n = 10 then [CHR 0x5C, CHR ''n'']
      else if n = 13 then [CHR 0x5C, CHR ''r''] else if n = 9 then [CHR 0x5C, CHR ''t'']
      else if n = 11 then [CHR 0x5C, CHR ''v'']
      else if n < 32 \<or> n = 127 then [CHR 0x5C, CHR ''x'', hex_digit (n div 16), hex_digit (n mod 16)]
      else [c])"

definition Quote :: "string \<Rightarrow> string" where
  "Quote s = [CHR 0x22] @ concat (map quote_char s) @ [CHR 0x22]"

fun parse_digits :: "int \<Rightarrow> string \<Rightarrow> int option" where
  "parse_digits acc [] = Some acc"
| "parse_digits acc (c # s) =
     (case char_digit c of None \<Rightarrow> None | Some d \<Rightarrow> parse_digits (10 * acc + d) s)"

text \<open>
  \<open>strconv.ParseInt(s, 10, 64)\<close>: an optional sign, at least one digit, digits only, and a
  value of 64 bits; \<open>None\<close> is its syntax or range error.
\<close>

definition ParseInt :: "string \<Rightarrow> int option" where
  "ParseInt s =
     (let neg = HasPrefix s ''-'';
          ds = (if HasPrefix s ''-'' \<or> HasPrefix s ''+'' then tl s else s)
      in if ds = [] then None
         else case parse_digits 0 ds of
                None \<Rightarrow> None
              | Some n \<Rightarrow> (let i = (if neg then - n else n)
                          in if is_int64 i then Some i else None))"

section \<open>Facts about strings and decimals\<close>

definition starts_with_any :: "string list \<Rightarrow> string \<Rightarrow> bool" where
  "starts_with_any ps s \<longleftrightarrow> (\<exists>p \<in> set ps. p \<noteq> [] \<and> HasPrefix s p)"

definition caseless :: "char \<Rightarrow> bool" where
  "caseless c \<longleftrightarrow> \<not> (65 \<le> (of_char c :: int) \<and> of_char c \<le> (90 :: int)) \<and>
     \<not> (97 \<le> (of_char c :: int) \<and> of_char c \<le> (122 :: int))"

lemma strip_seqs_id: "\<not> starts_with_any ps s \<Longrightarrow> strip_seqs ps s = s"
  by (subst strip_seqs.simps) (auto simp: starts_with_any_def find_None_iff split: option.split dest!: find_Some_iff [THEN iffD1] dest: nth_mem)

lemma not_starts_strip_seqs: "\<not> starts_with_any ps (strip_seqs ps s)"
proof (induction ps s rule: strip_seqs.induct)
  case (1 ps s)
  show ?case
  proof (cases "find (\<lambda>p. p \<noteq> [] \<and> HasPrefix s p) ps")
    case None
    then have "strip_seqs ps s = s" by (subst strip_seqs.simps) simp
    with None show ?thesis by (auto simp: starts_with_any_def find_None_iff)
  next
    case (Some p)
    then have "s \<noteq> []"
      by (auto simp: find_Some_iff HasPrefix_def)
    with Some 1 show ?thesis
      by (subst strip_seqs.simps) simp
  qed
qed

lemma strip_seqs_drop: "\<exists>n. strip_seqs ps s = drop n s"
proof (induction ps s rule: strip_seqs.induct)
  case (1 ps s)
  then show ?case
    by (subst strip_seqs.simps)
       (auto split: option.split intro: exI [of _ "0::nat"])
qed

lemma TrimLeft_idem [simp]: "TrimLeft (TrimLeft s) = TrimLeft s"
  by (simp add: TrimLeft_def strip_seqs_id not_starts_strip_seqs)

lemma TrimRight_idem [simp]: "TrimRight (TrimRight s) = TrimRight s"
  by (simp add: TrimRight_def strip_seqs_id not_starts_strip_seqs)

lemma TrimRight_take: "\<exists>n. TrimRight s = take n s"
  using strip_seqs_drop [of "map rev space_seqs" "rev s"]
  by (auto simp: TrimRight_def rev_drop)

lemma starts_with_any_take: "starts_with_any ps (take n s) \<Longrightarrow> starts_with_any ps s"
  by (auto simp: starts_with_any_def HasPrefix_def min_def split: if_splits)

lemma TrimSpace_idem [simp]: "TrimSpace (TrimSpace s) = TrimSpace s"
proof -
  obtain n where n: "TrimRight (TrimLeft s) = take n (TrimLeft s)"
    using TrimRight_take by blast
  have "\<not> starts_with_any space_seqs (TrimLeft s)"
    unfolding TrimLeft_def by (rule not_starts_strip_seqs)
  then have "\<not> starts_with_any space_seqs (take n (TrimLeft s))"
    by (blast dest: starts_with_any_take)
  then have "TrimLeft (TrimRight (TrimLeft s)) = TrimRight (TrimLeft s)"
    unfolding n by (simp add: TrimLeft_def [of "take n (TrimLeft s)"] strip_seqs_id)
  then show ?thesis by (simp add: TrimSpace_def)
qed

lemma TrimSpace_Nil [simp]: "TrimSpace [] = []"
proof -
  have "strip_seqs ps [] = []" for ps
    by (rule strip_seqs_id) (auto simp: starts_with_any_def HasPrefix_def)
  then show ?thesis by (simp add: TrimSpace_def TrimLeft_def TrimRight_def)
qed

lemma lower_char_idem [simp]: "lower_char (lower_char c) = lower_char c"
  by (simp add: lower_char_def)

lemma ToLower_idem [simp]: "ToLower (ToLower s) = ToLower s"
  by (simp add: ToLower_def)

lemma ToLower_eq_Nil [simp]: "ToLower s = [] \<longleftrightarrow> s = []"
  by (simp add: ToLower_def)

lemma length_ToLower [simp]: "length (ToLower s) = length s"
  by (simp add: ToLower_def)

lemma lower_char_eq_caseless: "caseless b \<Longrightarrow> lower_char c = b \<longleftrightarrow> c = b"
  by (auto simp: lower_char_def caseless_def)

lemma ToLower_eq_caseless: "list_all caseless p \<Longrightarrow> map lower_char s = p \<longleftrightarrow> s = p"
  by (induction p arbitrary: s) (auto simp: lower_char_eq_caseless map_eq_Cons_conv)

lemma HasPrefix_ToLower: "list_all caseless p \<Longrightarrow> HasPrefix (ToLower s) p \<longleftrightarrow> HasPrefix s p"
  by (simp add: HasPrefix_def ToLower_def take_map ToLower_eq_caseless)

lemma space_seqs_caseless: "list_all (list_all caseless) space_seqs"
  by (simp add: space_seqs_def caseless_def)

lemma strip_seqs_ToLower:
  "list_all (list_all caseless) ps \<Longrightarrow> strip_seqs ps (ToLower s) = ToLower (strip_seqs ps s)"
proof (induction ps s rule: strip_seqs.induct)
  case (1 ps s)
  have eq: "find (\<lambda>p. p \<noteq> [] \<and> HasPrefix (ToLower s) p) ps = find (\<lambda>p. p \<noteq> [] \<and> HasPrefix s p) ps"
    by (rule find_cong) (use 1(2) in \<open>auto simp: HasPrefix_ToLower list_all_iff\<close>)
  show ?case
  proof (cases "find (\<lambda>p. p \<noteq> [] \<and> HasPrefix s p) ps")
    case None
    then show ?thesis by (simp add: strip_seqs.simps [of ps s] strip_seqs.simps [of ps "ToLower s"] eq)
  next
    case (Some p)
    with 1 show ?thesis
      by (simp add: strip_seqs.simps [of ps s] strip_seqs.simps [of ps "ToLower s"] eq)
         (simp add: ToLower_def drop_map)
  qed
qed

lemma TrimSpace_ToLower [go_string]: "TrimSpace (ToLower s) = ToLower (TrimSpace s)"
proof -
  have l: "TrimLeft (ToLower s) = ToLower (TrimLeft s)" for s
    by (simp add: TrimLeft_def strip_seqs_ToLower space_seqs_caseless)
  have "list_all (list_all caseless) (map rev space_seqs)"
    using space_seqs_caseless by (simp add: list_all_iff)
  then have r: "TrimRight (ToLower s) = ToLower (TrimRight s)" for s
    using strip_seqs_ToLower [of "map rev space_seqs" "rev s"]
    by (simp add: TrimRight_def ToLower_def rev_map)
  show ?thesis by (simp add: TrimSpace_def l r)
qed


lemma char_digit_digit_char: "0 \<le> n \<Longrightarrow> n < 10 \<Longrightarrow> char_digit (digit_char n) = Some n"
  by (simp add: char_digit_def digit_char_def of_char_of)

lemma parse_digits_append:
  "parse_digits acc (xs @ ys) = Option.bind (parse_digits acc xs) (\<lambda>a. parse_digits a ys)"
  by (induction xs arbitrary: acc) (auto split: option.split)

lemma parse_digits_decimal: "0 \<le> n \<Longrightarrow> parse_digits 0 (decimal n) = Some n"
proof (induction n rule: decimal.induct)
  case (1 n)
  then show ?case
    by (simp add: decimal.simps [of n] parse_digits_append char_digit_digit_char)
qed

lemma decimal_digits: "0 \<le> n \<Longrightarrow> c \<in> set (decimal n) \<Longrightarrow> char_digit c \<noteq> None"
proof (induction n rule: decimal.induct)
  case (1 n)
  then show ?case
    by (auto simp: decimal.simps [of n] char_digit_digit_char split: if_splits)
qed

lemma decimal_not_Nil [simp]: "decimal n \<noteq> []"
  by (subst decimal.simps) simp

lemma decimal_no_sign:
  assumes "0 \<le> n"
  shows "\<not> HasPrefix (decimal n) ''-''" and "\<not> HasPrefix (decimal n) ''+''"
proof -
  have "char_digit (hd (decimal n)) \<noteq> None"
    using assms by (intro decimal_digits [of n]) simp_all
  moreover have "char_digit (CHR ''-'') = None" and "char_digit (CHR ''+'') = None"
    by (simp_all add: char_digit_def)
  ultimately show "\<not> HasPrefix (decimal n) ''-''" and "\<not> HasPrefix (decimal n) ''+''"
    by (cases "decimal n"; auto simp: HasPrefix_def)+
qed

text \<open>Formatting and parsing round-trip on every 64-bit integer.\<close>

lemma ParseInt_FormatInt [simp]: "is_int64 i \<Longrightarrow> ParseInt (FormatInt i) = Some i"
  by (cases "i < 0")
     (simp_all add: ParseInt_def FormatInt_def decimal_no_sign parse_digits_decimal,
      simp add: HasPrefix_def parse_digits_decimal)

lemma FormatInt_not_Nil [simp]: "FormatInt i \<noteq> []"
  by (simp add: FormatInt_def)

lemma FormatInt_inject: "is_int64 i \<Longrightarrow> is_int64 j \<Longrightarrow> FormatInt i = FormatInt j \<longleftrightarrow> i = j"
  by (metis ParseInt_FormatInt option.inject)

lemma Split_not_Nil [simp]: "Split d s \<noteq> []"
  by (induction s) (auto split: list.splits)

lemma Split_no_sep: "d \<notin> set p \<Longrightarrow> Split d p = [p]"
  by (induction p) auto

lemma Split_append_sep: "d \<notin> set p \<Longrightarrow> Split d (p @ d # s) = p # Split d s"
  by (induction p) auto

lemma Split_Join:
  "ps \<noteq> [] \<Longrightarrow> \<forall>p \<in> set ps. d \<notin> set p \<Longrightarrow> Split d (Join ps [d]) = ps"
  by (induction ps "[d]" rule: Join.induct) (auto simp: Split_no_sep Split_append_sep)

lemma after_last_append: "d \<notin> set t \<Longrightarrow> after_last d (s @ d # t) = Some t"
proof -
  assume t: "d \<notin> set t"
  have none: "after_last d t = None"
    using t by (induction t) auto
  then show ?thesis by (induction s) (auto split: option.splits)
qed

lemma after_last_None: "after_last d s = None \<longleftrightarrow> d \<notin> set s"
  by (induction s) (auto split: option.splits)

lemma find_append: "find P (xs @ ys) = (case find P xs of None \<Rightarrow> find P ys | Some x \<Rightarrow> Some x)"
  by (induction xs) auto

lemma length_filter_key:
  assumes "distinct (map f xs)" and "x \<in> set xs"
  shows "length (filter (\<lambda>y. f y = f x) xs) = 1"
  using assms
proof (induction xs)
  case (Cons a xs)
  then show ?case
    by (cases "f a = f x") (auto simp: filter_empty_conv image_iff)
qed simp

lemma length_filter_map:
  "(\<And>x. P (f x) \<longleftrightarrow> Q x) \<Longrightarrow> length (filter P (map f xs)) = length (filter Q xs)"
  by (induction xs) auto

lemma HasPrefix_iff: "HasPrefix s p \<longleftrightarrow> (\<exists>b. s = p @ b)"
  unfolding HasPrefix_def by (metis append_eq_conv_conj append_take_drop_id)

lemma Contains_iff: "Contains s p \<longleftrightarrow> (\<exists>a b. s = a @ p @ b)"
proof (induction s)
  case Nil
  then show ?case by auto
next
  case (Cons x s)
  have "(\<exists>a b. x # s = a @ p @ b) \<longleftrightarrow> (\<exists>b. x # s = p @ b) \<or> (\<exists>a b. s = a @ p @ b)"
    by (metis append_Cons append_Nil list.exhaust list.sel(3))
  then show ?case by (simp add: HasPrefix_iff Cons.IH)
qed

lemma Contains_take: "Contains (take n s) p \<Longrightarrow> Contains s p"
  by (metis Contains_iff append.assoc append_take_drop_id)

lemma ToLower_take: "ToLower (take n s) = take n (ToLower s)"
  by (simp add: ToLower_def take_map)

end
