(* ===== verification/Domain_Types.thy ===== *)
theory Domain_Types
  imports Go_Base "HOL-Library.AList"
begin

text \<open>
  The data of maild: the structs of \<open>src/internal/domain\<close>, one record each with the fields of
  the source, the error values the service, the store and the queue return, and the schema of
  the PostgreSQL database (\<open>src/internal/migrate/sql\<close>) as a record of tables.
\<close>

section \<open>Errors\<close>

text \<open>
  A Go \<open>error\<close> is compared with \<open>errors.Is\<close> against the sentinels below.
  \<open>ErrRateLimited r\<close> is the sentinel wrapped as \<open>"%w: r"\<close>; \<open>ErrText\<close> is any other error,
  by its text; \<open>ErrDriver\<close> is a failure reported by the database or Redis driver;
  \<open>ErrJoin\<close> is \<open>errors.Join\<close> of two errors.
\<close>

datatype go_error =
    ErrBadRequest
  | ErrRateLimited string
  | ErrBlockedRecipientDomain
  | ErrMessageClaimLost
  | ErrMessageNotFound
  | ErrConstraint string
  | ErrDriver string
  | ErrText string
  | ErrJoin go_error go_error

type_synonym 'a result = "go_error + 'a"

text \<open>
  The fate of one request to a server (PostgreSQL, Redis): executed and answered, refused with
  an error before it had an effect, or executed with the answer lost, so that the client sees an
  error although the effect is there.
\<close>

datatype fault =
    Executed
  | Refused go_error
  | Unacknowledged go_error

section \<open>Messages and attempts\<close>

record Message =
  msg_ID :: int
  msg_WorkspaceID :: int
  msg_FromEmail :: string
  msg_ToEmail :: string
  msg_Subject :: string
  msg_BodyText :: string
  msg_Status :: string
  msg_ScheduledAt :: "go_time option"
  msg_CreatedAt :: go_time
  msg_UpdatedAt :: go_time

record MessageAttempt =
  att_ID :: int
  att_MessageID :: int
  att_AttemptNo :: int
  att_SMTPProvider :: string
  att_SMTPResponse :: string
  att_Success :: bool
  att_CreatedAt :: go_time

record MessageRetryOutcome =
  mro_MessageID :: int
  mro_Status :: string
  mro_Error :: string

record MessageRetryResult =
  mrr_WorkspaceID :: int
  mrr_Requested :: int
  mrr_Retried :: int
  mrr_Skipped :: int
  mrr_Failed :: int
  mrr_ReplaySource :: string
  mrr_Outcomes :: "MessageRetryOutcome list"

section \<open>Metering, policies, SMTP accounts\<close>

text \<open>A metering row's message reference is nullable (\<open>NULLIF($2, 0)\<close>).\<close>

record MeteringEvent =
  met_WorkspaceID :: int
  met_MessageID :: "int option"
  met_EventType :: string
  met_Quantity :: int
  met_Metadata :: "string option"
  met_CreatedAt :: go_time

record WorkspacePolicy =
  pol_WorkspaceID :: int
  pol_RateLimitWorkspacePerHour :: int
  pol_RateLimitDomainPerHour :: int
  pol_BlockedRecipientDomains :: "string list"

record SMTPAccount =
  acc_WorkspaceID :: int
  acc_Name :: string
  acc_Host :: string
  acc_Port :: int
  acc_Username :: string
  acc_Password :: string
  acc_FromEmail :: string
  acc_TLSMode :: string

record SMTPAccountSummary =
  sum_WorkspaceID :: int
  sum_Name :: string
  sum_Active :: bool
  sum_UpdatedAt :: go_time

section \<open>Webhook events\<close>

record WebhookEvent =
  evt_ID :: int
  evt_WorkspaceID :: int
  evt_EventType :: string
  evt_IdentityKey :: string
  evt_Email :: string
  evt_Reason :: string
  evt_Status :: string
  evt_AttemptCount :: int
  evt_LastError :: string
  evt_RawPayload :: string
  evt_CreatedAt :: go_time

record WebhookReplayOutcome =
  wro_EventID :: int
  wro_Status :: string
  wro_AttemptCount :: int
  wro_Error :: string

record WebhookReplayResult =
  wrr_WorkspaceID :: int
  wrr_Requested :: int
  wrr_Replayed :: int
  wrr_Failed :: int
  wrr_Skipped :: int
  wrr_ReplaySource :: string
  wrr_Outcomes :: "WebhookReplayOutcome list"

section \<open>The database schema\<close>

record smtp_row =
  smtp_workspace_id :: int
  smtp_name :: string
  smtp_encrypted_payload :: string
  smtp_is_active :: bool
  smtp_updated_at :: go_time

record policy_row =
  prow_rate_limit_workspace :: int
  prow_rate_limit_domain :: int
  prow_blocked_domains :: string

text \<open>A row of \<open>webhook_events\<close>; \<open>email\<close>, \<open>reason\<close>, \<open>last_error\<close> and
  \<open>raw_payload\<close> are nullable columns.\<close>

record webhook_row =
  whr_id :: int
  whr_workspace_id :: int
  whr_event_type :: string
  whr_identity_key :: string
  whr_email :: "string option"
  whr_reason :: "string option"
  whr_status :: string
  whr_attempt_count :: int
  whr_last_error :: "string option"
  whr_raw_payload :: "string option"
  whr_created_at :: go_time

text \<open>
  The tables. A table whose only access path is a unique key is a map from that key; the
  others are lists of rows in insertion order, with the last value of their sequence.
\<close>

record db =
  db_workspaces :: "(int \<times> string) list"
  db_workspace_seq :: int
  db_messages :: "Message list"
  db_message_seq :: int
  db_attempts :: "MessageAttempt list"
  db_attempt_seq :: int
  db_suppressions :: "(int \<times> string) \<rightharpoonup> string"
  db_unsubscribes :: "(int \<times> string) \<rightharpoonup> string"
  db_smtp_accounts :: "smtp_row list"
  db_policies :: "int \<rightharpoonup> policy_row"
  db_metering :: "MeteringEvent list"
  db_webhook_events :: "webhook_row list"
  db_webhook_seq :: int
  db_domains :: "((int \<times> string) \<times> bool) list"

definition empty_db :: db where
  "empty_db =
     \<lparr>db_workspaces = [], db_workspace_seq = 0,
      db_messages = [], db_message_seq = 0,
      db_attempts = [], db_attempt_seq = 0,
      db_suppressions = Map.empty, db_unsubscribes = Map.empty,
      db_smtp_accounts = [], db_policies = Map.empty, db_metering = [],
      db_webhook_events = [], db_webhook_seq = 0, db_domains = []\<rparr>"

text \<open>
  A store method on the tables: the server's \<open>now()\<close> and the tables before the call give the
  result of the call and the tables after it.
\<close>

type_synonym 'a dbop = "go_time \<Rightarrow> db \<Rightarrow> 'a result \<times> db"

end
