(* ===== verification/Redis_Queue.thy ===== *)
theory Redis_Queue
  imports Domain_Types "HOL-Library.Char_ord" "HOL-Library.List_Lexorder"
begin

text \<open>
  The message queue (\<open>src/internal/queue/redis_queue.go\<close>): a Redis list of ready message ids
  (pushed on the left, popped from the right), a sorted set of delayed retries scored by the
  millisecond at which they become due, and the key that remembers which of the two was popped
  last. Ids are stored as decimal strings, as Redis stores them. Scores are the integers the
  code converts to \<open>float64\<close>, which is exact for every instant below \<open>2^53\<close> milliseconds.
\<close>

section \<open>Definitions\<close>

record redis_queue =
  rq_ready :: "string list"
  rq_retry :: "(string \<times> int) list"
  rq_last :: "string option"

definition empty_queue :: redis_queue where
  "empty_queue = \<lparr>rq_ready = [], rq_retry = [], rq_last = None\<rparr>"

definition Enqueue :: "int \<Rightarrow> redis_queue \<Rightarrow> redis_queue" where
  "Enqueue i q = q\<lparr>rq_ready := FormatInt i # rq_ready q\<rparr>"

text \<open>\<open>ZADD\<close>: a member that is already in the set gets the new score.\<close>

definition zadd :: "string \<Rightarrow> int \<Rightarrow> (string \<times> int) list \<Rightarrow> (string \<times> int) list" where
  "zadd k score z = filter (\<lambda>e. fst e \<noteq> k) z @ [(k, score)]"

definition ScheduleRetry :: "int \<Rightarrow> go_time \<Rightarrow> redis_queue \<Rightarrow> redis_queue" where
  "ScheduleRetry i at q = q\<lparr>rq_retry := zadd (FormatInt i) (UnixMilli at) (rq_retry q)\<rparr>"

text \<open>
  \<open>ZRANGEBYSCORE key -inf now LIMIT 0 1\<close>: the due member of least score; Redis orders
  members of equal score by their bytes.
\<close>

definition first_due :: "int \<Rightarrow> (string \<times> int) list \<Rightarrow> string option" where
  "first_due now_ms z =
     (case sort_key snd (sort_key fst (filter (\<lambda>e. snd e \<le> now_ms) z)) of
        [] \<Rightarrow> None
      | e # _ \<Rightarrow> Some (fst e))"

definition pop_retry :: "string \<Rightarrow> redis_queue \<Rightarrow> redis_queue" where
  "pop_retry k q =
     q\<lparr>rq_retry := filter (\<lambda>e. fst e \<noteq> k) (rq_retry q), rq_last := Some ''retry''\<rparr>"

definition pop_ready :: "redis_queue \<Rightarrow> redis_queue" where
  "pop_ready q = q\<lparr>rq_ready := butlast (rq_ready q), rq_last := Some ''ready''\<rparr>"

text \<open>The Lua script \<open>popNextScript\<close>.\<close>

definition popNextScript :: "int \<Rightarrow> redis_queue \<Rightarrow> string option \<times> redis_queue" where
  "popNextScript now_ms q =
     (let retry = first_due now_ms (rq_retry q);
          has_ready = (rq_ready q \<noteq> []);
          last_source = (case rq_last q of None \<Rightarrow> ''ready'' | Some s \<Rightarrow> s)
      in case retry of
           Some k \<Rightarrow>
             if has_ready \<and> last_source = ''retry''
             then (Some (last (rq_ready q)), pop_ready q)
             else (Some k, pop_retry k q)
         | None \<Rightarrow>
             if has_ready then (Some (last (rq_ready q)), pop_ready q) else (None, q))"

text \<open>\<open>popNext\<close>: an empty or unparsable reply counts as no message.\<close>

definition popNext :: "go_time \<Rightarrow> redis_queue \<Rightarrow> int option \<times> redis_queue" where
  "popNext now q =
     (case popNextScript (UnixMilli now) q of
        (None, q') \<Rightarrow> (None, q')
      | (Some s, q') \<Rightarrow> (if s = [] then None else ParseInt s, q'))"

text \<open>
  \<open>BRPOP\<close> with the timeout of \<open>Dequeue\<close>: the right end of the ready list, or, when it is
  empty, what another client pushes before the timeout (\<open>arrival\<close>, \<open>None\<close> on timeout).
\<close>

definition BRPop :: "string option \<Rightarrow> redis_queue \<Rightarrow> string option \<times> redis_queue" where
  "BRPop arrival q =
     (if rq_ready q = [] then (arrival, q)
      else (Some (last (rq_ready q)), q\<lparr>rq_ready := butlast (rq_ready q)\<rparr>))"

section \<open>The queue as a work list of message ids\<close>

definition rq_inv :: "redis_queue \<Rightarrow> bool" where
  "rq_inv q \<longleftrightarrow>
     (\<forall>s \<in> set (rq_ready q). \<exists>i. is_int64 i \<and> s = FormatInt i) \<and>
     (\<forall>e \<in> set (rq_retry q). \<exists>i. is_int64 i \<and> fst e = FormatInt i) \<and>
     distinct (map fst (rq_retry q))"

text \<open>The ids of the ready list, the oldest first, and the due time of a delayed id.\<close>

definition ready_ids :: "redis_queue \<Rightarrow> int list" where
  "ready_ids q = map (\<lambda>s. the (ParseInt s)) (rev (rq_ready q))"

definition due_ms :: "redis_queue \<Rightarrow> int \<Rightarrow> int option" where
  "due_ms q i = map_of (rq_retry q) (FormatInt i)"

text \<open>
  The interface the service relies on: ids can be made ready or delayed, and a pop at time
  \<open>now\<close> takes the oldest ready id or a delayed id that is due, and nothing else.
\<close>

locale work_queue =
  fixes enqueue :: "int \<Rightarrow> 'q \<Rightarrow> 'q"
    and schedule :: "int \<Rightarrow> go_time \<Rightarrow> 'q \<Rightarrow> 'q"
    and pop :: "go_time \<Rightarrow> 'q \<Rightarrow> int option \<times> 'q"
    and ready :: "'q \<Rightarrow> int list"
    and due :: "'q \<Rightarrow> int \<Rightarrow> int option"
    and valid :: "int \<Rightarrow> bool"
    and invar :: "'q \<Rightarrow> bool"
  assumes ready_enqueue: "invar q \<Longrightarrow> valid i \<Longrightarrow> ready (enqueue i q) = ready q @ [i]"
    and due_enqueue: "invar q \<Longrightarrow> valid i \<Longrightarrow> due (enqueue i q) = due q"
    and ready_schedule: "invar q \<Longrightarrow> valid i \<Longrightarrow> ready (schedule i t q) = ready q"
    and due_schedule: "invar q \<Longrightarrow> valid i \<Longrightarrow> valid j \<Longrightarrow>
          due (schedule i t q) j = (if j = i then Some (UnixMilli t) else due q j)"
    and pop_None: "invar q \<Longrightarrow> pop now q = (None, q') \<Longrightarrow>
          q' = q \<and> ready q = [] \<and> (\<forall>i t. valid i \<longrightarrow> due q i = Some t \<longrightarrow> UnixMilli now < t)"
    and pop_Some: "invar q \<Longrightarrow> pop now q = (Some i, q') \<Longrightarrow> valid i \<and>
          ((ready q = i # ready q' \<and> due q' = due q) \<or>
           (ready q' = ready q \<and> (\<exists>t \<le> UnixMilli now. due q i = Some t) \<and>
            (\<forall>j. valid j \<longrightarrow> due q' j = (if j = i then None else due q j))))"
    and invar_enqueue: "invar q \<Longrightarrow> valid i \<Longrightarrow> invar (enqueue i q)"
    and invar_schedule: "invar q \<Longrightarrow> valid i \<Longrightarrow> invar (schedule i t q)"
    and invar_pop: "invar q \<Longrightarrow> pop now q = (r, q') \<Longrightarrow> invar q'"
begin

definition pending :: "'q \<Rightarrow> int set" where
  "pending q = set (ready q) \<union> {i. valid i \<and> due q i \<noteq> None}"

lemma pending_enqueue: "invar q \<Longrightarrow> valid i \<Longrightarrow> pending (enqueue i q) = insert i (pending q)"
  by (auto simp: pending_def ready_enqueue due_enqueue)

lemma pending_schedule: "invar q \<Longrightarrow> valid i \<Longrightarrow> pending (schedule i t q) = insert i (pending q)"
  by (auto simp: pending_def ready_schedule due_schedule split: if_splits)

text \<open>Nothing is lost: a pop removes at most the id it returns.\<close>

lemma pending_pop:
  assumes "invar q" and "pop now q = (r, q')"
  shows "pending q' \<subseteq> pending q \<and> pending q \<subseteq> pending q' \<union> set_option r"
proof (cases r)
  case None
  with pop_None [OF assms(1), of now q'] assms(2) show ?thesis by auto
next
  case (Some i)
  with pop_Some [OF assms(1), of now i q'] assms(2) show ?thesis
    by (auto simp: pending_def split: if_splits)
qed

text \<open>A delayed id that is not also ready is never handed out before it is due.\<close>

lemma not_before_due:
  assumes "invar q" and "pop now q = (Some i, q')" and "i \<notin> set (ready q)"
  shows "\<exists>t. due q i = Some t \<and> t \<le> UnixMilli now"
  using pop_Some [OF assms(1,2)] assms(3) by auto

text \<open>A pop finds nothing only when nothing is ready and nothing is due.\<close>

lemma pop_progress:
  assumes "invar q" and "ready q \<noteq> [] \<or> (\<exists>i t. valid i \<and> due q i = Some t \<and> t \<le> UnixMilli now)"
  shows "\<exists>i. fst (pop now q) = Some i"
proof (cases "pop now q")
  case (Pair r q')
  with assms pop_None [OF assms(1), of now q'] show ?thesis
    by (cases r) fastforce+
qed

end

lemma ParseInt_ready: "rq_inv q \<Longrightarrow> s \<in> set (rq_ready q) \<Longrightarrow> \<exists>i. is_int64 i \<and> s = FormatInt i \<and> ParseInt s = Some i"
  by (force simp: rq_inv_def)

lemma map_of_zadd: "map_of (zadd k v z) = (map_of z)(k \<mapsto> v)"
proof -
  have "map_of (filter (\<lambda>e. fst e \<noteq> k) z) = (map_of z)(k := None)"
    by (induction z) (auto simp: fun_eq_iff)
  then show ?thesis by (auto simp: zadd_def map_add_def fun_eq_iff split: option.split)
qed

lemma zadd_keys: "distinct (map fst z) \<Longrightarrow> distinct (map fst (zadd k v z))"
  by (auto simp: zadd_def distinct_map inj_on_def)

lemma map_of_filter_key: "map_of (filter (\<lambda>e. fst e \<noteq> k) z) = (map_of z)(k := None)"
  by (induction z) (auto simp: fun_eq_iff)

lemma first_due_Some:
  assumes "distinct (map fst z)" and "first_due now z = Some k"
  shows "\<exists>t \<le> now. map_of z k = Some t"
proof -
  from assms(2) obtain e es where es: "sort_key snd (sort_key fst (filter (\<lambda>e. snd e \<le> now) z)) = e # es"
    and k: "k = fst e"
    by (auto simp: first_due_def split: list.splits)
  have "set (sort_key snd (sort_key fst (filter (\<lambda>e. snd e \<le> now) z))) = {e \<in> set z. snd e \<le> now}"
    by simp
  then have "e \<in> set z \<and> snd e \<le> now" unfolding es by auto
  with assms(1) k show ?thesis by (auto simp: map_of_eq_Some_iff intro!: exI [of _ "snd e"])
qed

lemma first_due_None:
  assumes "first_due now z = None" and "map_of z k = Some t"
  shows "now < t"
proof -
  from assms(1) have "sort_key snd (sort_key fst (filter (\<lambda>e. snd e \<le> now) z)) = []"
    by (auto simp: first_due_def split: list.splits)
  then have "set (sort_key snd (sort_key fst (filter (\<lambda>e. snd e \<le> now) z))) = {}" by simp
  then have "\<forall>e \<in> set z. \<not> snd e \<le> now" by auto
  with map_of_SomeD [OF assms(2)] show ?thesis by auto
qed

lemma popNextScript_cases:
  obtains (none) "popNextScript now q = (None, q)" "first_due now (rq_retry q) = None" "rq_ready q = []"
  | (ready) s where "popNextScript now q = (Some s, pop_ready q)" "rq_ready q = butlast (rq_ready q) @ [s]"
      "first_due now (rq_retry q) = None \<or> rq_last q = Some ''retry''"
  | (retry) k where "popNextScript now q = (Some k, pop_retry k q)" "first_due now (rq_retry q) = Some k"
      "rq_ready q = [] \<or> rq_last q \<noteq> Some ''retry''"
proof -
  have bl: "rq_ready q \<noteq> [] \<Longrightarrow> rq_ready q = butlast (rq_ready q) @ [last (rq_ready q)]" by simp
  show thesis
  proof (cases "first_due now (rq_retry q)")
    case None
    show thesis
    proof (cases "rq_ready q = []")
      case True
      with None show thesis by (intro none) (simp_all add: popNextScript_def)
    next
      case False
      with None bl show thesis
        by (intro ready [of "last (rq_ready q)"]) (simp_all add: popNextScript_def)
    qed
  next
    case (Some k)
    show thesis
    proof (cases "rq_ready q \<noteq> [] \<and> rq_last q = Some ''retry''")
      case True
      with Some bl show thesis
        by (intro ready [of "last (rq_ready q)"]) (simp_all add: popNextScript_def)
    next
      case False
      with Some show thesis
        by (intro retry [of k]) (auto simp: popNextScript_def split: option.splits)
    qed
  qed
qed

lemma ready_ids_snoc: "rq_ready q = xs @ [FormatInt i] \<Longrightarrow> is_int64 i \<Longrightarrow>
   ready_ids q = i # ready_ids (q\<lparr>rq_ready := xs\<rparr>)"
  by (simp add: ready_ids_def)

lemma popNext_ready:
  assumes inv: "rq_inv q" and run: "popNextScript (UnixMilli now) q = (Some s, pop_ready q)"
    and s: "rq_ready q = butlast (rq_ready q) @ [s]"
  obtains i where "is_int64 i" "popNext now q = (Some i, pop_ready q)" "ready_ids q = i # ready_ids (pop_ready q)"
proof -
  from s have "s \<in> set (rq_ready q)" by (metis in_set_conv_decomp)
  with inv obtain i where i: "is_int64 i" "s = FormatInt i"
    using ParseInt_ready by blast
  with run have "popNext now q = (Some i, pop_ready q)" by (simp add: popNext_def)
  moreover have "ready_ids q = i # ready_ids (pop_ready q)"
    using ready_ids_snoc [of q "butlast (rq_ready q)" i] s i
    by (simp add: pop_ready_def ready_ids_def)
  ultimately show thesis using i that by blast
qed

lemma rq_inv_pop_ready: "rq_inv q \<Longrightarrow> rq_inv (pop_ready q)"
  by (auto simp: rq_inv_def pop_ready_def dest: in_set_butlastD)

lemma rq_inv_pop_retry: "rq_inv q \<Longrightarrow> rq_inv (pop_retry k q)"
  by (auto simp: rq_inv_def pop_retry_def distinct_map inj_on_def)

lemma due_ms_pop: "due_ms (pop_ready q) = due_ms q"
  "is_int64 i \<Longrightarrow> is_int64 j \<Longrightarrow> due_ms (pop_retry (FormatInt i) q) j = (if j = i then None else due_ms q j)"
  by (auto simp: due_ms_def pop_ready_def pop_retry_def map_of_filter_key FormatInt_inject fun_eq_iff)

lemma ready_ids_pop_retry [simp]: "ready_ids (pop_retry k q) = ready_ids q"
  by (simp add: ready_ids_def pop_retry_def)

lemma rq_last_pop [simp]:
  "rq_last (pop_ready q) = Some ''ready''" "rq_last (pop_retry k q) = Some ''retry''"
  by (simp_all add: pop_ready_def pop_retry_def)

lemma rq_last_frame [simp]:
  "rq_last (Enqueue i q) = rq_last q" "rq_last (ScheduleRetry i t q) = rq_last q"
  by (simp_all add: Enqueue_def ScheduleRetry_def)

lemma popNext_retry:
  assumes inv: "rq_inv q" and run: "popNextScript (UnixMilli now) q = (Some k, pop_retry k q)"
    and k: "first_due (UnixMilli now) (rq_retry q) = Some k"
  obtains i t where "is_int64 i" "k = FormatInt i" "popNext now q = (Some i, pop_retry k q)"
    "due_ms q i = Some t" "t \<le> UnixMilli now"
proof -
  from k inv obtain t where t: "t \<le> UnixMilli now" "map_of (rq_retry q) k = Some t"
    using first_due_Some [of "rq_retry q" "UnixMilli now" k] unfolding rq_inv_def by blast
  from map_of_SomeD [OF t(2)] inv obtain i where "is_int64 i" "k = FormatInt i"
    by (force simp: rq_inv_def)
  with t run that [of i t] show thesis by (simp add: popNext_def due_ms_def)
qed

interpretation redis: work_queue Enqueue ScheduleRetry popNext ready_ids due_ms is_int64 rq_inv
proof unfold_locales
  fix q i j t now q' r
  assume inv: "rq_inv q"
  show "is_int64 i \<Longrightarrow> ready_ids (Enqueue i q) = ready_ids q @ [i]"
    by (simp add: ready_ids_def Enqueue_def)
  show "is_int64 i \<Longrightarrow> due_ms (Enqueue i q) = due_ms q"
    by (simp add: due_ms_def Enqueue_def fun_eq_iff)
  show "is_int64 i \<Longrightarrow> ready_ids (ScheduleRetry i t q) = ready_ids q"
    by (simp add: ready_ids_def ScheduleRetry_def)
  show "is_int64 i \<Longrightarrow> is_int64 j \<Longrightarrow>
      due_ms (ScheduleRetry i t q) j = (if j = i then Some (UnixMilli t) else due_ms q j)"
    by (simp add: due_ms_def ScheduleRetry_def map_of_zadd FormatInt_inject)
  show "is_int64 i \<Longrightarrow> rq_inv (Enqueue i q)"
    using inv by (auto simp: rq_inv_def Enqueue_def)
  show "is_int64 i \<Longrightarrow> rq_inv (ScheduleRetry i t q)"
    using inv zadd_keys by (auto simp: rq_inv_def ScheduleRetry_def zadd_def)
  show "q' = q \<and> ready_ids q = [] \<and> (\<forall>i t. is_int64 i \<longrightarrow> due_ms q i = Some t \<longrightarrow> UnixMilli now < t)"
    if "popNext now q = (None, q')"
  proof (cases rule: popNextScript_cases [of "UnixMilli now" q])
    case none
    with that show ?thesis by (auto simp: popNext_def ready_ids_def due_ms_def dest: first_due_None)
  next
    case (ready s)
    with that inv show ?thesis by (auto elim: popNext_ready)
  next
    case (retry k)
    with that inv show ?thesis by (auto elim: popNext_retry)
  qed
  show "is_int64 i \<and>
       (ready_ids q = i # ready_ids q' \<and> due_ms q' = due_ms q \<or>
        ready_ids q' = ready_ids q \<and> (\<exists>t\<le>UnixMilli now. due_ms q i = Some t) \<and>
        (\<forall>j. is_int64 j \<longrightarrow> due_ms q' j = (if j = i then None else due_ms q j)))"
    if "popNext now q = (Some i, q')"
  proof (cases rule: popNextScript_cases [of "UnixMilli now" q])
    case none
    with that show ?thesis by (simp add: popNext_def)
  next
    case (ready s)
    with inv obtain i0 where "is_int64 i0" "popNext now q = (Some i0, pop_ready q)"
      "ready_ids q = i0 # ready_ids (pop_ready q)" by (auto elim: popNext_ready)
    with that show ?thesis by (auto simp: due_ms_pop)
  next
    case (retry k)
    with inv obtain i0 t where "is_int64 i0" "k = FormatInt i0" "popNext now q = (Some i0, pop_retry k q)"
      "due_ms q i0 = Some t" "t \<le> UnixMilli now" by (auto elim: popNext_retry)
    with that show ?thesis by (auto simp: due_ms_pop)
  qed
  show "rq_inv q'" if "popNext now q = (r, q')"
  proof (cases rule: popNextScript_cases [of "UnixMilli now" q])
    case none
    with that inv show ?thesis by (simp add: popNext_def)
  next
    case ready
    with that inv show ?thesis by (auto simp: popNext_def rq_inv_pop_ready)
  next
    case retry
    with that inv show ?thesis by (auto simp: popNext_def rq_inv_pop_retry)
  qed
qed

section \<open>Runs of the queue\<close>

text \<open>Any interleaving of the three operations, and the ids its pops return.\<close>

datatype queue_op = EnqueueOp int | ScheduleOp int go_time | PopOp go_time

fun valid_op :: "queue_op \<Rightarrow> bool" where
  "valid_op (EnqueueOp i) = is_int64 i"
| "valid_op (ScheduleOp i t) = is_int64 i"
| "valid_op (PopOp now) = True"

fun pops :: "queue_op list \<Rightarrow> nat" where
  "pops [] = 0"
| "pops (PopOp now # ops) = Suc (pops ops)"
| "pops (op # ops) = pops ops"

fun run_queue :: "queue_op list \<Rightarrow> redis_queue \<Rightarrow> int list \<times> redis_queue" where
  "run_queue [] q = ([], q)"
| "run_queue (EnqueueOp i # ops) q = run_queue ops (Enqueue i q)"
| "run_queue (ScheduleOp i t # ops) q = run_queue ops (ScheduleRetry i t q)"
| "run_queue (PopOp now # ops) q =
     (case popNext now q of (r, q') \<Rightarrow>
        (case run_queue ops q' of (out, q'') \<Rightarrow>
           ((case r of None \<Rightarrow> out | Some i \<Rightarrow> i # out), q'')))"

definition pop_bound :: "nat \<Rightarrow> redis_queue \<Rightarrow> nat" where
  "pop_bound k q = 2 * k + (if rq_last q = Some ''retry'' then 1 else 2)"

lemma popNext_nonempty:
  assumes inv: "rq_inv q" and ne: "ready_ids q = x # xs"
  obtains (ready) "popNext now q = (Some x, pop_ready q)" "ready_ids (pop_ready q) = xs"
  | (retry) i k where "popNext now q = (Some i, pop_retry k q)" "rq_last q \<noteq> Some ''retry''"
proof (cases rule: popNextScript_cases [of "UnixMilli now" q])
  case none
  with ne show thesis by (simp add: ready_ids_def)
next
  case r: (ready s)
  from popNext_ready [OF inv r(1,2)] obtain i where
    "popNext now q = (Some i, pop_ready q)" "ready_ids q = i # ready_ids (pop_ready q)" .
  with ne show thesis by (intro ready) simp_all
next
  case r: (retry k)
  from popNext_retry [OF inv r(1,2)] obtain i where "popNext now q = (Some i, pop_retry k q)" .
  moreover from ne have "rq_ready q \<noteq> []" by (auto simp: ready_ids_def)
  ultimately show thesis using r(3) by (intro retry) simp_all
qed

lemma ready_popped_within:
  assumes "rq_inv q" and "list_all valid_op ops" and "ready_ids q = xs @ i # ys"
    and "pop_bound (length xs) q \<le> pops ops"
  shows "i \<in> set (fst (run_queue ops q))"
  using assms
proof (induction ops arbitrary: q xs ys)
  case Nil
  then show ?case by (simp add: pop_bound_def split: if_splits)
next
  case (Cons op ops)
  show ?case
  proof (cases op)
    case (EnqueueOp j)
    with Cons.prems have "i \<in> set (fst (run_queue ops (Enqueue j q)))"
      by (intro Cons.IH [of "Enqueue j q" xs "ys @ [j]"])
         (simp_all add: redis.invar_enqueue redis.ready_enqueue pop_bound_def)
    with EnqueueOp show ?thesis by simp
  next
    case (ScheduleOp j t)
    with Cons.prems have "i \<in> set (fst (run_queue ops (ScheduleRetry j t q)))"
      by (intro Cons.IH [of "ScheduleRetry j t q" xs ys])
         (simp_all add: redis.invar_schedule redis.ready_schedule pop_bound_def)
    with ScheduleOp show ?thesis by simp
  next
    case (PopOp now)
    obtain z zs where z: "xs @ i # ys = z # zs" by (cases xs) auto
    from Cons.prems(1) Cons.prems(3) [unfolded z] show ?thesis
    proof (cases rule: popNext_nonempty [where now = now])
      case ready
      show ?thesis
      proof (cases xs)
        case Nil
        with z ready PopOp show ?thesis by (auto split: prod.split)
      next
        case (Cons x xs')
        with z ready PopOp Cons.prems have "i \<in> set (fst (run_queue ops (pop_ready q)))"
          by (intro Cons.IH [of "pop_ready q" xs' ys]) (auto simp: rq_inv_pop_ready pop_bound_def split: if_splits)
        with ready PopOp show ?thesis by (auto split: prod.split)
      qed
    next
      case (retry j k)
      with PopOp Cons.prems have "i \<in> set (fst (run_queue ops (pop_retry k q)))"
        by (intro Cons.IH [of "pop_retry k q" xs ys]) (auto simp: rq_inv_pop_retry pop_bound_def)
      with retry PopOp show ?thesis by (auto split: prod.split)
    qed
  qed
qed

lemma due_ms_ScheduleRetry [simp]: "due_ms (ScheduleRetry i at q) i = Some (UnixMilli at)"
  by (simp add: due_ms_def ScheduleRetry_def map_of_zadd)

end
