(* ===== verification/Queue_Refinement.thy ===== *)
theory Queue_Refinement
  imports Redis_Queue
begin

text \<open>
  The queue seen by its callers: the work list that the ready list and the delayed set of
  \<open>src/internal/queue/redis_queue.go\<close> implement together.
\<close>

section \<open>Definitions\<close>

text \<open>The specification: a first-in first-out list of ids and a set of ids with due times.\<close>

type_synonym work_list = "int list \<times> (int \<rightharpoonup> int)"

definition work_of :: "redis_queue \<Rightarrow> work_list" where
  "work_of q = (ready_ids q, (\<lambda>i. if is_int64 i then due_ms q i else None))"

fun queue_step :: "queue_op \<Rightarrow> redis_queue \<Rightarrow> int option \<times> redis_queue" where
  "queue_step (EnqueueOp i) q = (None, Enqueue i q)"
| "queue_step (ScheduleOp i t) q = (None, ScheduleRetry i t q)"
| "queue_step (PopOp now) q = popNext now q"

definition demo_queue :: redis_queue where
  "demo_queue = ScheduleRetry 7 (5 * Second) (Enqueue 8 (Enqueue 9 empty_queue))"

section \<open>The queue refines a work list\<close>

inductive work_step :: "queue_op \<Rightarrow> work_list \<Rightarrow> int option \<Rightarrow> work_list \<Rightarrow> bool" where
  work_enqueue: "work_step (EnqueueOp i) (r, d) None (r @ [i], d)"
| work_schedule: "work_step (ScheduleOp i t) (r, d) None (r, d(i \<mapsto> UnixMilli t))"
| work_ready: "work_step (PopOp now) (i # r, d) (Some i) (r, d)"
| work_due: "d i = Some t \<Longrightarrow> t \<le> UnixMilli now \<Longrightarrow> work_step (PopOp now) (r, d) (Some i) (r, d(i := None))"
| work_none: "\<forall>i t. d i = Some t \<longrightarrow> UnixMilli now < t \<Longrightarrow> work_step (PopOp now) ([], d) None ([], d)"

inductive_cases work_pop: "work_step (PopOp now) w out w'"


lemma demo_queue_inv: "rq_inv demo_queue"
proof -
  have valid: "is_int64 7" "is_int64 8" "is_int64 9" by (simp_all add: is_int64_def min_int64_def max_int64_def)
  have "rq_inv empty_queue" by (simp add: rq_inv_def empty_queue_def)
  with valid show ?thesis unfolding demo_queue_def by (intro redis.invar_schedule redis.invar_enqueue)
qed


text \<open>
  C22 No ready id starves: with \<open>k\<close> ids before it, an id of the ready list has been handed out after
  at most \<open>2 * k + 2\<close> pops, however many delayed ids are due and whatever else is enqueued or
  scheduled in between, because the script alternates between its two sources.
\<close>

theorem ready_id_served:
  assumes "rq_inv q" and "list_all valid_op ops" and "ready_ids q = before @ i # after" and "2 * length before + 2 \<le> pops ops"
  shows "i \<in> set (fst (run_queue ops q))"
  using assms by (intro ready_popped_within [of q ops before i after]) (simp_all add: pop_bound_def)

text \<open>The hypotheses hold for the second id of the ready list and four pops.\<close>

theorem ready_id_served_witness:
  "8 \<in> set (fst (run_queue [PopOp (6 * Second), PopOp (6 * Second), PopOp (6 * Second), PopOp (6 * Second)] demo_queue))"
proof -
  have "ready_ids demo_queue = [9] @ 8 # []" by code_simp
  then show ?thesis using demo_queue_inv by (intro ready_id_served [of _ _ "[9]" 8 "[]"]) simp_all
qed

end
