(* ===== verification/Pg_Store.thy ===== *)
theory Pg_Store
  imports Domain_Types
begin

text \<open>
  The PostgreSQL store (\<open>src/internal/store/postgres\<close>): one definition per method, a function
  from the server's time and the tables to the result and the tables after. Statements of one
  transaction act together; a constraint the schema declares (foreign keys to \<open>workspaces\<close> and
  \<open>messages\<close>, the unique keys, the range of \<open>INT\<close> columns) that a statement would break makes
  it an error with the tables unchanged. Where \<open>ORDER BY\<close> leaves rows with equal keys
  unordered, the model keeps their insertion order. Failures of the connection are not here:
  \<open>World\<close> wraps each call.
\<close>

section \<open>Definitions: recipients\<close>

definition normalizeEmail :: "string \<Rightarrow> string" where
  "normalizeEmail email = ToLower (TrimSpace email)"

definition has_workspace :: "int \<Rightarrow> db \<Rightarrow> bool" where
  "has_workspace ws d \<longleftrightarrow> ws \<in> fst ` set (db_workspaces d)"

definition fk_error :: go_error where
  "fk_error = ErrConstraint ''violates foreign key constraint''"

definition unique_error :: go_error where
  "unique_error = ErrConstraint ''duplicate key value violates unique constraint''"

definition range_error :: go_error where
  "range_error = ErrConstraint ''integer out of range''"

definition EnsureDefaultWorkspace :: "unit dbop" where
  "EnsureDefaultWorkspace now d =
     (let rows = (if has_workspace 1 d then db_workspaces d
                  else db_workspaces d @ [(1, ''default'')]);
          top = Max (insert 1 (fst ` set rows))
      in (Inr (), d\<lparr>db_workspaces := rows, db_workspace_seq := max (db_workspace_seq d) top\<rparr>))"

definition IsSuppressed :: "int \<Rightarrow> string \<Rightarrow> bool dbop" where
  "IsSuppressed ws email now d =
     (Inr (db_suppressions d (ws, normalizeEmail email) \<noteq> None), d)"

definition AddSuppression :: "int \<Rightarrow> string \<Rightarrow> string \<Rightarrow> unit dbop" where
  "AddSuppression ws email reason now d =
     (if \<not> has_workspace ws d then (Inl fk_error, d)
      else (Inr (), d\<lparr>db_suppressions := (db_suppressions d)((ws, normalizeEmail email) \<mapsto> reason)\<rparr>))"

definition IsUnsubscribed :: "int \<Rightarrow> string \<Rightarrow> bool dbop" where
  "IsUnsubscribed ws email now d =
     (Inr (db_unsubscribes d (ws, normalizeEmail email) \<noteq> None), d)"

definition AddUnsubscribe :: "int \<Rightarrow> string \<Rightarrow> string \<Rightarrow> unit dbop" where
  "AddUnsubscribe ws email reason now d =
     (if \<not> has_workspace ws d then (Inl fk_error, d)
      else (Inr (), d\<lparr>db_unsubscribes := (db_unsubscribes d)((ws, normalizeEmail email) \<mapsto> reason)\<rparr>))"

definition UpsertDomainVerification :: "int \<Rightarrow> string \<Rightarrow> bool \<Rightarrow> unit dbop" where
  "UpsertDomainVerification ws name verified now d =
     (if \<not> has_workspace ws d then (Inl fk_error, d)
      else (Inr (), d\<lparr>db_domains := AList.update (ws, name) verified (db_domains d)\<rparr>))"

section \<open>Definitions: SMTP accounts\<close>

text \<open>The two statements of \<open>UpsertSMTPAccountEncrypted\<close>, which are not one transaction.\<close>

definition smtp_account_exists :: "int \<Rightarrow> bool dbop" where
  "smtp_account_exists ws now d =
     (Inr (\<exists>r \<in> set (db_smtp_accounts d). smtp_workspace_id r = ws), d)"

definition smtp_account_upsert :: "int \<Rightarrow> string \<Rightarrow> string \<Rightarrow> bool \<Rightarrow> unit dbop" where
  "smtp_account_upsert ws name payload activate now d =
     (let rows = db_smtp_accounts d in
      if \<not> has_workspace ws d then (Inl fk_error, d)
      else if \<exists>r \<in> set rows. smtp_workspace_id r = ws \<and> smtp_name r = name
      then (Inr (), d\<lparr>db_smtp_accounts :=
              map (\<lambda>r. if smtp_workspace_id r = ws \<and> smtp_name r = name
                       then r\<lparr>smtp_encrypted_payload := payload, smtp_updated_at := now\<rparr>
                       else r) rows\<rparr>)
      else if activate \<and> (\<exists>r \<in> set rows. smtp_workspace_id r = ws \<and> smtp_is_active r)
      then (Inl unique_error, d)
      else (Inr (), d\<lparr>db_smtp_accounts := rows @
              [\<lparr>smtp_workspace_id = ws, smtp_name = name, smtp_encrypted_payload = payload,
                smtp_is_active = activate, smtp_updated_at = now\<rparr>]\<rparr>))"

text \<open>\<open>WHERE workspace_id = $1 ORDER BY is_active DESC, updated_at DESC\<close>.\<close>

definition smtp_ranked :: "int \<Rightarrow> db \<Rightarrow> smtp_row list" where
  "smtp_ranked ws d =
     sort_key (\<lambda>r. if smtp_is_active r then (0::int) else 1)
       (sort_key (\<lambda>r. - smtp_updated_at r)
         (filter (\<lambda>r. smtp_workspace_id r = ws) (db_smtp_accounts d)))"

definition GetSMTPAccountEncrypted :: "int \<Rightarrow> string option dbop" where
  "GetSMTPAccountEncrypted ws now d =
     (case smtp_ranked ws d of
        [] \<Rightarrow> (Inr None, d)
      | r # _ \<Rightarrow> (Inr (Some (smtp_encrypted_payload r)), d))"

definition SetActiveSMTPAccount :: "int \<Rightarrow> string \<Rightarrow> unit dbop" where
  "SetActiveSMTPAccount ws name now d =
     (let rows = db_smtp_accounts d;
          cleared = map (\<lambda>r. if smtp_workspace_id r = ws then r\<lparr>smtp_is_active := False\<rparr> else r) rows;
          hit = (\<lambda>r. smtp_workspace_id r = ws \<and> smtp_name r = TrimSpace name)
      in if \<exists>r \<in> set cleared. hit r
         then (Inr (), d\<lparr>db_smtp_accounts :=
                 map (\<lambda>r. if hit r then r\<lparr>smtp_is_active := True, smtp_updated_at := now\<rparr> else r) cleared\<rparr>)
         else (Inl (ErrText ''smtp account not found''), d))"

definition ListSMTPAccounts :: "int \<Rightarrow> SMTPAccountSummary list dbop" where
  "ListSMTPAccounts ws now d =
     (Inr (map (\<lambda>r. \<lparr>sum_WorkspaceID = smtp_workspace_id r, sum_Name = smtp_name r,
                      sum_Active = smtp_is_active r, sum_UpdatedAt = smtp_updated_at r\<rparr>)
             (smtp_ranked ws d)), d)"

definition CountFailedAttemptsByProviderSince :: "int \<Rightarrow> string \<Rightarrow> go_time \<Rightarrow> int dbop" where
  "CountFailedAttemptsByProviderSince ws provider since now d =
     (Inr (int (length (filter
        (\<lambda>a. (\<exists>m \<in> set (db_messages d). msg_ID m = att_MessageID a \<and> msg_WorkspaceID m = ws) \<and>
             att_SMTPProvider a = provider \<and> \<not> att_Success a \<and> since \<le> att_CreatedAt a)
        (db_attempts d)))), d)"

section \<open>Definitions: messages and attempts\<close>

definition CreateMessage :: "Message \<Rightarrow> Message dbop" where
  "CreateMessage m now d =
     (if \<not> has_workspace (msg_WorkspaceID m) d then (Inl fk_error, d)
      else let row = m\<lparr>msg_ID := db_message_seq d + 1, msg_CreatedAt := now, msg_UpdatedAt := now\<rparr>
           in (Inr row, d\<lparr>db_messages := db_messages d @ [row],
                          db_message_seq := db_message_seq d + 1\<rparr>))"

definition find_message :: "int \<Rightarrow> db \<Rightarrow> Message option" where
  "find_message i d = find (\<lambda>m. msg_ID m = i) (db_messages d)"

definition GetMessage :: "int \<Rightarrow> Message dbop" where
  "GetMessage i now d =
     (case find_message i d of
        None \<Rightarrow> (Inl ErrMessageNotFound, d)
      | Some m \<Rightarrow> (Inr m, d))"

text \<open>
  \<open>UPDATE messages SET \<dots> WHERE \<dots>\<close>: the rows the condition selects are rewritten, and the
  number of rows affected is reported.
\<close>

definition update_messages :: "(Message \<Rightarrow> bool) \<Rightarrow> (Message \<Rightarrow> Message) \<Rightarrow> db \<Rightarrow> db" where
  "update_messages p f d = d\<lparr>db_messages := map (\<lambda>m. if p m then f m else m) (db_messages d)\<rparr>"

definition rows_affected :: "(Message \<Rightarrow> bool) \<Rightarrow> db \<Rightarrow> int" where
  "rows_affected p d = int (length (filter p (db_messages d)))"

definition SetMessageStatus :: "int \<Rightarrow> string \<Rightarrow> unit dbop" where
  "SetMessageStatus i status now d =
     (Inr (), update_messages (\<lambda>m. msg_ID m = i)
        (\<lambda>m. m\<lparr>msg_Status := status,
                msg_ScheduledAt := (if status = ''queued'' then msg_ScheduledAt m else None),
                msg_UpdatedAt := now\<rparr>) d)"

definition SetMessageRetryAt :: "int \<Rightarrow> go_time \<Rightarrow> bool dbop" where
  "SetMessageRetryAt i at now d =
     (let p = (\<lambda>m. msg_ID m = i \<and> msg_Status m = ''sending'')
      in (Inr (rows_affected p d > 0),
          update_messages p
            (\<lambda>m. m\<lparr>msg_Status := ''queued'', msg_ScheduledAt := Some at, msg_UpdatedAt := now\<rparr>) d))"

definition recovery_candidate :: "go_time \<Rightarrow> go_time \<Rightarrow> Message \<Rightarrow> bool" where
  "recovery_candidate olderThan now m \<longleftrightarrow>
     msg_Status m = ''queued'' \<and> msg_UpdatedAt m \<le> olderThan \<and>
     (case msg_ScheduledAt m of None \<Rightarrow> True | Some t \<Rightarrow> t \<le> now)"

definition ClaimQueuedMessagesForRecovery :: "go_time \<Rightarrow> int \<Rightarrow> int list dbop" where
  "ClaimQueuedMessagesForRecovery olderThan limit now d =
     (let candidates = take (nat limit)
            (sort_key msg_UpdatedAt (sort_key msg_ID
               (filter (recovery_candidate olderThan now) (db_messages d))));
          ids = map msg_ID candidates
      in (Inr (sort ids),
          update_messages (\<lambda>m. msg_ID m \<in> set ids)
            (\<lambda>m. m\<lparr>msg_UpdatedAt := now, msg_ScheduledAt := None\<rparr>) d))"

definition MarkStaleSendingUnknown :: "go_time \<Rightarrow> int dbop" where
  "MarkStaleSendingUnknown olderThan now d =
     (let p = (\<lambda>m. msg_Status m = ''sending'' \<and> msg_UpdatedAt m \<le> olderThan)
      in (Inr (rows_affected p d),
          update_messages p (\<lambda>m. m\<lparr>msg_Status := ''unknown'', msg_UpdatedAt := now\<rparr>) d))"

definition TransitionMessageStatus :: "int \<Rightarrow> string \<Rightarrow> string \<Rightarrow> bool dbop" where
  "TransitionMessageStatus i fromStatus toStatus now d =
     (let p = (\<lambda>m. msg_ID m = i \<and> msg_Status m = fromStatus)
      in (Inr (rows_affected p d > 0),
          update_messages p
            (\<lambda>m. m\<lparr>msg_Status := toStatus,
                    msg_ScheduledAt := (if toStatus = ''queued'' then msg_ScheduledAt m else None),
                    msg_UpdatedAt := now\<rparr>) d))"

definition attempts_of :: "int \<Rightarrow> db \<Rightarrow> MessageAttempt list" where
  "attempts_of i d = filter (\<lambda>a. att_MessageID a = i) (db_attempts d)"

definition NextAttemptNo :: "int \<Rightarrow> int dbop" where
  "NextAttemptNo i now d =
     (let n = fold max (map att_AttemptNo (attempts_of i d)) 0 + 1
      in if is_int32 n then (Inr n, d) else (Inl range_error, d))"

definition InsertAttempt :: "int \<Rightarrow> int \<Rightarrow> string \<Rightarrow> string \<Rightarrow> bool \<Rightarrow> unit dbop" where
  "InsertAttempt i attemptNo provider response success now d =
     (if \<not> is_int32 attemptNo then (Inl range_error, d)
      else if find_message i d = None then (Inl fk_error, d)
      else if \<exists>a \<in> set (attempts_of i d). att_AttemptNo a = attemptNo then (Inl unique_error, d)
      else (Inr (), d\<lparr>db_attempts := db_attempts d @
              [\<lparr>att_ID = db_attempt_seq d + 1, att_MessageID = i, att_AttemptNo = attemptNo,
                att_SMTPProvider = provider, att_SMTPResponse = response,
                att_Success = success, att_CreatedAt = now\<rparr>],
              db_attempt_seq := db_attempt_seq d + 1\<rparr>))"

definition ListMessageAttempts :: "int \<Rightarrow> MessageAttempt list dbop" where
  "ListMessageAttempts i now d = (Inr (sort_key att_AttemptNo (attempts_of i d)), d)"

text \<open>The bounds both list methods put on their limit.\<close>

definition clamp_limit :: "int \<Rightarrow> int \<Rightarrow> int \<Rightarrow> int" where
  "clamp_limit low high limit =
     (let l = (if limit < 1 then low else limit) in if l > high then high else l)"

definition in_window :: "go_time \<Rightarrow> go_time \<Rightarrow> go_time \<Rightarrow> bool" where
  "in_window from to t \<longleftrightarrow> (from = zero_time \<or> from \<le> t) \<and> (to = zero_time \<or> t < to)"

definition ListMessages :: "int \<Rightarrow> int \<Rightarrow> go_time \<Rightarrow> go_time \<Rightarrow> Message list dbop" where
  "ListMessages ws limit from to now d =
     (Inr (take (nat (clamp_limit 50 200 limit))
        (sort_key (\<lambda>m. - msg_CreatedAt m)
          (filter (\<lambda>m. msg_WorkspaceID m = ws \<and> in_window from to (msg_CreatedAt m))
             (db_messages d)))), d)"

text \<open>\<open>split_part(s, '@', 2)\<close>: the second field, empty when there is none.\<close>

definition split_part2 :: "string \<Rightarrow> string" where
  "split_part2 s = (case Split (CHR ''@'') s of _ # p # _ \<Rightarrow> p | _ \<Rightarrow> [])"

definition CountMessagesSince :: "int \<Rightarrow> string \<Rightarrow> go_time \<Rightarrow> int dbop" where
  "CountMessagesSince ws recipientDomain since now d =
     (Inr (int (length (filter
        (\<lambda>m. msg_WorkspaceID m = ws \<and> since \<le> msg_CreatedAt m \<and>
             (recipientDomain \<noteq> [] \<longrightarrow>
                ToLower (split_part2 (msg_ToEmail m)) = ToLower (TrimSpace recipientDomain)))
        (db_messages d)))), d)"

section \<open>Definitions: policies, metering, exports\<close>

definition splitDomains :: "string \<Rightarrow> string list" where
  "splitDomains raw = filter (\<lambda>x. x \<noteq> []) (map (\<lambda>p. ToLower (TrimSpace p)) (Split (CHR '','') raw))"

definition UpsertWorkspacePolicy :: "WorkspacePolicy \<Rightarrow> unit dbop" where
  "UpsertWorkspacePolicy p now d =
     (if \<not> has_workspace (pol_WorkspaceID p) d then (Inl fk_error, d)
      else if \<not> (is_int32 (pol_RateLimitWorkspacePerHour p) \<and> is_int32 (pol_RateLimitDomainPerHour p))
      then (Inl range_error, d)
      else (Inr (), d\<lparr>db_policies := (db_policies d)(pol_WorkspaceID p \<mapsto>
              \<lparr>prow_rate_limit_workspace = pol_RateLimitWorkspacePerHour p,
               prow_rate_limit_domain = pol_RateLimitDomainPerHour p,
               prow_blocked_domains = Join (pol_BlockedRecipientDomains p) '',''\<rparr>)\<rparr>))"

definition GetWorkspacePolicy :: "int \<Rightarrow> WorkspacePolicy option dbop" where
  "GetWorkspacePolicy ws now d =
     (Inr (map_option (\<lambda>r. \<lparr>pol_WorkspaceID = ws,
              pol_RateLimitWorkspacePerHour = prow_rate_limit_workspace r,
              pol_RateLimitDomainPerHour = prow_rate_limit_domain r,
              pol_BlockedRecipientDomains = splitDomains (prow_blocked_domains r)\<rparr>)
             (db_policies d ws)), d)"

text \<open>
  The column \<open>metadata\<close> is \<open>JSONB\<close>: whether the server reads a text as JSON is the parameter
  \<open>jsonb\<close>.
\<close>

definition json_error :: go_error where
  "json_error = ErrConstraint ''invalid input syntax for type json''"

definition InsertMeteringEvent :: "(string \<Rightarrow> bool) \<Rightarrow> int \<Rightarrow> int \<Rightarrow> string \<Rightarrow> int \<Rightarrow> string \<Rightarrow> unit dbop" where
  "InsertMeteringEvent jsonb ws messageID eventType quantity metadata now d =
     (if \<not> has_workspace ws d \<or> (messageID \<noteq> 0 \<and> find_message messageID d = None)
      then (Inl fk_error, d)
      else if \<not> is_int32 quantity then (Inl range_error, d)
      else if TrimSpace metadata \<noteq> [] \<and> \<not> jsonb metadata then (Inl json_error, d)
      else (Inr (), d\<lparr>db_metering := db_metering d @
              [\<lparr>met_WorkspaceID = ws,
                met_MessageID = (if messageID = 0 then None else Some messageID),
                met_EventType = eventType, met_Quantity = quantity,
                met_Metadata = (if TrimSpace metadata = [] then None else Some metadata),
                met_CreatedAt = now\<rparr>]\<rparr>))"

fun ReplaceAll_quote :: "string \<Rightarrow> string" where
  "ReplaceAll_quote [] = []"
| "ReplaceAll_quote (c # s) =
     (if c = CHR 0x22 then CHR 0x22 # CHR 0x22 # ReplaceAll_quote s else c # ReplaceAll_quote s)"

definition csvEscape :: "string \<Rightarrow> string" where
  "csvEscape v = CHR 0x22 # ReplaceAll_quote v @ [CHR 0x22]"

definition message_ids :: "db \<Rightarrow> int list" where
  "message_ids d = map msg_ID (db_messages d)"

definition message_inv :: "db \<Rightarrow> bool" where
  "message_inv d \<longleftrightarrow>
     distinct (message_ids d) \<and> (\<forall>i \<in> set (message_ids d). 0 < i \<and> i \<le> db_message_seq d) \<and>
     0 \<le> db_message_seq d"

definition attempt_inv :: "db \<Rightarrow> bool" where
  "attempt_inv d \<longleftrightarrow>
     distinct (map (\<lambda>a. (att_MessageID a, att_AttemptNo a)) (db_attempts d)) \<and>
     (\<forall>a \<in> set (db_attempts d). att_MessageID a \<in> set (message_ids d))"

definition smtp_inv :: "db \<Rightarrow> bool" where
  "smtp_inv d \<longleftrightarrow>
     distinct (map (\<lambda>r. (smtp_workspace_id r, smtp_name r)) (db_smtp_accounts d)) \<and>
     (\<forall>ws. (\<exists>r \<in> set (db_smtp_accounts d). smtp_workspace_id r = ws) \<longrightarrow>
        length (filter (\<lambda>r. smtp_workspace_id r = ws \<and> smtp_is_active r) (db_smtp_accounts d)) = 1)"

definition account_key :: "smtp_row \<Rightarrow> int \<times> string" where
  "account_key r = (smtp_workspace_id r, smtp_name r)"

definition active_rows :: "int \<Rightarrow> db \<Rightarrow> smtp_row list" where
  "active_rows ws d = filter (\<lambda>r. smtp_workspace_id r = ws \<and> smtp_is_active r) (db_smtp_accounts d)"

definition store_row :: "int \<Rightarrow> string \<Rightarrow> string \<Rightarrow> go_time \<Rightarrow> smtp_row \<Rightarrow> smtp_row" where
  "store_row ws name payload now r =
     (if smtp_workspace_id r = ws \<and> smtp_name r = name
      then r\<lparr>smtp_encrypted_payload := payload, smtp_updated_at := now\<rparr> else r)"

definition switch_row :: "int \<Rightarrow> string \<Rightarrow> go_time \<Rightarrow> smtp_row \<Rightarrow> smtp_row" where
  "switch_row ws name now r =
     (if smtp_workspace_id r = ws
      then (if smtp_name r = name then r\<lparr>smtp_is_active := True, smtp_updated_at := now\<rparr>
            else r\<lparr>smtp_is_active := False\<rparr>)
      else r)"

section \<open>Invariants of the tables\<close>

lemma find_message_update:
  "(\<And>m. msg_ID (f m) = msg_ID m) \<Longrightarrow>
   find_message i (update_messages p f d) =
     map_option (\<lambda>m. if p m then f m else m) (find_message i d)"
proof -
  assume f: "\<And>m. msg_ID (f m) = msg_ID m"
  have "find (\<lambda>m. msg_ID m = i) (map (\<lambda>m. if p m then f m else m) ms) =
          map_option (\<lambda>m. if p m then f m else m) (find (\<lambda>m. msg_ID m = i) ms)" for ms
    by (induction ms) (auto simp: f)
  then show ?thesis by (simp add: find_message_def update_messages_def)
qed

lemma find_message_SomeD: "find_message i d = Some m \<Longrightarrow> m \<in> set (db_messages d) \<and> msg_ID m = i"
  by (auto simp: find_message_def find_Some_iff dest: nth_mem)

lemma find_message_mem:
  "message_inv d \<Longrightarrow> m \<in> set (db_messages d) \<Longrightarrow> find_message (msg_ID m) d = Some m"
proof -
  assume inv: "message_inv d" and m: "m \<in> set (db_messages d)"
  have "distinct (map msg_ID ms) \<Longrightarrow> m \<in> set ms \<Longrightarrow> find (\<lambda>x. msg_ID x = msg_ID m) ms = Some m" for ms
    by (induction ms) force+
  with inv m show ?thesis by (simp add: find_message_def message_inv_def message_ids_def)
qed

lemma rows_affected_pos:
  "rows_affected p d > 0 \<longleftrightarrow> (\<exists>m \<in> set (db_messages d). p m)"
  by (simp add: rows_affected_def filter_empty_conv)

lemma rows_affected_id:
  assumes "message_inv d"
  shows "rows_affected (\<lambda>m. msg_ID m = i \<and> q m) d > 0 \<longleftrightarrow>
           (\<exists>m. find_message i d = Some m \<and> q m)"
  using assms by (auto simp: rows_affected_pos dest: find_message_SomeD find_message_mem)

lemma message_ids_update [frame]:
  "(\<And>m. msg_ID (f m) = msg_ID m) \<Longrightarrow> message_ids (update_messages p f d) = message_ids d"
  by (simp add: message_ids_def update_messages_def)

lemma update_messages_frame [frame]:
  "db_workspaces (update_messages p f d) = db_workspaces d"
  "db_message_seq (update_messages p f d) = db_message_seq d"
  "db_attempts (update_messages p f d) = db_attempts d"
  "db_attempt_seq (update_messages p f d) = db_attempt_seq d"
  "db_suppressions (update_messages p f d) = db_suppressions d"
  "db_unsubscribes (update_messages p f d) = db_unsubscribes d"
  "db_smtp_accounts (update_messages p f d) = db_smtp_accounts d"
  "db_policies (update_messages p f d) = db_policies d"
  "db_metering (update_messages p f d) = db_metering d"
  "db_webhook_events (update_messages p f d) = db_webhook_events d"
  "db_webhook_seq (update_messages p f d) = db_webhook_seq d"
  by (simp_all add: update_messages_def)

lemma update_messages_keeps [keeps]:
  assumes "\<And>m. msg_ID (f m) = msg_ID m"
  shows "message_inv (update_messages p f d) \<longleftrightarrow> message_inv d"
    and "attempt_inv (update_messages p f d) \<longleftrightarrow> attempt_inv d"
    and "smtp_inv (update_messages p f d) \<longleftrightarrow> smtp_inv d"
  using assms by (simp_all add: message_inv_def attempt_inv_def smtp_inv_def frame)

lemma find_message_iff_id: "find_message i d = None \<longleftrightarrow> i \<notin> set (message_ids d)"
  by (auto simp: find_message_def message_ids_def find_None_iff)

lemma CreateMessage_inv:
  assumes "message_inv d" and "attempt_inv d" and "CreateMessage m now d = (r, d')"
  shows "message_inv d' \<and> attempt_inv d'"
  using assms
  by (fastforce simp: CreateMessage_def Let_def message_inv_def attempt_inv_def message_ids_def
           split: if_splits)

lemma find_message_fresh: "message_inv d \<Longrightarrow> db_message_seq d < i \<Longrightarrow> find_message i d = None"
  by (auto simp: find_message_iff_id message_inv_def)

lemma CreateMessage_find:
  assumes "message_inv d" and "CreateMessage m now d = (Inr row, d')"
  shows "find_message i d' = (if i = msg_ID row then Some row else find_message i d)"
    and "find_message (msg_ID row) d = None"
proof -
  from assms(2) have row: "row = m\<lparr>msg_ID := db_message_seq d + 1, msg_CreatedAt := now, msg_UpdatedAt := now\<rparr>"
    and d': "db_messages d' = db_messages d @ [row]"
    by (auto simp: CreateMessage_def Let_def split: if_splits)
  show fresh: "find_message (msg_ID row) d = None"
    using find_message_fresh [OF assms(1)] by (simp add: row)
  have "find_message i d' = (case find_message i d of None \<Rightarrow> (if msg_ID row = i then Some row else None) | Some x \<Rightarrow> Some x)"
    by (simp add: find_message_def d' find_append split: option.split)
  with fresh show "find_message i d' = (if i = msg_ID row then Some row else find_message i d)"
    by (auto split: option.splits)
qed

lemma InsertAttempt_inv:
  assumes "attempt_inv d" and "InsertAttempt i n p resp ok now d = (r, d')"
  shows "attempt_inv d'"
  using assms
  by (fastforce simp: InsertAttempt_def attempt_inv_def attempts_of_def message_ids_def
             find_message_def find_None_iff split: if_splits)

section \<open>Recipient lists\<close>

locale recipient_list =
  fixes add :: "int \<Rightarrow> string \<Rightarrow> string \<Rightarrow> unit dbop"
    and listed :: "int \<Rightarrow> string \<Rightarrow> bool dbop"
    and table :: "db \<Rightarrow> (int \<times> string) \<rightharpoonup> string"
  assumes listed_eq: "listed ws email now d = (Inr (table d (ws, normalizeEmail email) \<noteq> None), d)"
    and add_ok: "has_workspace ws d \<Longrightarrow> \<exists>d'. add ws email reason now d = (Inr (), d') \<and>
                   table d' = (table d)((ws, normalizeEmail email) \<mapsto> reason)"
    and add_fk: "\<not> has_workspace ws d \<Longrightarrow> add ws email reason now d = (Inl fk_error, d)"
begin

lemma add_then_listed:
  assumes "add ws email reason now d = (Inr (), d')" and "normalizeEmail e' = normalizeEmail email"
  shows "listed ws e' now' d' = (Inr True, d')"
  using assms add_ok [of ws d email reason now] add_fk [of ws d email reason now]
  by (cases "has_workspace ws d") (auto simp: listed_eq)

lemma add_mono:
  assumes "add ws email reason now d = (r, d')" and "listed ws' e' t d = (Inr True, d)"
  shows "listed ws' e' t' d' = (Inr True, d')"
  using assms add_ok [of ws d email reason now] add_fk [of ws d email reason now]
  by (cases "has_workspace ws d") (auto simp: listed_eq)

lemma add_only:
  assumes "add ws email reason now d = (r, d')"
    and "(ws', normalizeEmail e') \<noteq> (ws, normalizeEmail email)"
  shows "fst (listed ws' e' t' d') = fst (listed ws' e' t d)"
  using assms add_ok [of ws d email reason now] add_fk [of ws d email reason now]
  by (cases "has_workspace ws d") (auto simp: listed_eq)

end

interpretation suppressed: recipient_list AddSuppression IsSuppressed db_suppressions
  by unfold_locales (auto simp: IsSuppressed_def AddSuppression_def)

interpretation unsubscribed: recipient_list AddUnsubscribe IsUnsubscribed db_unsubscribes
  by unfold_locales (auto simp: IsUnsubscribed_def AddUnsubscribe_def)

lemma normalizeEmail_idem [simp]: "normalizeEmail (normalizeEmail e) = normalizeEmail e"
  by (simp add: normalizeEmail_def TrimSpace_ToLower)

section \<open>SMTP accounts\<close>

lemma smtp_inv_alt:
  "smtp_inv d \<longleftrightarrow> distinct (map account_key (db_smtp_accounts d)) \<and>
     (\<forall>ws. (\<exists>r \<in> set (db_smtp_accounts d). smtp_workspace_id r = ws) \<longrightarrow> length (active_rows ws d) = 1)"
  by (simp add: smtp_inv_def active_rows_def account_key_def [abs_def])

lemma smtp_inv_map:
  assumes rows: "db_smtp_accounts d' = map f (db_smtp_accounts d)"
    and key: "\<And>r. account_key (f r) = account_key r"
    and act: "\<And>w. \<exists>r \<in> set (db_smtp_accounts d). smtp_workspace_id r = w \<Longrightarrow> length (active_rows w d') = 1"
    and inv: "smtp_inv d"
  shows "smtp_inv d'"
proof -
  have keys: "map account_key (db_smtp_accounts d') = map account_key (db_smtp_accounts d)"
    by (simp add: rows key)
  have "(\<exists>r \<in> set rs. smtp_workspace_id r = w) \<longleftrightarrow> w \<in> fst ` set (map account_key rs)" for w rs
    by (force simp: account_key_def)
  moreover have "account_key ` set (db_smtp_accounts d') = account_key ` set (db_smtp_accounts d)"
    using keys by (metis set_map)
  ultimately show ?thesis using keys act inv by (simp add: smtp_inv_alt)
qed

lemma smtp_account_upsert_cases:
  assumes "smtp_account_upsert ws name payload activate now d = (r, d')"
  obtains (same) e where "r = Inl e" "d' = d"
  | (update) "r = Inr ()" "\<exists>x \<in> set (db_smtp_accounts d). account_key x = (ws, name)"
      "d' = d\<lparr>db_smtp_accounts := map (store_row ws name payload now) (db_smtp_accounts d)\<rparr>"
  | (insert) "r = Inr ()" "\<forall>x \<in> set (db_smtp_accounts d). account_key x \<noteq> (ws, name)"
      "activate \<longrightarrow> active_rows ws d = []"
      "d' = d\<lparr>db_smtp_accounts := db_smtp_accounts d @
              [\<lparr>smtp_workspace_id = ws, smtp_name = name, smtp_encrypted_payload = payload,
                smtp_is_active = activate, smtp_updated_at = now\<rparr>]\<rparr>"
proof -
  have ex: "(\<exists>r \<in> set rs. smtp_workspace_id r = ws \<and> smtp_name r = name) \<longleftrightarrow>
      (\<exists>r \<in> set rs. account_key r = (ws, name))" for rs
    by (simp add: account_key_def)
  have ac: "(\<exists>r \<in> set (db_smtp_accounts d). smtp_workspace_id r = ws \<and> smtp_is_active r) \<longleftrightarrow> active_rows ws d \<noteq> []"
    by (auto simp: active_rows_def filter_empty_conv)
  note run = assms [unfolded smtp_account_upsert_def Let_def ex ac, folded store_row_def]
  show thesis
  proof (cases "has_workspace ws d")
    case False
    with run show thesis by (intro same [of fk_error]) simp_all
  next
    case ws: True
    show thesis
    proof (cases "\<exists>r \<in> set (db_smtp_accounts d). account_key r = (ws, name)")
      case True
      with run ws show thesis by (intro update) simp_all
    next
      case False
      with run ws show thesis
        by (cases "activate \<and> active_rows ws d \<noteq> []") (auto intro: same [of unique_error] insert)
    qed
  qed
qed

lemma smtp_account_upsert_inv:
  assumes inv: "smtp_inv d"
    and act: "activate \<longleftrightarrow> \<not> (\<exists>r \<in> set (db_smtp_accounts d). smtp_workspace_id r = ws)"
    and run: "smtp_account_upsert ws name payload activate now d = (r, d')"
  shows "smtp_inv d'"
  using run
proof (cases rule: smtp_account_upsert_cases)
  case same
  with inv show ?thesis by simp
next
  case update
  have rows: "db_smtp_accounts d' = map (store_row ws name payload now) (db_smtp_accounts d)"
    by (simp add: update)
  have "length (active_rows w d') = length (active_rows w d)" for w
    unfolding active_rows_def rows by (rule length_filter_map) (simp add: store_row_def)
  with inv show ?thesis
    by (intro smtp_inv_map [of d' "store_row ws name payload now" d])
       (auto simp: update store_row_def account_key_def smtp_inv_alt)
next
  case insert
  with inv act show ?thesis
    by (auto simp: smtp_inv_alt active_rows_def account_key_def filter_empty_conv image_iff)
qed

lemma SetActiveSMTPAccount_rows:
  assumes "SetActiveSMTPAccount ws name now d = (Inr (), d')"
  shows "d' = d\<lparr>db_smtp_accounts := map (switch_row ws (TrimSpace name) now) (db_smtp_accounts d)\<rparr>"
    and "\<exists>r \<in> set (db_smtp_accounts d). account_key r = (ws, TrimSpace name)"
proof -
  let ?clear = "\<lambda>r. if smtp_workspace_id r = ws then r\<lparr>smtp_is_active := False\<rparr> else r"
  let ?hit = "\<lambda>r. smtp_workspace_id r = ws \<and> smtp_name r = TrimSpace name"
  let ?mark = "\<lambda>r. if ?hit r then r\<lparr>smtp_is_active := True, smtp_updated_at := now\<rparr> else r"
  have hit: "(\<exists>r \<in> set (map ?clear rows). ?hit r) \<longleftrightarrow> (\<exists>r \<in> set rows. account_key r = (ws, TrimSpace name))" for rows
    by (induction rows) (auto simp: account_key_def)
  have rows: "map ?mark (map ?clear rows) = map (switch_row ws (TrimSpace name) now) rows" for rows
    by (induction rows) (auto simp: switch_row_def)
  from assms show "d' = d\<lparr>db_smtp_accounts := map (switch_row ws (TrimSpace name) now) (db_smtp_accounts d)\<rparr>"
    and "\<exists>r \<in> set (db_smtp_accounts d). account_key r = (ws, TrimSpace name)"
    unfolding SetActiveSMTPAccount_def Let_def hit rows by (auto split: if_splits)
qed

lemma SetActiveSMTPAccount_inv:
  assumes inv: "smtp_inv d" and run: "SetActiveSMTPAccount ws name now d = (r, d')"
  shows "smtp_inv d'"
proof (cases r)
  case (Inl e)
  with run inv show ?thesis
    unfolding SetActiveSMTPAccount_def Let_def by (simp split: if_splits)
next
  case (Inr u)
  with run have ok: "SetActiveSMTPAccount ws name now d = (Inr (), d')" by simp
  from SetActiveSMTPAccount_rows(2) [OF ok] obtain x where
    x: "x \<in> set (db_smtp_accounts d)" "account_key x = (ws, TrimSpace name)" by blast
  have rows: "db_smtp_accounts d' = map (switch_row ws (TrimSpace name) now) (db_smtp_accounts d)"
    by (simp add: SetActiveSMTPAccount_rows(1) [OF ok])
  have one: "length (filter (\<lambda>y. account_key y = (ws, TrimSpace name)) (db_smtp_accounts d)) = 1"
    using inv x length_filter_key [of account_key "db_smtp_accounts d" x] by (simp add: smtp_inv_alt)
  have same: "length (active_rows ws d') = 1"
    unfolding active_rows_def rows one [symmetric]
    by (rule length_filter_map) (auto simp: switch_row_def account_key_def)
  have other: "length (active_rows w d') = length (active_rows w d)" if "w \<noteq> ws" for w
    unfolding active_rows_def rows
    by (rule length_filter_map) (use that in \<open>auto simp: switch_row_def\<close>)
  have "length (active_rows w d') = 1" if "\<exists>r \<in> set (db_smtp_accounts d). smtp_workspace_id r = w" for w
    using same other [of w] inv that by (cases "w = ws") (auto simp: smtp_inv_alt)
  with inv show ?thesis
    by (intro smtp_inv_map [of d' "switch_row ws (TrimSpace name) now" d])
       (simp_all add: rows switch_row_def account_key_def)
qed

lemma update_messages_ball:
  "(\<forall>m \<in> set (db_messages (update_messages p f d)). Q m) \<longleftrightarrow>
     (\<forall>m \<in> set (db_messages d). Q (if p m then f m else m))"
  by (cases d) (simp only: update_messages_def db.simps set_map ball_simps)

lemma update_messages_bex:
  "(\<exists>m \<in> set (db_messages (update_messages p f d)). Q m) \<longleftrightarrow>
     (\<exists>m \<in> set (db_messages d). Q (if p m then f m else m))"
  by (cases d) (simp only: update_messages_def db.simps set_map bex_simps)

lemma TransitionMessageStatus_moves:
  assumes "fst (TransitionMessageStatus i st st' t d) = Inr True" and "st \<noteq> st'"
  shows "\<exists>m \<in> set (db_messages d). msg_ID m = i \<and> msg_Status m = st"
    and "\<exists>m \<in> set (db_messages (snd (TransitionMessageStatus i st st' t d))). msg_ID m = i \<and> msg_Status m = st'"
    and "\<forall>m \<in> set (db_messages (snd (TransitionMessageStatus i st st' t d))). msg_ID m = i \<longrightarrow> msg_Status m \<noteq> st"
  using assms
  by (auto simp: TransitionMessageStatus_def Let_def rows_affected_pos update_messages_ball update_messages_bex)

end
