(* ===== verification/Redis_Limiter.thy ===== *)
theory Redis_Limiter
  imports Domain_Types
begin

text \<open>
  The send limiter (\<open>src/internal/ratelimit/redis_limiter.go\<close>): per workspace and per recipient
  domain, a Redis counter for the current hour. A Redis key is a value with an optional expiry
  instant; \<open>INCR\<close> on a missing or expired key starts at 1 without an expiry, and \<open>EXPIRE\<close>
  gives it one. The text of the hour, \<open>now.Format("2006010215")\<close>, is a parameter
  \<open>fmt_hour\<close> of the definitions.
\<close>

section \<open>Definitions\<close>

record redis_counter =
  ctr_value :: int
  ctr_expires :: "go_time option"

type_synonym counters = "string \<rightharpoonup> redis_counter"

definition live_counter :: "go_time \<Rightarrow> redis_counter \<Rightarrow> bool" where
  "live_counter now c \<longleftrightarrow> (case ctr_expires c of None \<Rightarrow> True | Some t \<Rightarrow> now < t)"

definition counter_value :: "go_time \<Rightarrow> string \<Rightarrow> counters \<Rightarrow> int" where
  "counter_value now k cs =
     (case cs k of None \<Rightarrow> 0 | Some c \<Rightarrow> if live_counter now c then ctr_value c else 0)"

definition redis_incr :: "go_time \<Rightarrow> string \<Rightarrow> counters \<Rightarrow> int \<times> counters" where
  "redis_incr now k cs =
     (let c = (case cs k of
                 None \<Rightarrow> \<lparr>ctr_value = 0, ctr_expires = None\<rparr>
               | Some c \<Rightarrow> if live_counter now c then c else \<lparr>ctr_value = 0, ctr_expires = None\<rparr>);
          c' = c\<lparr>ctr_value := ctr_value c + 1\<rparr>
      in (ctr_value c', cs(k \<mapsto> c')))"

definition redis_expire :: "go_time \<Rightarrow> string \<Rightarrow> duration \<Rightarrow> counters \<Rightarrow> counters" where
  "redis_expire now k ttl cs =
     (case cs k of None \<Rightarrow> cs | Some c \<Rightarrow> cs(k \<mapsto> c\<lparr>ctr_expires := Some (now + ttl)\<rparr>))"

record RedisLimiter =
  lim_workspacePerHour :: int
  lim_recipientDomainPerHour :: int

definition ws_key :: "int \<Rightarrow> string \<Rightarrow> string" where
  "ws_key ws hourKey = ''maild:rl:ws:'' @ FormatInt ws @ '':'' @ hourKey"

definition domain_key :: "int \<Rightarrow> string \<Rightarrow> string \<Rightarrow> string" where
  "domain_key ws recipientDomain hourKey =
     ''maild:rl:domain:'' @ FormatInt ws @ '':'' @ recipientDomain @ '':'' @ hourKey"

text \<open>
  What the Redis server does with the commands of one request: the fate of the \<open>INCR\<close> of a
  key, and whether its \<open>EXPIRE\<close>, whose error the code drops, is executed.
\<close>

record redis_env =
  env_incr :: "string \<Rightarrow> fault"
  env_expire :: "string \<Rightarrow> bool"

definition incrementWindow :: "redis_env \<Rightarrow> go_time \<Rightarrow> string \<Rightarrow> counters \<Rightarrow> int result \<times> counters" where
  "incrementWindow env now k cs =
     (case env_incr env k of
        Refused e \<Rightarrow> (Inl e, cs)
      | Unacknowledged e \<Rightarrow> (Inl e, snd (redis_incr now k cs))
      | Executed \<Rightarrow> (case redis_incr now k cs of (count, cs') \<Rightarrow>
          (Inr count, if count = 1 \<and> env_expire env k then redis_expire now k (2 * Hour) cs' else cs')))"

definition Allow :: "RedisLimiter \<Rightarrow> (go_time \<Rightarrow> string) \<Rightarrow> redis_env \<Rightarrow> int \<Rightarrow> string \<Rightarrow> go_time \<Rightarrow> counters
    \<Rightarrow> (bool \<times> string) result \<times> counters" where
  "Allow l fmt_hour env ws recipientDomain now cs =
     (case incrementWindow env now (ws_key ws (fmt_hour now)) cs of
        (Inl e, cs1) \<Rightarrow> (Inl e, cs1)
      | (Inr wsCount, cs1) \<Rightarrow>
          if wsCount > lim_workspacePerHour l then (Inr (False, ''workspace_hourly_limit''), cs1)
          else (case incrementWindow env now (domain_key ws recipientDomain (fmt_hour now)) cs1 of
                  (Inl e, cs2) \<Rightarrow> (Inl e, cs2)
                | (Inr domainCount, cs2) \<Rightarrow>
                    if domainCount > lim_recipientDomainPerHour l
                    then (Inr (False, ''recipient_domain_hourly_limit''), cs2)
                    else (Inr (True, []), cs2)))"

text \<open>A sequence of requests to the limiter, and whether each was allowed.\<close>

record allow_req =
  req_now :: go_time
  req_ws :: int
  req_domain :: string
  req_env :: redis_env

fun run_allow :: "RedisLimiter \<Rightarrow> (go_time \<Rightarrow> string) \<Rightarrow> allow_req list \<Rightarrow> counters \<Rightarrow> bool list" where
  "run_allow l fmt [] cs = []"
| "run_allow l fmt (r # rs) cs =
     (case Allow l fmt (req_env r) (req_ws r) (req_domain r) (req_now r) cs of (res, cs') \<Rightarrow>
        (case res of Inl e \<Rightarrow> False | Inr (allowed, reason) \<Rightarrow> allowed) # run_allow l fmt rs cs')"

definition admitted :: "(allow_req \<Rightarrow> bool) \<Rightarrow> allow_req list \<Rightarrow> bool list \<Rightarrow> nat" where
  "admitted p rs vs = length (filter (\<lambda>(r, v). v \<and> p r) (zip rs vs))"

definition window_counter :: "go_time \<Rightarrow> string \<Rightarrow> counters \<Rightarrow> bool" where
  "window_counter start k cs \<longleftrightarrow>
     (case cs k of None \<Rightarrow> True
      | Some c \<Rightarrow> (case ctr_expires c of None \<Rightarrow> True | Some t \<Rightarrow> start + Hour \<le> t))"

definition raw_value :: "string \<Rightarrow> counters \<Rightarrow> int" where
  "raw_value k cs = (case cs k of None \<Rightarrow> 0 | Some c \<Rightarrow> ctr_value c)"

definition in_hour :: "go_time \<Rightarrow> go_time \<Rightarrow> bool" where
  "in_hour start now \<longleftrightarrow> start \<le> now \<and> now < start + Hour"

text \<open>A request moves the counter \<open>k\<close> up, and past \<open>L\<close> it is not admitted.\<close>

definition counted_step :: "RedisLimiter \<Rightarrow> (go_time \<Rightarrow> string) \<Rightarrow> go_time \<Rightarrow> string \<Rightarrow> int \<Rightarrow>
    (allow_req \<Rightarrow> bool) \<Rightarrow> allow_req \<Rightarrow> bool" where
  "counted_step l fmt start k L p r \<longleftrightarrow>
     (\<forall>cs res cs'. window_counter start k cs \<longrightarrow>
       Allow l fmt (req_env r) (req_ws r) (req_domain r) (req_now r) cs = (res, cs') \<longrightarrow>
       window_counter start k cs' \<and> raw_value k cs \<le> raw_value k cs' \<and>
       (res = Inr (True, []) \<and> p r \<longrightarrow> raw_value k cs < raw_value k cs' \<and> raw_value k cs' \<le> L))"

section \<open>The hourly bounds\<close>

lemma redis_incr_window:
  assumes "in_hour start now" and "window_counter start k cs" and "redis_incr now k' cs = (n, cs')"
  shows "window_counter start k cs' \<and> raw_value k cs' = raw_value k cs + (if k' = k then 1 else 0) \<and>
    (k' = k \<longrightarrow> n = raw_value k cs')"
  using assms
  by (auto simp: in_hour_def window_counter_def redis_incr_def raw_value_def live_counter_def Let_def
        split: option.splits if_splits)

lemma redis_expire_window:
  assumes "in_hour start now" and "window_counter start k cs"
  shows "window_counter start k (redis_expire now k' (2 * Hour) cs) \<and>
    raw_value k (redis_expire now k' (2 * Hour) cs) = raw_value k cs"
  using assms
  by (auto simp: in_hour_def window_counter_def redis_expire_def raw_value_def time_units split: option.splits)

lemma incrementWindow_window:
  assumes h: "in_hour start now" and w: "window_counter start k cs"
    and run: "incrementWindow env now k' cs = (res, cs')"
  shows "window_counter start k cs' \<and> raw_value k cs \<le> raw_value k cs' \<and>
    (k' \<noteq> k \<longrightarrow> raw_value k cs' = raw_value k cs) \<and>
    (\<forall>n. res = Inr n \<and> k' = k \<longrightarrow> n = raw_value k cs + 1 \<and> n = raw_value k cs')"
proof -
  obtain n cs1 where i: "redis_incr now k' cs = (n, cs1)" by (metis surj_pair)
  note i1 = redis_incr_window [OF h w i]
  then have w1: "window_counter start k cs1" by simp
  show ?thesis
    using run i i1 w redis_expire_window [OF h w1, of k']
    by (auto simp: incrementWindow_def split: fault.splits if_splits)
qed

lemma domain_key_ne_ws_key [simp]: "domain_key w d h \<noteq> ws_key w' h'" "ws_key w' h' \<noteq> domain_key w d h"
  by (simp_all add: domain_key_def ws_key_def)

lemma Allow_window:
  assumes h: "in_hour start now" and w: "window_counter start k cs"
    and run: "Allow l fmt env ws rd now cs = (res, cs')"
  shows "window_counter start k cs' \<and> raw_value k cs \<le> raw_value k cs' \<and>
    (res = Inr (True, []) \<longrightarrow>
      (k = ws_key ws (fmt now) \<longrightarrow> raw_value k cs < raw_value k cs' \<and> raw_value k cs' \<le> lim_workspacePerHour l) \<and>
      (k = domain_key ws rd (fmt now) \<longrightarrow>
        raw_value k cs < raw_value k cs' \<and> raw_value k cs' \<le> lim_recipientDomainPerHour l))"
proof -
  obtain r1 cs1 where one: "incrementWindow env now (ws_key ws (fmt now)) cs = (r1, cs1)" by (metis surj_pair)
  obtain r2 cs2 where two: "incrementWindow env now (domain_key ws rd (fmt now)) cs1 = (r2, cs2)" by (metis surj_pair)
  note i1 = incrementWindow_window [OF h w one]
  then have w1: "window_counter start k cs1" by simp
  note i2 = incrementWindow_window [OF h w1 two]
  show ?thesis
  proof (cases r1)
    case (Inl e)
    then show ?thesis using run one i1 by (auto simp: Allow_def)
  next
    case n: (Inr n)
    show ?thesis
    proof (cases r2)
      case (Inl e)
      then show ?thesis using run one two n i1 i2 by (auto simp: Allow_def split: if_splits)
    next
      case (Inr m)
      have "k = ws_key ws (fmt now) \<or> k = domain_key ws rd (fmt now) \<or>
          k \<noteq> ws_key ws (fmt now) \<and> k \<noteq> domain_key ws rd (fmt now)" by blast
      then show ?thesis using Inr run one two n i1 i2
        by (elim disjE conjE) (auto simp: Allow_def split: if_splits)
    qed
  qed
qed

lemma Allow_ws_step:
  assumes "in_hour start (req_now r)" and "fmt (req_now r) = h"
  shows "counted_step l fmt start (ws_key w h) (lim_workspacePerHour l) (\<lambda>r. req_ws r = w) r"
  using Allow_window [OF assms(1)] assms(2) unfolding counted_step_def by blast

lemma Allow_domain_step:
  assumes "in_hour start (req_now r)" and "fmt (req_now r) = h"
  shows "counted_step l fmt start (domain_key w dn h) (lim_recipientDomainPerHour l)
           (\<lambda>r. req_ws r = w \<and> req_domain r = dn) r"
  using Allow_window [OF assms(1)] assms(2) unfolding counted_step_def by blast

lemma Allow_allowed_reason:
  "Allow l fmt env ws rd now cs = (Inr (True, reason), cs') \<Longrightarrow> reason = []"
  by (auto simp: Allow_def split: sum.splits if_splits prod.splits)

lemma run_allow_bound:
  assumes "\<forall>r \<in> set rs. counted_step l fmt start k L p r" and "window_counter start k cs"
  shows "int (admitted p rs (run_allow l fmt rs cs)) \<le> max 0 (L - raw_value k cs)"
  using assms
proof (induction rs arbitrary: cs)
  case Nil
  then show ?case by (simp add: admitted_def)
next
  case (Cons r rs)
  obtain res cs' where run: "Allow l fmt (req_env r) (req_ws r) (req_domain r) (req_now r) cs = (res, cs')"
    by (metis surj_pair)
  let ?a = "res = Inr (True, [])"
  have a: "(case res of Inl e \<Rightarrow> False | Inr (allowed, reason) \<Rightarrow> allowed) = ?a"
    using Allow_allowed_reason run by (auto split: sum.splits)
  from Cons.prems have "counted_step l fmt start k L p r" by simp
  with Cons.prems(2) run have st: "window_counter start k cs'" "raw_value k cs \<le> raw_value k cs'"
    "?a \<and> p r \<longrightarrow> raw_value k cs < raw_value k cs' \<and> raw_value k cs' \<le> L"
    unfolding counted_step_def by blast+
  have "int (admitted p rs (run_allow l fmt rs cs')) \<le> max 0 (L - raw_value k cs')"
    using Cons.prems(1) st(1) by (intro Cons.IH) simp_all
  moreover have "admitted p (r # rs) (run_allow l fmt (r # rs) cs) =
      (if ?a \<and> p r then 1 else 0) + admitted p rs (run_allow l fmt rs cs')"
    unfolding admitted_def run_allow.simps run prod.case a by simp
  ultimately show ?case using st(2,3) by (auto split: if_splits)
qed

text \<open>
  C10 Over any sequence of requests inside one hour, starting with fresh counters, the limiter
  allows at most \<open>workspacePerHour\<close> requests of a workspace and at most
  \<open>recipientDomainPerHour\<close> requests of a workspace to one recipient domain, whichever Redis
  commands fail, are lost after execution, or leave a key without expiry.
\<close>

theorem limiter_hourly_bounds:
  assumes hour: "\<forall>r \<in> set rs. in_hour start (req_now r) \<and> fmt (req_now r) = h"
    and fresh: "cs (ws_key w h) = None" "cs (domain_key w dn h) = None"
  shows "int (admitted (\<lambda>r. req_ws r = w) rs (run_allow l fmt rs cs)) \<le> max 0 (lim_workspacePerHour l) \<and>
    int (admitted (\<lambda>r. req_ws r = w \<and> req_domain r = dn) rs (run_allow l fmt rs cs))
           \<le> max 0 (lim_recipientDomainPerHour l)"
proof -
  let ?ws = "\<lambda>r. req_ws r = w" and ?dom = "\<lambda>r. req_ws r = w \<and> req_domain r = dn"
  have zero: "window_counter start (ws_key w h) cs" "raw_value (ws_key w h) cs = 0"
    "window_counter start (domain_key w dn h) cs" "raw_value (domain_key w dn h) cs = 0"
    using fresh by (simp_all add: window_counter_def raw_value_def)
  have "\<forall>r \<in> set rs. counted_step l fmt start (ws_key w h) (lim_workspacePerHour l) ?ws r"
    using hour Allow_ws_step by blast
  moreover have "\<forall>r \<in> set rs. counted_step l fmt start (domain_key w dn h) (lim_recipientDomainPerHour l) ?dom r"
    using hour Allow_domain_step by blast
  ultimately show ?thesis
    using run_allow_bound [of rs l fmt start "ws_key w h" "lim_workspacePerHour l" ?ws cs]
      run_allow_bound [of rs l fmt start "domain_key w dn h" "lim_recipientDomainPerHour l" ?dom cs] zero
    by simp
qed

text \<open>The hypotheses hold for three requests of one workspace in one hour.\<close>

theorem limiter_hourly_bounds_witness:
  "let env = \<lparr>env_incr = \<lambda>k. Executed, env_expire = \<lambda>k. True\<rparr>;
       l = \<lparr>lim_workspacePerHour = 2, lim_recipientDomainPerHour = 1\<rparr>;
       rs = [\<lparr>req_now = 0, req_ws = 1, req_domain = ''a.com'', req_env = env\<rparr>,
             \<lparr>req_now = 5, req_ws = 1, req_domain = ''b.com'', req_env = env\<rparr>,
             \<lparr>req_now = 9, req_ws = 1, req_domain = ''b.com'', req_env = env\<rparr>]
   in run_allow l (\<lambda>t. ''h'') rs Map.empty = [True, True, False] \<and>
      int (admitted (\<lambda>r. req_ws r = 1) rs (run_allow l (\<lambda>t. ''h'') rs Map.empty)) \<le> 2"
proof -
  let ?env = "\<lparr>env_incr = \<lambda>k. Executed, env_expire = \<lambda>k. True\<rparr>"
  let ?rs = "[\<lparr>req_now = 0, req_ws = 1, req_domain = ''a.com'', req_env = ?env\<rparr>,
             \<lparr>req_now = 5, req_ws = 1, req_domain = ''b.com'', req_env = ?env\<rparr>,
             \<lparr>req_now = 9, req_ws = 1, req_domain = ''b.com'', req_env = ?env\<rparr>]"
  have "\<forall>r \<in> set ?rs. in_hour 0 (req_now r) \<and> (\<lambda>t. ''h'') (req_now r) = ''h''"
    by (simp add: in_hour_def time_units)
  from limiter_hourly_bounds [OF this, of Map.empty 1 "''b.com''"
        "\<lparr>lim_workspacePerHour = 2, lim_recipientDomainPerHour = 1\<rparr>"]
  show ?thesis
    by (simp add: Allow_def incrementWindow_def redis_incr_def redis_expire_def live_counter_def Let_def
        ws_key_def domain_key_def FormatInt_def decimal.simps digit_char_def time_units)
qed

end
