(* ===== verification/Effects.thy ===== *)
theory Effects
  imports Go_Base "HOL-Library.State_Monad"
begin

text \<open>
  Effectful code. A routine with effects is a value of the library's state monad, and an error
  return is a value of a sum: \<open>x, err := f(); if err != nil { return err }\<close> reads
  \<open>do { r \<leftarrow> f; case r of Inl err \<Rightarrow> return (Inl err) | Inr x \<Rightarrow> ... }\<close>.

  Two ways to reason about such code are set up here. A \<^emph>\<open>frame relation\<close> is a reflexive and
  transitive relation between the state before and after, so that a routine is within it as soon
  as each of its calls is; a \<^emph>\<open>triple\<close> relates a precondition to a postcondition on the
  result and the state, for the properties that depend on the order of the calls.
\<close>

section \<open>Running a routine\<close>

lemma run_state_bind [simp]:
  "run_state (m \<bind> f) s = (case run_state m s of (x, s') \<Rightarrow> run_state (f x) s')"
  by (simp add: State_Monad.bind_def)

lemma run_state_case_sum:
  "run_state (case r of Inl e \<Rightarrow> f e | Inr x \<Rightarrow> g x) s =
     (case r of Inl e \<Rightarrow> run_state (f e) s | Inr x \<Rightarrow> run_state (g x) s)"
  by (simp split: sum.split)

section \<open>Triples\<close>

definition triple :: "('s \<Rightarrow> bool) \<Rightarrow> ('s, 'a) state \<Rightarrow> ('a \<Rightarrow> 's \<Rightarrow> bool) \<Rightarrow> bool" where
  "triple P m Q \<longleftrightarrow> (\<forall>s. P s \<longrightarrow> (case run_state m s of (x, s') \<Rightarrow> Q x s'))"

section \<open>Frame relations\<close>

locale frame_relation =
  fixes R :: "'s \<Rightarrow> 's \<Rightarrow> bool"
  assumes refl: "R s s"
    and trans: "R s s' \<Longrightarrow> R s' s'' \<Longrightarrow> R s s''"
begin

lemma within_return: "state_io_rel R (State_Monad.return x)"
  by (simp add: state_io_rel_def refl)

lemma within_bind:
  assumes "state_io_rel R m" and "\<And>x. state_io_rel R (f x)"
  shows "state_io_rel R (m \<bind> f)"
  using assms unfolding state_io_rel_def by (auto split: prod.split) (metis snd_conv trans)

lemma within_if:
  assumes "b \<Longrightarrow> state_io_rel R m" and "\<not> b \<Longrightarrow> state_io_rel R m'"
  shows "state_io_rel R (if b then m else m')"
  using assms by simp

lemma within_sum:
  assumes "\<And>e. r = Inl e \<Longrightarrow> state_io_rel R (f e)" and "\<And>x. r = Inr x \<Longrightarrow> state_io_rel R (g x)"
  shows "state_io_rel R (case r of Inl e \<Rightarrow> f e | Inr x \<Rightarrow> g x)"
  using assms by (cases r) auto

lemma within_option:
  assumes "r = None \<Longrightarrow> state_io_rel R m" and "\<And>x. r = Some x \<Longrightarrow> state_io_rel R (g x)"
  shows "state_io_rel R (case r of None \<Rightarrow> m | Some x \<Rightarrow> g x)"
  using assms by (cases r) auto

lemma within_prod:
  assumes "\<And>x y. p = (x, y) \<Longrightarrow> state_io_rel R (f x y)"
  shows "state_io_rel R (case p of (x, y) \<Rightarrow> f x y)"
  using assms by (cases p) auto

lemma within_let:
  assumes "\<And>x. x = t \<Longrightarrow> state_io_rel R (f x)"
  shows "state_io_rel R (let x = t in f x)"
  using assms by simp

lemma within_read: "state_io_rel R (State (\<lambda>s. (f s, s)))"
  by (simp add: state_io_rel_def refl)

lemmas within = within_return within_bind within_if within_sum within_option within_prod within_let within_read

end

section \<open>Rules for triples\<close>

lemma tripleI:
  assumes "\<And>s x s'. P s \<Longrightarrow> run_state m s = (x, s') \<Longrightarrow> Q x s'"
  shows "triple P m Q"
  using assms by (auto simp: triple_def split: prod.split)

lemma tripleD:
  assumes "triple P m Q" and "P s" and "run_state m s = (x, s')"
  shows "Q x s'"
  using assms by (auto simp: triple_def split: prod.splits)

lemma triple_return: "(\<And>s. P s \<Longrightarrow> Q x s) \<Longrightarrow> triple P (State_Monad.return x) Q"
  by (simp add: triple_def)

lemma triple_bind:
  assumes "triple P m M" and "\<And>x. triple (M x) (f x) Q"
  shows "triple P (m \<bind> f) Q"
  using assms by (fastforce simp: triple_def split: prod.splits)

lemma triple_pre: "triple P' m Q \<Longrightarrow> (\<And>s. P s \<Longrightarrow> P' s) \<Longrightarrow> triple P m Q"
  by (simp add: triple_def)

lemma triple_post: "triple P m Q' \<Longrightarrow> (\<And>x s. Q' x s \<Longrightarrow> Q x s) \<Longrightarrow> triple P m Q"
  by (fastforce simp: triple_def split: prod.splits)

lemma triple_if:
  assumes "b \<Longrightarrow> triple P m Q" and "\<not> b \<Longrightarrow> triple P m' Q"
  shows "triple P (if b then m else m') Q"
  using assms by simp

lemma triple_sum:
  assumes "\<And>e. r = Inl e \<Longrightarrow> triple P (f e) Q" and "\<And>x. r = Inr x \<Longrightarrow> triple P (g x) Q"
  shows "triple P (case r of Inl e \<Rightarrow> f e | Inr x \<Rightarrow> g x) Q"
  using assms by (cases r) auto

lemma triple_prod:
  assumes "\<And>x y. p = (x, y) \<Longrightarrow> triple P (f x y) Q"
  shows "triple P (case p of (x, y) \<Rightarrow> f x y) Q"
  using assms by (cases p) auto

lemma triple_frame:
  assumes "state_io_rel R m" and "\<And>s x s'. P s \<Longrightarrow> R s s' \<Longrightarrow> Q x s'"
  shows "triple P m Q"
  using assms by (auto simp: triple_def state_io_rel_def split: prod.split) (metis snd_conv)

lemma triple_False: "triple (\<lambda>s. False) m Q"
  by (simp add: triple_def)

end
