(* ===== verification/Smtp_Client.thy ===== *)
theory Smtp_Client
  imports Domain_Types Effects
begin

text \<open>
  The SMTP client (\<open>src/internal/smtpclient/smtpclient.go\<close>) and the sanitizing of its errors
  (\<open>src/internal/sanitize/error.go\<close>). The relay is a record of answers, one per exchange of a
  session, so every error return of the client is reached by some relay; expired deadlines and
  cancelled contexts are such answers too. \<open>net/smtp\<close> is modelled as far as the client uses it:
  the lazy \<open>EHLO\<close>, the rejection of line breaks in addresses, the check of \<open>PlainAuth\<close>. A
  session writes a log of what it put on the wire.
\<close>

section \<open>Definitions\<close>

subsection \<open>Credentials, addresses, modes\<close>

record Credentials =
  cr_Host :: string
  cr_Port :: int
  cr_Username :: string
  cr_Password :: string
  cr_From :: string
  cr_TLSMode :: string

abbreviation TLSModeStartTLS :: string where "TLSModeStartTLS \<equiv> ''starttls''"
abbreviation TLSModeImplicit :: string where "TLSModeImplicit \<equiv> ''implicit_tls''"
abbreviation TLSModeNone :: string where "TLSModeNone \<equiv> ''none''"
abbreviation DefaultTLSMode :: string where "DefaultTLSMode \<equiv> TLSModeStartTLS"

definition ErrTLSRequired :: go_error where
  "ErrTLSRequired = ErrText ''smtp TLS is required but unavailable''"

definition ErrAuthTLS :: go_error where
  "ErrAuthTLS = ErrText ''SMTP authentication requires TLS''"

text \<open>\<open>net.JoinHostPort\<close>: a host with a colon is bracketed.\<close>

definition JoinHostPort :: "string \<Rightarrow> string \<Rightarrow> string" where
  "JoinHostPort host port =
     (if CHR '':'' \<in> set host then ''['' @ host @ '']:'' @ port else host @ '':'' @ port)"

definition address :: "string \<Rightarrow> int \<Rightarrow> string" where
  "address host port = JoinHostPort host (FormatInt port)"

definition ProviderName :: "Credentials \<Rightarrow> string" where
  "ProviderName creds = address (cr_Host creds) (cr_Port creds)"

definition NormalizeTLSMode :: "string \<Rightarrow> string result" where
  "NormalizeTLSMode mode =
     (if mode = [] then Inr DefaultTLSMode
      else if mode = TLSModeStartTLS \<or> mode = TLSModeImplicit \<or> mode = TLSModeNone then Inr mode
      else Inl (ErrText (''unsupported SMTP TLS mode '' @ Quote mode)))"

record tls_config =
  tc_ServerName :: string
  tc_MinVersion :: nat

definition VersionTLS12 :: nat where
  "VersionTLS12 = 0x0303"

definition tlsConfig :: "string \<Rightarrow> tls_config" where
  "tlsConfig host = \<lparr>tc_ServerName = host, tc_MinVersion = VersionTLS12\<rparr>"

record Client =
  cl_defaultCreds :: Credentials
  cl_tlsConfig :: "(string \<Rightarrow> tls_config) option"

definition DefaultCredentials :: "Client \<Rightarrow> Credentials" where
  "DefaultCredentials c = cl_defaultCreds c"

text \<open>\<open>New\<close>, over the SMTP fields of the configuration.\<close>

definition New :: "string \<Rightarrow> int \<Rightarrow> string \<Rightarrow> string \<Rightarrow> string \<Rightarrow> string \<Rightarrow> Client" where
  "New smtpHost smtpPort smtpUsername smtpPassword smtpFrom smtpTLSMode =
     \<lparr>cl_defaultCreds =
        \<lparr>cr_Host = smtpHost, cr_Port = smtpPort, cr_Username = smtpUsername, cr_Password = smtpPassword,
         cr_From = smtpFrom,
         cr_TLSMode = (if smtpTLSMode = [] then DefaultTLSMode else smtpTLSMode)\<rparr>,
      cl_tlsConfig = Some tlsConfig\<rparr>"

definition CRLF :: string where
  "CRLF = [CHR 0x0D, CHR 0x0A]"

definition buildMessage :: "string \<Rightarrow> string \<Rightarrow> string \<Rightarrow> string \<Rightarrow> string" where
  "buildMessage frm to subject body =
     ''From: '' @ frm @ CRLF @
     ''To: '' @ to @ CRLF @
     ''Subject: '' @ subject @ CRLF @
     ''MIME-Version: 1.0'' @ CRLF @
     ''Content-Type: text/plain; charset=UTF-8'' @ CRLF @
     CRLF @
     body"

subsection \<open>The relay, the connection and the wire\<close>

record relay =
  rel_dial :: "unit result"
  rel_greeting :: "unit result"
  rel_hello :: "unit result"
  rel_starttls_offered :: bool
  rel_starttls :: "unit result"
  rel_auth :: "unit result"
  rel_mail :: "unit result"
  rel_rcpt :: "unit result"
  rel_data :: "unit result"
  rel_write :: "unit result"
  rel_accept :: "unit result"
  rel_noop :: "unit result"

text \<open>
  What reaches the wire. Each event carries whether the connection is TLS at that moment.
\<close>

datatype wire =
    Dialed string "tls_config option"
  | Hello bool
  | StartedTLS tls_config
  | AuthPlain bool string string
  | MailFrom bool string
  | RcptTo bool string
  | DataCmd bool
  | Payload bool string
  | DataEnd bool
  | NoopCmd bool

record smtp_conn =
  sc_tls :: bool
  sc_hello :: "unit result option"
  sc_log :: "wire list"

type_synonym 'a smtp = "(smtp_conn, 'a) state"

definition new_conn :: smtp_conn where
  "new_conn = \<lparr>sc_tls = False, sc_hello = None, sc_log = []\<rparr>"

definition emit :: "(bool \<Rightarrow> wire) \<Rightarrow> unit smtp" where
  "emit ev = State (\<lambda>c. ((), c\<lparr>sc_log := sc_log c @ [ev (sc_tls c)]\<rparr>))"

definition answer :: "(bool \<Rightarrow> wire) \<Rightarrow> unit result \<Rightarrow> unit result smtp" where
  "answer ev r = do { _ \<leftarrow> emit ev; State_Monad.return r }"

definition dial :: "relay \<Rightarrow> string \<Rightarrow> tls_config option \<Rightarrow> unit result smtp" where
  "dial rel addr cfg =
     (case rel_dial rel of
        Inl e \<Rightarrow> State_Monad.return (Inl e)
      | Inr _ \<Rightarrow> State (\<lambda>c. (Inr (), c\<lparr>sc_tls := (cfg \<noteq> None), sc_hello := None,
                                     sc_log := sc_log c @ [Dialed addr cfg]\<rparr>)))"

text \<open>The lazy greeting of \<open>net/smtp\<close>: sent once, its outcome is kept.\<close>

definition hello :: "relay \<Rightarrow> unit result smtp" where
  "hello rel = State (\<lambda>c. case sc_hello c of
      Some r \<Rightarrow> (r, c)
    | None \<Rightarrow> (rel_hello rel, c\<lparr>sc_hello := Some (rel_hello rel), sc_log := sc_log c @ [Hello (sc_tls c)]\<rparr>))"

definition smtp_cmd :: "relay \<Rightarrow> (bool \<Rightarrow> wire) \<Rightarrow> unit result \<Rightarrow> unit result smtp" where
  "smtp_cmd rel ev r = do {
     h \<leftarrow> hello rel;
     case h of Inl e \<Rightarrow> State_Monad.return (Inl e) | Inr _ \<Rightarrow> answer ev r }"

definition validateLine :: "string \<Rightarrow> unit result" where
  "validateLine line =
     (if CHR 0x0A \<in> set line \<or> CHR 0x0D \<in> set line
      then Inl (ErrText ''smtp: A line must not contain CR or LF'') else Inr ())"

definition Extension_STARTTLS :: "relay \<Rightarrow> bool smtp" where
  "Extension_STARTTLS rel = do {
     h \<leftarrow> hello rel;
     State_Monad.return (case h of Inl e \<Rightarrow> False | Inr _ \<Rightarrow> rel_starttls_offered rel) }"

text \<open>
  \<open>StartTLS\<close>: the command, the handshake and the second \<open>EHLO\<close> are one exchange, whose outcome
  is \<open>rel_starttls\<close>; the connection is TLS only when it succeeds.
\<close>

definition StartTLS :: "relay \<Rightarrow> tls_config \<Rightarrow> unit result smtp" where
  "StartTLS rel cfg = do {
     h \<leftarrow> hello rel;
     case h of
       Inl e \<Rightarrow> State_Monad.return (Inl e)
     | Inr _ \<Rightarrow> (case rel_starttls rel of
         Inl e \<Rightarrow> State_Monad.return (Inl e)
       | Inr _ \<Rightarrow> State (\<lambda>c. (Inr (), c\<lparr>sc_tls := True, sc_log := sc_log c @ [StartedTLS cfg]\<rparr>))) }"

definition isLocalhost :: "string \<Rightarrow> bool" where
  "isLocalhost name \<longleftrightarrow> name = ''localhost'' \<or> name = ''127.0.0.1'' \<or> name = ''::1''"

definition Auth_plain :: "relay \<Rightarrow> Credentials \<Rightarrow> unit result smtp" where
  "Auth_plain rel creds = do {
     h \<leftarrow> hello rel;
     tls \<leftarrow> State (\<lambda>c. (sc_tls c, c));
     case h of
       Inl e \<Rightarrow> State_Monad.return (Inl e)
     | Inr _ \<Rightarrow>
         if \<not> tls \<and> \<not> isLocalhost (cr_Host creds) then State_Monad.return (Inl (ErrText ''unencrypted connection''))
         else answer (\<lambda>t. AuthPlain t (cr_Username creds) (cr_Password creds)) (rel_auth rel) }"

subsection \<open>The client\<close>

definition connect :: "Client \<Rightarrow> relay \<Rightarrow> Credentials \<Rightarrow> unit result smtp" where
  "connect c rel creds =
     (case NormalizeTLSMode (cr_TLSMode creds) of
        Inl e \<Rightarrow> State_Monad.return (Inl e)
      | Inr mode \<Rightarrow>
          if mode = TLSModeNone \<and> (cr_Username creds \<noteq> [] \<or> cr_Password creds \<noteq> [])
          then State_Monad.return (Inl ErrAuthTLS)
          else do {
            let addr = address (cr_Host creds) (cr_Port creds);
            let configForHost = (case cl_tlsConfig c of None \<Rightarrow> tlsConfig | Some f \<Rightarrow> f);
            d \<leftarrow> dial rel addr (if mode = TLSModeImplicit then Some (configForHost (cr_Host creds)) else None);
            case d of
              Inl e \<Rightarrow> State_Monad.return (Inl e)
            | Inr _ \<Rightarrow>
                (case rel_greeting rel of
                   Inl e \<Rightarrow> State_Monad.return (Inl e)
                 | Inr _ \<Rightarrow>
                     if mode = TLSModeStartTLS then do {
                       offered \<leftarrow> Extension_STARTTLS rel;
                       if \<not> offered then State_Monad.return (Inl ErrTLSRequired)
                       else StartTLS rel (configForHost (cr_Host creds))
                     } else State_Monad.return (Inr ())) })"

definition authenticate :: "relay \<Rightarrow> Credentials \<Rightarrow> unit result smtp" where
  "authenticate rel creds =
     (if cr_Username creds = [] \<and> cr_Password creds = [] then State_Monad.return (Inr ())
      else do {
        tls \<leftarrow> State (\<lambda>c. (sc_tls c, c));
        if \<not> tls then State_Monad.return (Inl ErrAuthTLS) else Auth_plain rel creds })"

definition Mail :: "relay \<Rightarrow> string \<Rightarrow> unit result smtp" where
  "Mail rel frm = (case validateLine frm of
      Inl e \<Rightarrow> State_Monad.return (Inl e)
    | Inr _ \<Rightarrow> smtp_cmd rel (\<lambda>t. MailFrom t frm) (rel_mail rel))"

definition Rcpt :: "relay \<Rightarrow> string \<Rightarrow> unit result smtp" where
  "Rcpt rel to = (case validateLine to of
      Inl e \<Rightarrow> State_Monad.return (Inl e)
    | Inr _ \<Rightarrow> answer (\<lambda>t. RcptTo t to) (rel_rcpt rel))"

text \<open>The body of \<open>Send\<close> after \<open>connect\<close>, and the whole of it.\<close>

definition deliver :: "relay \<Rightarrow> Credentials \<Rightarrow> string \<Rightarrow> string \<Rightarrow> string \<Rightarrow> unit result smtp" where
  "deliver rel creds toEmail subject body = do {
     r \<leftarrow> authenticate rel creds;
     case r of Inl e \<Rightarrow> State_Monad.return (Inl e) | Inr _ \<Rightarrow> do {
     r \<leftarrow> Mail rel (cr_From creds);
     case r of Inl e \<Rightarrow> State_Monad.return (Inl e) | Inr _ \<Rightarrow> do {
     r \<leftarrow> Rcpt rel toEmail;
     case r of Inl e \<Rightarrow> State_Monad.return (Inl e) | Inr _ \<Rightarrow> do {
     r \<leftarrow> answer DataCmd (rel_data rel);
     case r of Inl e \<Rightarrow> State_Monad.return (Inl e) | Inr _ \<Rightarrow> do {
     r \<leftarrow> answer (\<lambda>t. Payload t (buildMessage (cr_From creds) toEmail subject body)) (rel_write rel);
     case r of
       Inl e \<Rightarrow> do { _ \<leftarrow> answer DataEnd (rel_accept rel); State_Monad.return (Inl e) }
     | Inr _ \<Rightarrow> answer DataEnd (rel_accept rel) }}}}}"

definition send_session :: "Client \<Rightarrow> relay \<Rightarrow> Credentials \<Rightarrow> string \<Rightarrow> string \<Rightarrow> string \<Rightarrow> unit result smtp" where
  "send_session c rel creds toEmail subject body = do {
     r \<leftarrow> connect c rel creds;
     case r of Inl e \<Rightarrow> State_Monad.return (Inl e) | Inr _ \<Rightarrow> deliver rel creds toEmail subject body }"

text \<open>A call of \<open>Send\<close> with the relay's answers: its error and what it put on the wire.\<close>

definition Send :: "Client \<Rightarrow> relay \<Rightarrow> Credentials \<Rightarrow> string \<Rightarrow> string \<Rightarrow> string \<Rightarrow> unit result \<times> wire list" where
  "Send c rel creds toEmail subject body =
     (case run_state (send_session c rel creds toEmail subject body) new_conn of (r, conn) \<Rightarrow> (r, sc_log conn))"

definition validate_session :: "Client \<Rightarrow> relay \<Rightarrow> Credentials \<Rightarrow> unit result smtp" where
  "validate_session c rel creds = do {
     r \<leftarrow> connect c rel creds;
     case r of Inl e \<Rightarrow> State_Monad.return (Inl e) | Inr _ \<Rightarrow> do {
     r \<leftarrow> authenticate rel creds;
     case r of Inl e \<Rightarrow> State_Monad.return (Inl e) | Inr _ \<Rightarrow>
     smtp_cmd rel NoopCmd (rel_noop rel) }}"

definition Validate :: "Client \<Rightarrow> relay \<Rightarrow> Credentials \<Rightarrow> unit result \<times> wire list" where
  "Validate c rel creds =
     (case run_state (validate_session c rel creds) new_conn of (r, conn) \<Rightarrow> (r, sc_log conn))"

subsection \<open>Sanitizing\<close>

definition SMTPError :: "string \<Rightarrow> string" where
  "SMTPError raw =
     (let out = TrimSpace raw; low = ToLower out in
      if out = [] then ''smtp delivery failed''
      else if Contains low ''timeout'' \<or> Contains low ''i/o timeout'' then ''smtp timeout''
      else if Contains low ''connection refused'' \<or> Contains low ''refused'' then ''smtp connection refused''
      else if Contains low ''password'' \<or> Contains low ''auth'' \<or> Contains low ''credential'' \<or>
              Contains low ''plainauth'' then ''smtp authentication failed''
      else if length out > 240 then take 240 out
      else out)"

subsection \<open>What a session is expected to write, and how a message is read\<close>

text \<open>The transcript of an accepted session.\<close>

definition preamble :: "Client \<Rightarrow> string \<Rightarrow> Credentials \<Rightarrow> wire list" where
  "preamble c mode creds =
     (let addr = address (cr_Host creds) (cr_Port creds);
          cfg = (case cl_tlsConfig c of None \<Rightarrow> tlsConfig | Some f \<Rightarrow> f) (cr_Host creds)
      in if mode = TLSModeImplicit then [Dialed addr (Some cfg), Hello True]
         else if mode = TLSModeStartTLS then [Dialed addr None, Hello False, StartedTLS cfg]
         else [Dialed addr None, Hello False])"

definition auth_events :: "Credentials \<Rightarrow> wire list" where
  "auth_events creds =
     (if cr_Username creds = [] \<and> cr_Password creds = [] then []
      else [AuthPlain True (cr_Username creds) (cr_Password creds)])"

definition delivery :: "bool \<Rightarrow> Credentials \<Rightarrow> string \<Rightarrow> string \<Rightarrow> string \<Rightarrow> wire list" where
  "delivery tls creds toEmail subject body =
     [MailFrom tls (cr_From creds), RcptTo tls toEmail, DataCmd tls,
      Payload tls (buildMessage (cr_From creds) toEmail subject body), DataEnd tls]"

definition no_crlf :: "string \<Rightarrow> bool" where
  "no_crlf s \<longleftrightarrow> CHR 0x0A \<notin> set s \<and> CHR 0x0D \<notin> set s"

definition relay_accepts :: "relay \<Rightarrow> string \<Rightarrow> Credentials \<Rightarrow> bool" where
  "relay_accepts rel mode creds \<longleftrightarrow>
     rel_dial rel = Inr () \<and> rel_greeting rel = Inr () \<and> rel_hello rel = Inr () \<and>
     (mode = TLSModeStartTLS \<longrightarrow> rel_starttls_offered rel \<and> rel_starttls rel = Inr ()) \<and>
     (cr_Username creds \<noteq> [] \<or> cr_Password creds \<noteq> [] \<longrightarrow> mode \<noteq> TLSModeNone \<and> rel_auth rel = Inr ()) \<and>
     rel_mail rel = Inr () \<and> rel_rcpt rel = Inr () \<and> rel_data rel = Inr () \<and>
     rel_write rel = Inr () \<and> rel_accept rel = Inr ()"

text \<open>When a connection of a mode succeeds, and the connection it gives.\<close>

definition mode_connects :: "relay \<Rightarrow> string \<Rightarrow> Credentials \<Rightarrow> bool" where
  "mode_connects rel mode creds \<longleftrightarrow>
     (cr_Username creds \<noteq> [] \<or> cr_Password creds \<noteq> [] \<longrightarrow> mode \<noteq> TLSModeNone) \<and>
     rel_dial rel = Inr () \<and> rel_greeting rel = Inr () \<and>
     (mode = TLSModeStartTLS \<longrightarrow> rel_hello rel = Inr () \<and> rel_starttls_offered rel \<and> rel_starttls rel = Inr ())"

definition mode_conn :: "Client \<Rightarrow> string \<Rightarrow> Credentials \<Rightarrow> smtp_conn" where
  "mode_conn c mode creds =
     \<lparr>sc_tls = (mode \<noteq> TLSModeNone),
      sc_hello = (if mode = TLSModeStartTLS then Some (Inr ()) else None),
      sc_log = (if mode = TLSModeStartTLS then preamble c mode creds else butlast (preamble c mode creds))\<rparr>"

fun cut_line :: "string \<Rightarrow> (string \<times> string) option" where
  "cut_line (x # y # zs) =
     (if x = CHR 0x0D \<and> y = CHR 0x0A then Some ([], zs)
      else map_option (\<lambda>(l, r). (x # l, r)) (cut_line (y # zs)))"
| "cut_line _ = None"

lemma cut_line_length: "cut_line s = Some (l, r) \<Longrightarrow> length r < length s"
  by (induction s arbitrary: l rule: cut_line.induct) (fastforce split: if_splits)+

text \<open>How a mail reader splits a message: header lines up to the first empty line, then the body.\<close>

function parse_message :: "string \<Rightarrow> (string list \<times> string) option" where
  "parse_message s =
     (case cut_line s of
        None \<Rightarrow> None
      | Some (l, r) \<Rightarrow> if l = [] then Some ([], r)
                      else map_option (\<lambda>(hs, b). (l # hs, b)) (parse_message r))"
  by pat_completeness auto
termination
  by (relation "measure length") (auto dest: cut_line_length)

declare parse_message.simps [simp del]

definition protected_event :: "string \<Rightarrow> wire \<Rightarrow> bool" where
  "protected_event host ev \<longleftrightarrow> (case ev of
      AuthPlain t u p \<Rightarrow> t
    | Dialed a (Some cfg) \<Rightarrow> cfg = tlsConfig host
    | StartedTLS cfg \<Rightarrow> cfg = tlsConfig host
    | _ \<Rightarrow> True)"

definition keeps_protected :: "string \<Rightarrow> smtp_conn \<Rightarrow> smtp_conn \<Rightarrow> bool" where
  "keeps_protected host c c' \<longleftrightarrow>
     ((\<forall>ev \<in> set (sc_log c). protected_event host ev) \<longrightarrow> (\<forall>ev \<in> set (sc_log c'). protected_event host ev))"

definition demo_relay :: relay where
  "demo_relay = \<lparr>rel_dial = Inr (), rel_greeting = Inr (), rel_hello = Inr (), rel_starttls_offered = True,
     rel_starttls = Inr (), rel_auth = Inr (), rel_mail = Inr (), rel_rcpt = Inr (), rel_data = Inr (),
     rel_write = Inr (), rel_accept = Inr (), rel_noop = Inr ()\<rparr>"

definition demo_client :: Client where
  "demo_client = New ''smtp.example.com'' 587 ''u'' ''p'' ''a@example.com'' []"

section \<open>The message text\<close>

lemma cut_line_append:
  "CHR 0x0D \<notin> set l \<Longrightarrow> cut_line (l @ CRLF @ r) = Some (l, r)"
proof (induction l)
  case Nil
  then show ?case by (simp add: CRLF_def)
next
  case (Cons x l)
  then show ?case by (cases "l @ CRLF @ r") (auto simp: CRLF_def)
qed

lemma parse_message_line:
  "CHR 0x0D \<notin> set l \<Longrightarrow> l \<noteq> [] \<Longrightarrow>
   parse_message (l @ CRLF @ r) = map_option (\<lambda>(hs, b). (l # hs, b)) (parse_message r)"
  by (subst parse_message.simps) (simp add: cut_line_append)

lemma parse_message_end: "parse_message (CRLF @ r) = Some ([], r)"
  using cut_line_append [of "[]"] by (subst parse_message.simps) simp

text \<open>
  C38 A message built from a sender, a recipient and a subject without line breaks is read back as
  exactly its five header lines and its body.
\<close>

theorem buildMessage_roundtrip:
  assumes "no_crlf frm" and "no_crlf to" and "no_crlf subject"
  shows "parse_message (buildMessage frm to subject body) =
    Some ([''From: '' @ frm, ''To: '' @ to, ''Subject: '' @ subject, ''MIME-Version: 1.0'',
           ''Content-Type: text/plain; charset=UTF-8''], body)"
  using assms parse_message_line [of "''From: '' @ frm"] parse_message_line [of "''To: '' @ to"]
    parse_message_line [of "''Subject: '' @ subject"] parse_message_line [of "''MIME-Version: 1.0''"]
    parse_message_line [of "''Content-Type: text/plain; charset=UTF-8''"] parse_message_end
  unfolding buildMessage_def no_crlf_def by simp

text \<open>The hypotheses hold for plain text.\<close>

theorem buildMessage_roundtrip_witness:
  "parse_message (buildMessage ''a@b.c'' ''d@e.f'' ''hi'' ''text'') =
    Some ([''From: a@b.c'', ''To: d@e.f'', ''Subject: hi'', ''MIME-Version: 1.0'',
           ''Content-Type: text/plain; charset=UTF-8''], ''text'')"
  using buildMessage_roundtrip [of "''a@b.c''" "''d@e.f''" "''hi''" "''text''"] by (simp add: no_crlf_def)

text \<open>
  C40 The client does not reject or escape line breaks in the subject: a subject that carries one
  adds a header line of the caller's choosing to the message.
\<close>

theorem subject_injects_header:
  assumes "no_crlf frm" and "no_crlf to" and "no_crlf subject" and "no_crlf extra" and "extra \<noteq> []"
  shows "parse_message (buildMessage frm to (subject @ CRLF @ extra) body) =
    Some ([''From: '' @ frm, ''To: '' @ to, ''Subject: '' @ subject, extra, ''MIME-Version: 1.0'',
           ''Content-Type: text/plain; charset=UTF-8''], body)"
  using assms parse_message_line [of "''From: '' @ frm"] parse_message_line [of "''To: '' @ to"]
    parse_message_line [of "''Subject: '' @ subject"] parse_message_line [of extra]
    parse_message_line [of "''MIME-Version: 1.0''"]
    parse_message_line [of "''Content-Type: text/plain; charset=UTF-8''"] parse_message_end
  unfolding buildMessage_def no_crlf_def by simp

text \<open>A blind copy added through the subject.\<close>

theorem subject_injects_header_witness:
  "parse_message (buildMessage ''a@b.c'' ''d@e.f'' (''hi'' @ CRLF @ ''Bcc: x@y.z'') ''text'') =
    Some ([''From: a@b.c'', ''To: d@e.f'', ''Subject: hi'', ''Bcc: x@y.z'', ''MIME-Version: 1.0'',
           ''Content-Type: text/plain; charset=UTF-8''], ''text'')"
  using subject_injects_header [of "''a@b.c''" "''d@e.f''" "''hi''" "''Bcc: x@y.z''" "''text''"]
  by (simp add: no_crlf_def)

section \<open>Accepted sessions\<close>

lemmas smtp_defs = emit_def answer_def dial_def hello_def smtp_cmd_def Extension_STARTTLS_def StartTLS_def
  Auth_plain_def authenticate_def Mail_def Rcpt_def validateLine_def

lemma NormalizeTLSMode_range:
  "NormalizeTLSMode m = Inr mode \<Longrightarrow> mode \<in> {TLSModeStartTLS, TLSModeImplicit, TLSModeNone}"
  by (auto simp: NormalizeTLSMode_def split: if_splits)

lemma connect_ok:
  "run_state (connect c rel creds) new_conn = (Inr (), conn) \<longleftrightarrow>
   (\<exists>mode. NormalizeTLSMode (cr_TLSMode creds) = Inr mode \<and> mode_connects rel mode creds \<and>
      conn = mode_conn c mode creds)"
  by (auto simp: connect_def NormalizeTLSMode_def smtp_defs new_conn_def preamble_def Let_def
      mode_connects_def mode_conn_def split: sum.splits if_splits option.splits)

lemma run_try_ok:
  "run_state (do { r \<leftarrow> m; case r of Inl e \<Rightarrow> State_Monad.return (Inl e) | Inr (x :: unit) \<Rightarrow> f x }) s = (Inr y, s') \<longleftrightarrow>
   (\<exists>s1. run_state m s = (Inr (), s1) \<and> run_state (f ()) s1 = (Inr y, s'))"
  by (auto split: prod.split sum.split)

lemma answer_ok:
  "run_state (answer ev r) c = (Inr (), c') \<longleftrightarrow> r = Inr () \<and> c' = c\<lparr>sc_log := sc_log c @ [ev (sc_tls c)]\<rparr>"
  by (auto simp: answer_def emit_def)

lemma authenticate_ok:
  assumes "sc_hello c = None \<or> sc_hello c = Some (Inr ())"
  shows "run_state (authenticate rel creds) c = (Inr (), c') \<longleftrightarrow>
    (if cr_Username creds = [] \<and> cr_Password creds = [] then c' = c
     else sc_tls c \<and> (sc_hello c = None \<longrightarrow> rel_hello rel = Inr ()) \<and> rel_auth rel = Inr () \<and>
       c' = c\<lparr>sc_hello := Some (Inr ()), sc_log := sc_log c @
          (if sc_hello c = None then [Hello (sc_tls c)] else []) @ auth_events creds\<rparr>)"
  using assms
  by (cases c) (auto simp: authenticate_def Auth_plain_def hello_def answer_def emit_def auth_events_def
      split: sum.splits if_splits)

lemma Mail_ok:
  assumes "sc_hello c = None \<or> sc_hello c = Some (Inr ())"
  shows "run_state (Mail rel frm) c = (Inr (), c') \<longleftrightarrow>
    no_crlf frm \<and> (sc_hello c = None \<longrightarrow> rel_hello rel = Inr ()) \<and> rel_mail rel = Inr () \<and>
    c' = c\<lparr>sc_hello := Some (Inr ()), sc_log := sc_log c @
          (if sc_hello c = None then [Hello (sc_tls c)] else []) @ [MailFrom (sc_tls c) frm]\<rparr>"
  using assms
  by (cases c) (auto simp: Mail_def validateLine_def no_crlf_def smtp_cmd_def hello_def answer_def emit_def
      split: sum.splits if_splits)

lemma Rcpt_ok:
  "run_state (Rcpt rel to) c = (Inr (), c') \<longleftrightarrow>
   no_crlf to \<and> rel_rcpt rel = Inr () \<and> c' = c\<lparr>sc_log := sc_log c @ [RcptTo (sc_tls c) to]\<rparr>"
  by (auto simp: Rcpt_def validateLine_def no_crlf_def answer_ok)

lemma last_ok:
  "run_state (do { r \<leftarrow> answer ev w;
     case r of Inl e \<Rightarrow> do { _ \<leftarrow> answer ev' a; State_Monad.return (Inl e) } | Inr _ \<Rightarrow> answer ev' a }) c = (Inr (), c') \<longleftrightarrow>
   w = Inr () \<and> a = Inr () \<and> c' = c\<lparr>sc_log := sc_log c @ [ev (sc_tls c), ev' (sc_tls c)]\<rparr>"
  by (auto simp: answer_def emit_def split: sum.split)

lemma deliver_ok:
  assumes h: "sc_hello conn = None \<or> sc_hello conn = Some (Inr ())"
  shows "run_state (deliver rel creds toEmail subject body) conn = (Inr (), conn') \<longleftrightarrow>
     (sc_hello conn = None \<longrightarrow> rel_hello rel = Inr ()) \<and>
     (cr_Username creds \<noteq> [] \<or> cr_Password creds \<noteq> [] \<longrightarrow> sc_tls conn \<and> rel_auth rel = Inr ()) \<and>
     no_crlf (cr_From creds) \<and> no_crlf toEmail \<and> rel_mail rel = Inr () \<and> rel_rcpt rel = Inr () \<and>
     rel_data rel = Inr () \<and> rel_write rel = Inr () \<and> rel_accept rel = Inr () \<and>
     conn' = conn\<lparr>sc_hello := Some (Inr ()),
       sc_log := sc_log conn @ (if sc_hello conn = None then [Hello (sc_tls conn)] else []) @ auth_events creds @
                 delivery (sc_tls conn) creds toEmail subject body\<rparr>"
proof (cases "cr_Username creds = [] \<and> cr_Password creds = []")
  case True
  then have "auth_events creds = []" by (simp add: auth_events_def)
  then show ?thesis
    unfolding deliver_def run_try_ok last_ok authenticate_ok [OF h] Rcpt_ok answer_ok
    using True Mail_ok [OF h] by (auto simp: delivery_def)
next
  case False
  then show ?thesis
    unfolding deliver_def run_try_ok last_ok authenticate_ok [OF h] Rcpt_ok answer_ok
    by (auto simp: delivery_def Mail_ok)
qed

lemma send_session_ok:
  "run_state (send_session c rel creds toEmail subject body) new_conn = (Inr (), conn') \<longleftrightarrow>
   (\<exists>conn. run_state (connect c rel creds) new_conn = (Inr (), conn) \<and>
           run_state (deliver rel creds toEmail subject body) conn = (Inr (), conn'))"
  by (auto simp: send_session_def split: prod.splits sum.splits)

lemma mode_delivers:
  assumes "mode \<in> {TLSModeStartTLS, TLSModeImplicit, TLSModeNone}"
  shows "(\<exists>conn'. mode_connects rel mode creds \<and>
      run_state (deliver rel creds toEmail subject body) (mode_conn c mode creds) = (Inr (), conn') \<and>
      log = sc_log conn') \<longleftrightarrow>
    relay_accepts rel mode creds \<and> no_crlf (cr_From creds) \<and> no_crlf toEmail \<and>
    log = preamble c mode creds @ auth_events creds @ delivery (mode \<noteq> TLSModeNone) creds toEmail subject body"
proof -
  have "sc_hello (mode_conn c mode creds) = None \<or> sc_hello (mode_conn c mode creds) = Some (Inr ())"
    by (simp add: mode_conn_def)
  note d = deliver_ok [OF this]
  show ?thesis
    unfolding d using assms
    by (auto simp: mode_conn_def mode_connects_def relay_accepts_def preamble_def Let_def)
qed

text \<open>
  C14 \<open>Send\<close> returns no error exactly if the TLS mode is known, the addresses hold no line break
  and the relay accepts every exchange up to the final answer to the data; then the wire carries
  the greeting of the mode, the authentication, and the message once.
\<close>

theorem Send_outcome:
  "Send c rel creds toEmail subject body = (Inr (), log) \<longleftrightarrow>
   (\<exists>mode. NormalizeTLSMode (cr_TLSMode creds) = Inr mode \<and> relay_accepts rel mode creds \<and>
      no_crlf (cr_From creds) \<and> no_crlf toEmail \<and>
      log = preamble c mode creds @ auth_events creds @
            delivery (mode \<noteq> TLSModeNone) creds toEmail subject body)"
proof -
  have "Send c rel creds toEmail subject body = (Inr (), log) \<longleftrightarrow>
      (\<exists>conn'. run_state (send_session c rel creds toEmail subject body) new_conn = (Inr (), conn') \<and> log = sc_log conn')"
    by (auto simp: Send_def split: prod.splits)
  also have "\<dots> \<longleftrightarrow> (\<exists>mode. NormalizeTLSMode (cr_TLSMode creds) = Inr mode \<and>
      (\<exists>conn'. mode_connects rel mode creds \<and>
         run_state (deliver rel creds toEmail subject body) (mode_conn c mode creds) = (Inr (), conn') \<and>
         log = sc_log conn'))"
    unfolding send_session_ok connect_ok by blast
  also have "\<dots> \<longleftrightarrow> (\<exists>mode. NormalizeTLSMode (cr_TLSMode creds) = Inr mode \<and> relay_accepts rel mode creds \<and>
      no_crlf (cr_From creds) \<and> no_crlf toEmail \<and>
      log = preamble c mode creds @ auth_events creds @ delivery (mode \<noteq> TLSModeNone) creds toEmail subject body)"
    using mode_delivers NormalizeTLSMode_range by metis
  finally show ?thesis .
qed

section \<open>Credentials only over TLS\<close>

interpretation protected: frame_relation "keeps_protected host"
  by (rule frame_relation.intro; unfold keeps_protected_def; blast)

lemma protected_answer:
  "(\<And>t. protected_event host (ev t)) \<Longrightarrow> state_io_rel (keeps_protected host) (answer ev r)"
  by (auto simp: state_io_rel_def answer_def emit_def keeps_protected_def)

lemma protected_hello: "state_io_rel (keeps_protected host) (hello rel)"
  by (auto simp: state_io_rel_def hello_def keeps_protected_def protected_event_def split: option.split)

lemma protected_dial:
  "cfg = None \<or> cfg = Some (tlsConfig host) \<Longrightarrow> state_io_rel (keeps_protected host) (dial rel addr cfg)"
  by (auto simp: state_io_rel_def dial_def keeps_protected_def protected_event_def split: sum.split)

lemma protected_StartTLS: "state_io_rel (keeps_protected host) (StartTLS rel (tlsConfig host))"
  unfolding StartTLS_def
  by (intro protected.within protected_hello)
    (auto simp: state_io_rel_def keeps_protected_def protected_event_def)

lemma hello_tls: "sc_tls (snd (run_state (hello rel) c)) = sc_tls c"
  by (simp add: hello_def split: option.split)

lemma protected_authenticate: "state_io_rel (keeps_protected host) (authenticate rel creds)"
proof -
  have "keeps_protected host c (snd (run_state (Auth_plain rel creds) c))" if "sc_tls c" for c
  proof -
    obtain h c1 where h: "run_state (hello rel) c = (h, c1)" by (metis surj_pair)
    have "sc_tls c1" using that h hello_tls [of rel c] by simp
    moreover have "keeps_protected host c c1" using protected_hello h by (rule state_io_relD)
    ultimately show ?thesis
      by (auto simp: Auth_plain_def h answer_def emit_def keeps_protected_def protected_event_def split: sum.split)
  qed
  then show ?thesis
    by (auto simp: authenticate_def state_io_rel_def protected.refl)
qed

lemma protected_smtp_cmd:
  "(\<And>t. protected_event host (ev t)) \<Longrightarrow> state_io_rel (keeps_protected host) (smtp_cmd rel ev r)"
  unfolding smtp_cmd_def by (intro protected.within protected_hello protected_answer)

lemma protected_connect:
  assumes "cl_tlsConfig c = None \<or> cl_tlsConfig c = Some tlsConfig"
  shows "state_io_rel (keeps_protected (cr_Host creds)) (connect c rel creds)"
proof -
  have cfg: "(case cl_tlsConfig c of None \<Rightarrow> tlsConfig | Some f \<Rightarrow> f) = tlsConfig"
    using assms by auto
  show ?thesis
    unfolding connect_def cfg Extension_STARTTLS_def Let_def
    by (intro protected.within_bind protected.within_sum protected.within_if protected.within_return
        protected_dial protected_hello protected_StartTLS) simp
qed

lemma protected_Mail: "state_io_rel (keeps_protected host) (Mail rel frm)"
  unfolding Mail_def
  by (rule protected.within_sum) (auto intro: protected.within_return protected_smtp_cmd simp: protected_event_def)

lemma protected_Rcpt: "state_io_rel (keeps_protected host) (Rcpt rel to)"
  unfolding Rcpt_def
  by (rule protected.within_sum) (auto intro: protected.within_return protected_answer simp: protected_event_def)

lemma protected_data:
  "state_io_rel (keeps_protected host) (answer DataCmd r)"
  "state_io_rel (keeps_protected host) (answer DataEnd r)"
  "state_io_rel (keeps_protected host) (answer (\<lambda>t. Payload t txt) r)"
  "state_io_rel (keeps_protected host) (smtp_cmd rel NoopCmd r)"
  by (rule protected_answer protected_smtp_cmd, simp add: protected_event_def)+

lemma protected_sessions:
  assumes "cl_tlsConfig c = None \<or> cl_tlsConfig c = Some tlsConfig"
  shows "state_io_rel (keeps_protected (cr_Host creds)) (send_session c rel creds toEmail subject body)"
    and "state_io_rel (keeps_protected (cr_Host creds)) (validate_session c rel creds)"
  unfolding send_session_def deliver_def validate_session_def
  by (intro protected.within_bind protected.within_sum protected.within_return protected_connect [OF assms]
      protected_authenticate protected_Mail protected_Rcpt protected_data)+

text \<open>
  C13 Whatever the relay answers, a session of \<open>Send\<close> or \<open>Validate\<close> puts the user name and
  password on the wire only after the connection is TLS, and every TLS connection is made with the
  host of the credentials as server name and TLS 1.2 as the lowest version.
\<close>

theorem credentials_only_over_tls:
  assumes "cl_tlsConfig c = None \<or> cl_tlsConfig c = Some tlsConfig"
    and "ev \<in> set (snd (Send c rel creds toEmail subject body)) \<union> set (snd (Validate c rel creds))"
  shows "(\<forall>t u p. ev = AuthPlain t u p \<longrightarrow> t) \<and>
    (\<forall>addr cfg. ev = Dialed addr (Some cfg) \<or> ev = StartedTLS cfg \<longrightarrow>
       tc_ServerName cfg = cr_Host creds \<and> tc_MinVersion cfg = VersionTLS12)"
proof -
  obtain r c1 where one: "run_state (send_session c rel creds toEmail subject body) new_conn = (r, c1)"
    by (metis surj_pair)
  obtain r' c2 where two: "run_state (validate_session c rel creds) new_conn = (r', c2)"
    by (metis surj_pair)
  have "keeps_protected (cr_Host creds) new_conn c1" "keeps_protected (cr_Host creds) new_conn c2"
    by (rule state_io_relD [OF protected_sessions(1) [OF assms(1)] one]
        state_io_relD [OF protected_sessions(2) [OF assms(1)] two])+
  moreover have "ev \<in> set (sc_log c1) \<union> set (sc_log c2)"
    using assms(2) by (simp add: Send_def Validate_def one two)
  ultimately have "protected_event (cr_Host creds) ev"
    by (auto simp: keeps_protected_def new_conn_def)
  then show ?thesis
    by (auto simp: protected_event_def tlsConfig_def split: option.splits)
qed

text \<open>The hypotheses hold for the client of \<open>New\<close> and a session that authenticates.\<close>

theorem credentials_only_over_tls_witness:
  "StartedTLS (tlsConfig ''smtp.example.com'') \<in>
     set (snd (Send demo_client demo_relay (DefaultCredentials demo_client) ''b@example.org'' ''s'' ''t'')) \<and>
   tc_ServerName (tlsConfig ''smtp.example.com'') = cr_Host (DefaultCredentials demo_client)"
proof -
  have ev: "StartedTLS (tlsConfig ''smtp.example.com'') \<in>
     set (snd (Send demo_client demo_relay (DefaultCredentials demo_client) ''b@example.org'' ''s'' ''t''))"
    by (simp add: Send_def send_session_def deliver_def connect_def NormalizeTLSMode_def demo_client_def New_def
        demo_relay_def DefaultCredentials_def smtp_defs new_conn_def)
  have "cl_tlsConfig demo_client = None \<or> cl_tlsConfig demo_client = Some tlsConfig"
    by (simp add: demo_client_def New_def)
  from credentials_only_over_tls [OF this UnI1 [OF ev]] ev show ?thesis by blast
qed

section \<open>Sanitized errors\<close>

text \<open>
  The text kept of an SMTP error has at most 240 bytes and, whatever the case of its letters,
  mentions neither a password nor credentials.
\<close>

theorem SMTPError_safe:
  "length (SMTPError raw) \<le> 240 \<and> SMTPError raw \<noteq> [] \<and>
   \<not> Contains (ToLower (SMTPError raw)) ''password'' \<and> \<not> Contains (ToLower (SMTPError raw)) ''credential''"
proof -
  let ?out = "TrimSpace raw"
  have "SMTPError raw \<in> {''smtp delivery failed'', ''smtp timeout'', ''smtp connection refused'',
      ''smtp authentication failed''} \<or>
    SMTPError raw = take 240 ?out \<and> ?out \<noteq> [] \<and> \<not> Contains (ToLower ?out) ''password'' \<and>
      \<not> Contains (ToLower ?out) ''credential''"
    by (simp add: SMTPError_def Let_def)
  then show ?thesis
  proof (elim disjE)
    assume "SMTPError raw \<in> {''smtp delivery failed'', ''smtp timeout'', ''smtp connection refused'',
      ''smtp authentication failed''}"
    then show ?thesis
      by (auto simp: ToLower_def lower_char_def HasPrefix_def)
  next
    assume "SMTPError raw = take 240 ?out \<and> ?out \<noteq> [] \<and> \<not> Contains (ToLower ?out) ''password'' \<and>
      \<not> Contains (ToLower ?out) ''credential''"
    then show ?thesis by (auto simp: ToLower_take dest: Contains_take)
  qed
qed

end
