(* ===== verification/Go_Hex.thy ===== *)
theory Go_Hex
  imports Go_Base
begin

text \<open>
  Hexadecimal text (\<open>encoding/hex\<close>) and text without white space, shared by the webhook and the
  session components.
\<close>

section \<open>Definitions\<close>

text \<open>\<open>encoding/hex\<close>: two lower-case digits for each byte; decoding also takes upper-case digits.\<close>

definition EncodeToString :: "string \<Rightarrow> string" where
  "EncodeToString s = concat (map (\<lambda>c. [hex_digit (of_char c div 16), hex_digit (of_char c mod 16)]) s)"

definition hex_value :: "char \<Rightarrow> int option" where
  "hex_value c =
     (let n = (of_char c :: int) in
      if 48 \<le> n \<and> n \<le> 57 then Some (n - 48)
      else if 97 \<le> n \<and> n \<le> 102 then Some (n - 87)
      else if 65 \<le> n \<and> n \<le> 70 then Some (n - 55) else None)"

fun DecodeString :: "string \<Rightarrow> string option" where
  "DecodeString [] = Some []"
| "DecodeString [c] = None"
| "DecodeString (c # d # s) =
     (case hex_value c of
        None \<Rightarrow> None
      | Some a \<Rightarrow> (case hex_value d of
          None \<Rightarrow> None
        | Some b \<Rightarrow> map_option ((#) (char_of (16 * a + b))) (DecodeString s)))"

definition plain_char :: "char \<Rightarrow> bool" where
  "plain_char c \<longleftrightarrow> 32 < (of_char c :: int) \<and> (of_char c :: int) < 127"

section \<open>Hexadecimal\<close>

lemma hex_value_hex_digit: "0 \<le> n \<Longrightarrow> n < 16 \<Longrightarrow> hex_value (hex_digit n) = Some n"
  by (simp add: hex_value_def hex_digit_def of_char_of)

lemma nibbles [simp]:
  "0 \<le> (of_char c :: int) div 16" "(of_char c :: int) div 16 < 16"
proof -
  have "0 \<le> (of_char c :: int) mod 256" "(of_char c :: int) mod 256 < 256" by (rule pos_mod_sign, simp, rule pos_mod_bound, simp)
  then show "0 \<le> (of_char c :: int) div 16" "(of_char c :: int) div 16 < 16" by (simp_all add: of_char_mod_256)
qed

lemma DecodeString_EncodeToString [simp]: "DecodeString (EncodeToString s) = Some s"
  by (induction s) (simp_all add: EncodeToString_def hex_value_hex_digit)

section \<open>Text without white space\<close>

lemma no_space_prefix:
  assumes "list_all plain_char s"
  shows "\<not> starts_with_any space_seqs s" "\<not> starts_with_any (map rev space_seqs) s"
  using assms by (cases s; simp add: starts_with_any_def space_seqs_def HasPrefix_def plain_char_def; fastforce)+

lemma TrimSpace_plain: "list_all plain_char s \<Longrightarrow> TrimSpace s = s"
  by (simp add: TrimSpace_def TrimLeft_def TrimRight_def strip_seqs_id no_space_prefix list_all_rev)

lemma plain_hex_digit: "0 \<le> n \<Longrightarrow> n < 16 \<Longrightarrow> plain_char (hex_digit n)"
  by (simp add: plain_char_def hex_digit_def of_char_of)

lemma plain_EncodeToString: "list_all plain_char (EncodeToString s)"
  by (induction s) (simp_all add: EncodeToString_def plain_hex_digit)

lemma plain_digit: "char_digit c \<noteq> None \<Longrightarrow> plain_char c"
  by (auto simp: char_digit_def plain_char_def split: if_splits)

lemma plain_FormatInt: "list_all plain_char (FormatInt i)"
proof -
  have "list_all plain_char (decimal n)" if "0 \<le> n" for n
    using that by (simp add: list_all_iff plain_digit decimal_digits)
  moreover have "plain_char (CHR ''-'')" by (simp add: plain_char_def)
  ultimately show ?thesis by (simp add: FormatInt_def)
qed

lemma comma_not_hex: "CHR '','' \<notin> set (EncodeToString s)"
proof -
  have "hex_value (CHR '','') = None" by code_simp
  then have "CHR '','' \<noteq> hex_digit n" if "0 \<le> n" "n < 16" for n
    using hex_value_hex_digit [OF that] by (metis option.distinct(1))
  then show ?thesis by (induction s) (simp_all add: EncodeToString_def)
qed

end
