(* ===== verification/Go_Base64.thy ===== *)
theory Go_Base64
  imports Go_Hex
begin

text \<open>
  Base64 text (\<open>encoding/base64\<close>): the two alphabets the code uses, encoding, and decoding as the
  standard library does it, with the round trip.
\<close>

section \<open>Definitions\<close>

text \<open>An encoding is given by its 64 characters.\<close>

definition base64_std :: string where
  "base64_std = ''ABCDEFGHIJKLMNOPQRSTUVWXYZabcdefghijklmnopqrstuvwxyz0123456789+/''"

definition base64_url :: string where
  "base64_url = ''ABCDEFGHIJKLMNOPQRSTUVWXYZabcdefghijklmnopqrstuvwxyz0123456789-_''"

definition sextet_char :: "string \<Rightarrow> int \<Rightarrow> char" where
  "sextet_char alphabet n = alphabet ! nat n"

definition sextet :: "string \<Rightarrow> char \<Rightarrow> int option" where
  "sextet alphabet c = map_of (zip alphabet [0..63]) c"

fun Base64_Encode :: "string \<Rightarrow> string \<Rightarrow> string" where
  "Base64_Encode e [] = []"
| "Base64_Encode e [a] =
     [sextet_char e (of_char a div 4), sextet_char e (of_char a mod 4 * 16), CHR ''='', CHR ''='']"
| "Base64_Encode e [a, b] =
     [sextet_char e (of_char a div 4), sextet_char e (of_char a mod 4 * 16 + of_char b div 16),
      sextet_char e (of_char b mod 16 * 4), CHR ''='']"
| "Base64_Encode e (a # b # c # s) =
     sextet_char e (of_char a div 4) # sextet_char e (of_char a mod 4 * 16 + of_char b div 16) #
     sextet_char e (of_char b mod 16 * 4 + of_char c div 64) # sextet_char e (of_char c mod 64) # Base64_Encode e s"

text \<open>
  Decoding takes groups of four; bits that are left over in the last group are not looked at, as in
  an encoding that is not \<open>Strict\<close>.
\<close>

fun decode_groups :: "string \<Rightarrow> string \<Rightarrow> string option" where
  "decode_groups e [] = Some []"
| "decode_groups e (a # b # c # d # s) =
     (case (sextet e a, sextet e b) of
        (Some x, Some y) \<Rightarrow>
          let one = char_of (x * 4 + y div 16) in
          if c = CHR ''='' then (if d = CHR ''='' \<and> s = [] then Some [one] else None)
          else (case sextet e c of
            None \<Rightarrow> None
          | Some z \<Rightarrow>
              let two = char_of (y mod 16 * 16 + z div 4) in
              if d = CHR ''='' then (if s = [] then Some [one, two] else None)
              else (case sextet e d of
                None \<Rightarrow> None
              | Some u \<Rightarrow> map_option (\<lambda>t. one # two # char_of (z mod 4 * 64 + u) # t) (decode_groups e s)))
      | _ \<Rightarrow> None)"
| "decode_groups e s = None"

text \<open>Line breaks are skipped wherever they stand.\<close>

definition Base64_Decode :: "string \<Rightarrow> string \<Rightarrow> string option" where
  "Base64_Decode e s = decode_groups e (filter (\<lambda>c. c \<noteq> CHR 0x0A \<and> c \<noteq> CHR 0x0D) s)"

definition plain_alphabet :: "string \<Rightarrow> bool" where
  "plain_alphabet e \<longleftrightarrow> length e = 64 \<and> distinct e \<and> CHR ''='' \<notin> set e \<and> CHR 0x0A \<notin> set e \<and> CHR 0x0D \<notin> set e"

lemma sextet_sextet_char:
  assumes "length e = 64" "distinct e" "0 \<le> n" "n < 64"
  shows "sextet e (sextet_char e n) = Some n"
proof -
  have "(e ! nat n, [0..63] ! nat n) \<in> set (zip e [0..63])"
    using assms by (auto simp: set_zip intro!: exI [of _ "nat n"])
  moreover have "[0..63] ! nat n = n" using assms(3,4) by simp
  ultimately show ?thesis using assms(1,2) by (simp add: sextet_def sextet_char_def)
qed

lemma alphabets: "length base64_std = 64" "distinct base64_std" "length base64_url = 64" "distinct base64_url"
  by code_simp+

lemma byte_bounds: "0 \<le> (of_char c :: int)" "(of_char c :: int) < 256"
proof -
  have "0 \<le> (of_char c :: int) mod 256" "(of_char c :: int) mod 256 < 256" by (rule pos_mod_sign, simp, rule pos_mod_bound, simp)
  then show "0 \<le> (of_char c :: int)" "(of_char c :: int) < 256" by (simp_all add: of_char_mod_256)
qed

lemma sextet_char_in: "length e = 64 \<Longrightarrow> 0 \<le> n \<Longrightarrow> n < 64 \<Longrightarrow> sextet_char e n \<in> set e"
  by (simp add: sextet_char_def)

lemma sextet_char_ne:
  assumes "plain_alphabet e" "0 \<le> n" "n < 64"
  shows "sextet_char e n \<noteq> CHR ''=''" "sextet_char e n \<noteq> CHR 0x0A" "sextet_char e n \<noteq> CHR 0x0D"
  using assms sextet_char_in [of e n] by (auto simp: plain_alphabet_def)

lemma digit_join:
  fixes r q k :: int
  assumes "0 \<le> q" "q < k"
  shows "(r * k + q) div k = r" "(r * k + q) mod k = q"
  using assms by simp_all

lemma byte_digits:
  fixes x :: int
  assumes "0 \<le> x" "x < 256"
  shows "0 \<le> x div 4" "x div 4 < 64" "0 \<le> x div 16" "x div 16 < 16" "0 \<le> x div 64" "x div 64 < 4"
    "x mod 4 < 4" "x mod 16 < 16" "x mod 64 < 64" "0 \<le> x mod 4" "0 \<le> x mod 16" "0 \<le> x mod 64"
  using assms by simp_all

lemma bytes_join:
  fixes x y z :: int
  assumes x: "0 \<le> x" "x < 256" and y: "0 \<le> y" "y < 256" and z: "0 \<le> z" "z < 256"
  shows "x div 4 * 4 + (x mod 4 * 16 + y div 16) div 16 = x" "x div 4 * 4 + (x mod 4 * 16) div 16 = x"
    "(x mod 4 * 16 + y div 16) mod 16 * 16 + (y mod 16 * 4 + z div 64) div 4 = y"
    "(x mod 4 * 16 + y div 16) mod 16 * 16 + (y mod 16 * 4) div 4 = y"
    "(y mod 16 * 4 + z div 64) mod 4 * 64 + z mod 64 = z"
    "0 \<le> x div 4" "x div 4 < 64" "0 \<le> x mod 4 * 16 + y div 16" "x mod 4 * 16 + y div 16 < 64" "0 \<le> x mod 4 * 16" "x mod 4 * 16 < 64"
    "0 \<le> y mod 16 * 4 + z div 64" "y mod 16 * 4 + z div 64 < 64" "0 \<le> y mod 16 * 4" "y mod 16 * 4 < 64" "0 \<le> z mod 64" "z mod 64 < 64"
proof -
  note b = byte_digits [OF x] byte_digits [OF y] byte_digits [OF z]
  note d = digit_join [OF b(15,16)] digit_join [OF b(29,30)]
  show "x div 4 * 4 + (x mod 4 * 16 + y div 16) div 16 = x" "x div 4 * 4 + (x mod 4 * 16) div 16 = x"
    "(x mod 4 * 16 + y div 16) mod 16 * 16 + (y mod 16 * 4 + z div 64) div 4 = y"
    "(x mod 4 * 16 + y div 16) mod 16 * 16 + (y mod 16 * 4) div 4 = y"
    "(y mod 16 * 4 + z div 64) mod 4 * 64 + z mod 64 = z"
    by (simp_all only: d nonzero_mult_div_cancel_right div_mult_mod_eq zero_neq_numeral[symmetric] numeral_eq_iff if_False not_False_eq_True)
  show "0 \<le> x div 4" "x div 4 < 64" "0 \<le> x mod 4 * 16 + y div 16" "x mod 4 * 16 + y div 16 < 64" "0 \<le> x mod 4 * 16" "x mod 4 * 16 < 64"
    "0 \<le> y mod 16 * 4 + z div 64" "y mod 16 * 4 + z div 64 < 64" "0 \<le> y mod 16 * 4" "y mod 16 * 4 < 64" "0 \<le> z mod 64" "z mod 64 < 64"
    using b by linarith+
qed

lemma high_digit: "(of_char c :: int) div 64 div 4 = 0" "(of_char c :: int) div 64 mod 4 = of_char c div 64"
  using byte_digits(5,6) [OF byte_bounds, of c] by (simp_all del: div_mult2_eq zdiv_zmult2_eq)

lemmas char_join = bytes_join [OF byte_bounds byte_bounds byte_bounds]

lemma Base64_Encode_one_line:
  assumes "plain_alphabet e"
  shows "filter (\<lambda>c. c \<noteq> CHR 0x0A \<and> c \<noteq> CHR 0x0D) (Base64_Encode e s) = Base64_Encode e s"
  using assms by (induction e s rule: Base64_Encode.induct) (simp_all add: sextet_char_ne char_join)

lemma decode_encode:
  assumes "plain_alphabet e"
  shows "decode_groups e (Base64_Encode e s) = Some s"
proof -
  have len: "length e = 64" "distinct e" using assms by (simp_all add: plain_alphabet_def)
  show ?thesis
    using assms len
    by (induction e s rule: Base64_Encode.induct)
       (simp_all add: sextet_sextet_char sextet_char_ne char_join high_digit Let_def)
qed

lemma Base64_roundtrip:
  assumes "plain_alphabet e"
  shows "Base64_Decode e (Base64_Encode e s) = Some s"
  by (simp add: Base64_Decode_def Base64_Encode_one_line [OF assms] decode_encode [OF assms])

lemma Base64_Encode_inj: "plain_alphabet e \<Longrightarrow> Base64_Encode e s = Base64_Encode e t \<Longrightarrow> s = t"
  by (metis Base64_roundtrip option.inject)

lemma plain_alphabets: "plain_alphabet base64_std" "plain_alphabet base64_url"
  by code_simp+

end
