(* ===== verification/Crypto.thy ===== *)
theory Crypto
  imports Domain_Types Go_Base64
begin

text \<open>
  The sealer of stored SMTP accounts (\<open>src/internal/crypto/crypto.go\<close>). AES-GCM is a parameter:
  an \<open>AEAD\<close> with its key inside, as \<open>cipher.AEAD\<close>. The bytes \<open>rand.Reader\<close> delivers are an
  argument.
\<close>

section \<open>Definitions\<close>

record AEAD =
  aead_NonceSize :: nat
  aead_Seal :: "string \<Rightarrow> string \<Rightarrow> string"
  aead_Open :: "string \<Rightarrow> string \<Rightarrow> string result"

definition Seal :: "AEAD \<Rightarrow> string result \<Rightarrow> string \<Rightarrow> string result" where
  "Seal a random plaintext =
     (case random of
        Inl e \<Rightarrow> Inl e
      | Inr nonce \<Rightarrow> Inr (nonce @ aead_Seal a nonce plaintext))"

definition Open :: "AEAD \<Rightarrow> string \<Rightarrow> string result" where
  "Open a ciphertext =
     (let nonceSize = aead_NonceSize a in
      if length ciphertext < nonceSize then Inl (ErrText ''ciphertext too short'')
      else aead_Open a (take nonceSize ciphertext) (drop nonceSize ciphertext))"

text \<open>\<open>NewSealerFromBase64\<close>: the construction of the cipher is a parameter.\<close>

definition NewSealerFromBase64 :: "(string \<Rightarrow> AEAD result) \<Rightarrow> string \<Rightarrow> AEAD result" where
  "NewSealerFromBase64 newGCM keyB64 =
     (case Base64_Decode base64_std keyB64 of
        None \<Rightarrow> Inl (ErrText ''illegal base64 data'')
      | Some key \<Rightarrow> if length key \<noteq> 32 then Inl (ErrText ''encryption key must decode to 32 bytes'')
                   else newGCM key)"

text \<open>
  What the sealer needs of the cipher: what was sealed under a nonce opens under it, and nothing
  else does.
\<close>

definition aead_correct :: "AEAD \<Rightarrow> bool" where
  "aead_correct a \<longleftrightarrow>
     (\<forall>n p. length n = aead_NonceSize a \<longrightarrow> aead_Open a n (aead_Seal a n p) = Inr p) \<and>
     (\<forall>n c p. aead_Open a n c = Inr p \<longrightarrow> c = aead_Seal a n p)"

definition demo_aead :: AEAD where
  "demo_aead =
     \<lparr>aead_NonceSize = 2, aead_Seal = (\<lambda>n p. n @ p @ ''#''),
      aead_Open = (\<lambda>n c. if length n + 1 \<le> length c \<and> take (length n) c = n \<and> last c = CHR ''#''
                         then Inr (butlast (drop (length n) c)) else Inl (ErrText ''cipher: message authentication failed''))\<rparr>"

section \<open>Round trip\<close>

lemma Open_Seal:
  assumes "aead_correct a" and "Seal a (Inr nonce) plaintext = Inr c" and "length nonce = aead_NonceSize a"
  shows "Open a c = Inr plaintext"
  using assms by (auto simp: Seal_def Open_def aead_correct_def Let_def)

lemma Open_sealed:
  assumes "aead_correct a" and "Open a c = Inr plaintext"
  shows "\<exists>nonce. length nonce = aead_NonceSize a \<and> Seal a (Inr nonce) plaintext = Inr c"
proof -
  have len: "aead_NonceSize a \<le> length c"
    and open': "aead_Open a (take (aead_NonceSize a) c) (drop (aead_NonceSize a) c) = Inr plaintext"
    using assms(2) by (auto simp: Open_def Let_def split: if_splits)
  have "drop (aead_NonceSize a) c = aead_Seal a (take (aead_NonceSize a) c) plaintext"
    using assms(1) open' by (simp add: aead_correct_def)
  then have "c = take (aead_NonceSize a) c @ aead_Seal a (take (aead_NonceSize a) c) plaintext"
    by (metis append_take_drop_id)
  with len show ?thesis
    by (intro exI [of _ "take (aead_NonceSize a) c"]) (simp add: Seal_def)
qed

lemma demo_aead_correct: "aead_correct demo_aead"
proof -
  have "c = n @ butlast (drop (length n) c) @ ''#''"
    if "length n + 1 \<le> length c" "take (length n) c = n" "last c = CHR ''#''" for n c :: string
  proof -
    have "drop (length n) c \<noteq> []" using that(1) by simp
    moreover have "last (drop (length n) c) = CHR ''#''" using that by (simp add: last_drop)
    ultimately have "drop (length n) c = butlast (drop (length n) c) @ ''#''"
      by (metis append_butlast_last_id)
    with that(2) show ?thesis by (metis append_take_drop_id)
  qed
  then show ?thesis
    by (auto simp: aead_correct_def demo_aead_def butlast_append split: if_splits)
qed

text \<open>
  Opening what the sealer produced gives the plaintext back, and only what the sealer could
  have produced opens: a payload opens to a plaintext exactly if it is that plaintext sealed under
  some nonce of the cipher's size.
\<close>

theorem seal_open:
  assumes "aead_correct a"
  shows "Open a c = Inr plaintext \<longleftrightarrow>
    (\<exists>nonce. length nonce = aead_NonceSize a \<and> Seal a (Inr nonce) plaintext = Inr c)"
  using Open_Seal [OF assms] Open_sealed [OF assms] by blast

text \<open>The hypothesis holds for an authenticating cipher of two nonce bytes.\<close>

theorem seal_open_witness: "Open demo_aead ''NNNNsecret#'' = Inr ''secret''"
proof -
  have "length ''NN'' = aead_NonceSize demo_aead \<and> Seal demo_aead (Inr ''NN'') ''secret'' = Inr ''NNNNsecret#''"
    by (simp add: demo_aead_def Seal_def)
  then show ?thesis using seal_open [OF demo_aead_correct] by blast
qed

end
