(* ===== verification/World.thy ===== *)
theory World
  imports Pg_Store Redis_Queue Redis_Limiter Smtp_Client Crypto
begin

text \<open>
  What the service acts on: the tables, the queue and the counters it shares with other
  processes, the relays, the clock and the random source. Each call of the service is one step.
  Before it acts, the other processes have acted (\<open>w_other\<close>, an arbitrary transformation of the
  shared state), and its fate is \<open>w_fault\<close>: executed, refused, or executed with the answer lost.
  So a routine is run against every schedule of faults and of interference. What it did is recorded
  in two transcripts: the steps it made, and what went over the wire.
\<close>

section \<open>Definitions\<close>

record shared =
  sh_db :: db
  sh_queue :: redis_queue
  sh_limits :: counters

text \<open>A step: the shared state the routine met and the one it left, and what it put on the wire.\<close>

record transition =
  tr_before :: shared
  tr_after :: shared
  tr_log :: "wire list"

record world =
  w_step :: nat
  w_clock :: "nat \<Rightarrow> go_time"
  w_fault :: "nat \<Rightarrow> fault"
  w_redis :: "nat \<Rightarrow> redis_env"
  w_relay :: "nat \<Rightarrow> relay"
  w_random :: "nat \<Rightarrow> string result"
  w_other :: "nat \<Rightarrow> shared \<Rightarrow> shared"
  w_shared :: shared
  w_trace :: "transition list"
  w_wire :: "wire list"

type_synonym 'a io = "(world, 'a) state"

definition interfered :: "world \<Rightarrow> shared" where
  "interfered w = w_other w (w_step w) (w_shared w)"

definition after_step :: "shared \<Rightarrow> world \<Rightarrow> world" where
  "after_step sh w = w\<lparr>w_step := Suc (w_step w), w_shared := sh, w_trace := w_trace w @ [\<lparr>tr_before = interfered w, tr_after = sh, tr_log = []\<rparr>]\<rparr>"

text \<open>A session: meanwhile the shared state is left to the others.\<close>

definition after_wire :: "wire list \<Rightarrow> world \<Rightarrow> world" where
  "after_wire log w = w\<lparr>w_step := Suc (w_step w), w_shared := interfered w,
     w_trace := w_trace w @ [\<lparr>tr_before = interfered w, tr_after = interfered w, tr_log = log\<rparr>], w_wire := w_wire w @ log\<rparr>"

definition call :: "(go_time \<Rightarrow> shared \<Rightarrow> 'a result \<times> shared) \<Rightarrow> 'a result io" where
  "call f = State (\<lambda>w.
     let sh = interfered w in
     case w_fault w (w_step w) of
       Refused e \<Rightarrow> (Inl e, after_step sh w)
     | Unacknowledged e \<Rightarrow> (Inl e, after_step (snd (f (w_clock w (w_step w)) sh)) w)
     | Executed \<Rightarrow> (case f (w_clock w (w_step w)) sh of (r, sh') \<Rightarrow> (r, after_step sh' w)))"

text \<open>A call of the store, of the queue, of the limiter, of the SMTP client.\<close>

definition on_db :: "'a dbop \<Rightarrow> go_time \<Rightarrow> shared \<Rightarrow> 'a result \<times> shared" where
  "on_db op t sh = (case op t (sh_db sh) of (r, d) \<Rightarrow> (r, sh\<lparr>sh_db := d\<rparr>))"

definition store :: "'a dbop \<Rightarrow> 'a result io" where
  "store op = call (on_db op)"

definition on_queue :: "(redis_queue \<Rightarrow> redis_queue) \<Rightarrow> go_time \<Rightarrow> shared \<Rightarrow> unit result \<times> shared" where
  "on_queue f t sh = (Inr (), sh\<lparr>sh_queue := f (sh_queue sh)\<rparr>)"

definition queue :: "(redis_queue \<Rightarrow> redis_queue) \<Rightarrow> unit result io" where
  "queue f = call (on_queue f)"

definition limiter_Allow :: "RedisLimiter \<Rightarrow> (go_time \<Rightarrow> string) \<Rightarrow> int \<Rightarrow> string \<Rightarrow> (bool \<times> string) result io" where
  "limiter_Allow l fmt ws recipientDomain = State (\<lambda>w.
     let sh = interfered w in
     case Allow l fmt (w_redis w (w_step w)) ws recipientDomain (w_clock w (w_step w)) (sh_limits sh) of
       (r, cs) \<Rightarrow> (r, after_step (sh\<lparr>sh_limits := cs\<rparr>) w))"

definition on_wire :: "(relay \<Rightarrow> unit result \<times> wire list) \<Rightarrow> unit result io" where
  "on_wire f = State (\<lambda>w.
     case f (w_relay w (w_step w)) of
       (r, log) \<Rightarrow> (r, after_wire log w))"

definition smtp_send :: "Client \<Rightarrow> Credentials \<Rightarrow> string \<Rightarrow> string \<Rightarrow> string \<Rightarrow> unit result io" where
  "smtp_send c creds toEmail subject body = on_wire (\<lambda>rel. Send c rel creds toEmail subject body)"

definition smtp_validate :: "Client \<Rightarrow> Credentials \<Rightarrow> unit result io" where
  "smtp_validate c creds = on_wire (\<lambda>rel. Validate c rel creds)"

definition time_Now :: "go_time io" where
  "time_Now = State (\<lambda>w. (w_clock w (w_step w), after_step (interfered w) w))"

definition rand_Read :: "string result io" where
  "rand_Read = State (\<lambda>w. (w_random w (w_step w), after_step (interfered w) w))"

definition time_Sleep :: "unit io" where
  "time_Sleep = State (\<lambda>w. ((), after_step (interfered w) w))"

subsection \<open>Relations between the worlds before and after\<close>

definition same_env :: "world \<Rightarrow> world \<Rightarrow> bool" where
  "same_env w w' \<longleftrightarrow> w_other w' = w_other w \<and> w_clock w' = w_clock w \<and> w_fault w' = w_fault w \<and>
     w_relay w' = w_relay w \<and> w_random w' = w_random w \<and> w_redis w' = w_redis w"

definition silent :: "world \<Rightarrow> world \<Rightarrow> bool" where
  "silent w w' \<longleftrightarrow> same_env w w' \<and> w_wire w' = w_wire w \<and> (\<exists>tr. w_trace w' = w_trace w @ tr \<and> (\<forall>x \<in> set tr. tr_log x = []))"

definition others :: "(shared \<Rightarrow> shared \<Rightarrow> bool) \<Rightarrow> world \<Rightarrow> bool" where
  "others S w \<longleftrightarrow> (\<forall>n sh. S sh (w_other w n sh))"

text \<open>
  Each step met what the others had made of what the step before had left, and each is within the
  relation.
\<close>

fun meets :: "(nat \<Rightarrow> shared \<Rightarrow> shared) \<Rightarrow> nat \<Rightarrow> shared \<Rightarrow> transition list \<Rightarrow> shared \<Rightarrow> bool" where
  "meets other n sh [] sh' \<longleftrightarrow> sh' = sh"
| "meets other n sh (x # tr) sh' \<longleftrightarrow> tr_before x = other n sh \<and> meets other (Suc n) (tr_after x) tr sh'"

definition stepwise :: "(shared \<Rightarrow> shared \<Rightarrow> bool) \<Rightarrow> world \<Rightarrow> world \<Rightarrow> bool" where
  "stepwise S w w' \<longleftrightarrow> (\<exists>tr. w_trace w' = w_trace w @ tr \<and> w_step w' = w_step w + length tr \<and>
     meets (w_other w) (w_step w) (w_shared w) tr (w_shared w') \<and> (\<forall>x \<in> set tr. S (tr_before x) (tr_after x)))"

definition moves :: "(shared \<Rightarrow> shared \<Rightarrow> bool) \<Rightarrow> world \<Rightarrow> world \<Rightarrow> bool" where
  "moves S w w' \<longleftrightarrow> same_env w w' \<and> (others S w \<longrightarrow> S (w_shared w) (w_shared w')) \<and> stepwise S w w'"

text \<open>A world with no other process and no faults.\<close>

definition alone :: "world \<Rightarrow> bool" where
  "alone w \<longleftrightarrow> w_other w = (\<lambda>n sh. sh)"

definition faultless :: "world \<Rightarrow> bool" where
  "faultless w \<longleftrightarrow> w_fault w = (\<lambda>n. Executed)"

section \<open>Frame rules of the calls\<close>

interpretation silent: frame_relation silent
  by unfold_locales (fastforce simp: silent_def same_env_def)+

lemma silent_call [intro]: "state_io_rel silent (call f)"
  by (simp add: state_io_rel_def call_def silent_def same_env_def after_step_def Let_def split: fault.split prod.split)

lemma silent_calls [intro]:
  "state_io_rel silent (store op)" "state_io_rel silent (queue g)"
  "state_io_rel silent time_Now" "state_io_rel silent rand_Read" "state_io_rel silent time_Sleep"
  "state_io_rel silent (limiter_Allow l fmt ws rd)"
  by (simp_all add: store_def queue_def silent_call)
     (simp_all add: state_io_rel_def time_Now_def rand_Read_def time_Sleep_def limiter_Allow_def silent_def
        same_env_def after_step_def Let_def split: prod.split)

lemma meets_append:
  "meets other n sh (tr @ tr') sh'' \<longleftrightarrow> (\<exists>sh'. meets other n sh tr sh' \<and> meets other (n + length tr) sh' tr' sh'')"
  by (induction tr arbitrary: n sh) auto

locale shared_relation = frame_relation S for S :: "shared \<Rightarrow> shared \<Rightarrow> bool"
begin

lemma stepwise_refl: "stepwise S w w"
  by (simp add: stepwise_def)

lemma stepwise_trans:
  assumes "w_other w' = w_other w" and "stepwise S w w'" and "stepwise S w' w''"
  shows "stepwise S w w''"
proof -
  from assms(2) obtain tr where tr: "w_trace w' = w_trace w @ tr" "w_step w' = w_step w + length tr"
    "meets (w_other w) (w_step w) (w_shared w) tr (w_shared w')" "\<forall>x \<in> set tr. S (tr_before x) (tr_after x)"
    unfolding stepwise_def by blast
  from assms(3) obtain tr' where tr': "w_trace w'' = w_trace w' @ tr'" "w_step w'' = w_step w' + length tr'"
    "meets (w_other w') (w_step w') (w_shared w') tr' (w_shared w'')" "\<forall>x \<in> set tr'. S (tr_before x) (tr_after x)"
    unfolding stepwise_def by blast
  have "meets (w_other w) (w_step w) (w_shared w) (tr @ tr') (w_shared w'')"
    using tr(2,3) tr'(3) assms(1) by (auto simp: meets_append)
  with tr tr' show ?thesis unfolding stepwise_def by (intro exI [of _ "tr @ tr'"]) auto
qed

lemma moves_refl: "moves S w w"
  by (simp add: moves_def same_env_def refl stepwise_refl)

lemma moves_trans: "moves S w w' \<Longrightarrow> moves S w' w'' \<Longrightarrow> moves S w w''"
  using stepwise_trans [of w' w w''] unfolding moves_def same_env_def others_def by (metis trans)

end

sublocale shared_relation \<subseteq> world: frame_relation "moves S"
  by unfold_locales (auto intro: moves_refl moves_trans)

context shared_relation
begin

lemma moves_step:
  assumes "same_env w w'" and "S (interfered w) (w_shared w')" and "w_step w' = Suc (w_step w)"
    and "\<exists>log. w_trace w' = w_trace w @ [\<lparr>tr_before = interfered w, tr_after = w_shared w', tr_log = log\<rparr>]"
  shows "moves S w w'"
proof -
  have "stepwise S w w'" using assms(2-4) by (auto simp: stepwise_def interfered_def)
  moreover have "S (w_shared w) (w_shared w')" if "others S w"
    using that assms(2) unfolding others_def interfered_def by (metis trans)
  ultimately show ?thesis using assms(1) by (simp add: moves_def)
qed

lemma moves_call:
  assumes "\<And>t sh. S sh (snd (f t sh))"
  shows "state_io_rel (moves S) (call f)"
proof (rule state_io_relI)
  fix w r w'
  assume run: "run_state (call f) w = (r, w')"
  have "S (interfered w) (w_shared w')"
    using run assms [of "interfered w" "w_clock w (w_step w)"] refl
    by (auto simp: call_def Let_def after_step_def split: fault.splits prod.splits)
  moreover have "same_env w w'" "w_step w' = Suc (w_step w)" "w_trace w' = w_trace w @ [\<lparr>tr_before = interfered w, tr_after = w_shared w', tr_log = []\<rparr>]"
    using run by (auto simp: call_def Let_def after_step_def same_env_def split: fault.splits prod.splits)
  ultimately show "moves S w w'" by (intro moves_step exI)
qed

lemma moves_store:
  assumes "\<And>t sh. S sh (sh\<lparr>sh_db := snd (op t (sh_db sh))\<rparr>)"
  shows "state_io_rel (moves S) (store op)"
  unfolding store_def
  by (rule moves_call) (use assms in \<open>simp add: on_db_def split: prod.split\<close>, metis snd_conv)

lemma moves_queue:
  assumes "\<And>sh. S sh (sh\<lparr>sh_queue := g (sh_queue sh)\<rparr>)"
  shows "state_io_rel (moves S) (queue g)"
  unfolding queue_def by (rule moves_call) (simp add: on_queue_def assms)

lemma moves_limiter:
  assumes "\<And>sh cs. S sh (sh\<lparr>sh_limits := cs\<rparr>)"
  shows "state_io_rel (moves S) (limiter_Allow l fmt ws rd)"
  by (rule state_io_relI, rule moves_step)
     (auto simp: limiter_Allow_def after_step_def same_env_def Let_def assms split: prod.splits)

lemma moves_env:
  "state_io_rel (moves S) time_Now" "state_io_rel (moves S) rand_Read" "state_io_rel (moves S) time_Sleep"
  "state_io_rel (moves S) (on_wire g)"
  by (rule state_io_relI, rule moves_step,
      auto simp: time_Now_def rand_Read_def time_Sleep_def on_wire_def after_step_def after_wire_def same_env_def refl
        split: prod.splits)+

end

end
