(* ===== verification/Message_Service.thy ===== *)
theory Message_Service
  imports World "HOL-Library.Word"
begin

text \<open>
  The message service (\<open>src/internal/service/message_service.go\<close>): queueing, processing, retries,
  recovery, SMTP accounts and policies, as routines over the world. The dynamic checks of what the
  store and the queue implement (\<open>s.store.(MessageRecoveryStore)\<close>, \<open>s.queue.(RetryScheduler)\<close>)
  are fields of the service record; AES-GCM, the JSON text of an account and the server's JSONB
  parser are parameters in it.
\<close>

section \<open>Definitions: the service\<close>

datatype queue_kind = NilQueue | PlainQueue | SchedulerQueue

record MessageService =
  svc_recovery_store :: bool
  svc_retry_at_store :: bool
  svc_atomic_store :: bool
  svc_queue :: queue_kind
  svc_sender :: Client
  svc_sealer :: AEAD
  svc_marshal :: "SMTPAccount \<Rightarrow> string"
  svc_unmarshal :: "string \<Rightarrow> SMTPAccount result"
  svc_jsonb :: "string \<Rightarrow> bool"
  svc_limiter :: RedisLimiter
  svc_fmt_hour :: "go_time \<Rightarrow> string"
  svc_blockedRecipientDomains :: "string list"
  svc_maxAttempts :: int
  svc_webhookApplyMaxAttempts :: int
  svc_defaultWorkspaceRate :: int
  svc_defaultDomainRate :: int
  svc_autoFailoverEnabled :: bool
  svc_autoFailoverFailures :: int
  svc_autoFailoverWindow :: duration
  svc_autoFailoverCooldown :: duration

definition NewMessageService :: "MessageService \<Rightarrow> MessageService" where
  "NewMessageService s =
     (let s = (if svc_maxAttempts s < 1 then s\<lparr>svc_maxAttempts := 1\<rparr> else s);
          s = (if svc_webhookApplyMaxAttempts s < 1 then s\<lparr>svc_webhookApplyMaxAttempts := 1\<rparr> else s);
          s = (if svc_autoFailoverFailures s < 1 then s\<lparr>svc_autoFailoverFailures := 1\<rparr> else s);
          s = (if svc_autoFailoverWindow s \<le> 0 then s\<lparr>svc_autoFailoverWindow := 5 * Minute\<rparr> else s);
          s = (if svc_autoFailoverCooldown s < 0 then s\<lparr>svc_autoFailoverCooldown := 0\<rparr> else s)
      in s)"

section \<open>Definitions: pure helpers\<close>

definition extractDomain :: "string \<Rightarrow> string" where
  "extractDomain email =
     (case after_last (CHR ''@'') email of
        None \<Rightarrow> []
      | Some d \<Rightarrow> if d = [] then [] else ToLower (TrimSpace d))"

text \<open>
  \<open>1 << n\<close> on Go's \<open>int\<close> and the product of a \<open>time.Duration\<close>: 64 bits, wrapping.
\<close>

definition shift_one :: "int \<Rightarrow> int" where
  "shift_one n = sint (push_bit (nat n) (1 :: 64 word))"

definition duration_mult :: "int \<Rightarrow> duration \<Rightarrow> duration" where
  "duration_mult a b = sint (word_of_int a * word_of_int b :: 64 word)"

definition backoffDuration :: "int \<Rightarrow> duration" where
  "backoffDuration attemptNo =
     (let attemptNo = (if attemptNo < 1 then 1 else attemptNo);
          seconds = shift_one (attemptNo - 1);
          seconds = (if seconds > 32 then 32 else seconds)
      in duration_mult seconds Second)"

definition webhookBackoffDuration :: "int \<Rightarrow> duration" where
  "webhookBackoffDuration attemptNo =
     (let attemptNo = (if attemptNo < 1 then 1 else attemptNo);
          seconds = shift_one (attemptNo - 1);
          seconds = (if seconds > 8 then 8 else seconds)
      in duration_mult seconds Second)"

fun normalize_ids :: "int set \<Rightarrow> int list \<Rightarrow> int list" where
  "normalize_ids seen [] = []"
| "normalize_ids seen (i # ids) =
     (if i \<le> 0 then normalize_ids seen ids
      else if i \<in> seen then normalize_ids seen ids
      else i # normalize_ids (insert i seen) ids)"

definition normalizePositiveIDs :: "int list \<Rightarrow> int list" where
  "normalizePositiveIDs ids = normalize_ids {} ids"

fun normalize_domains :: "string set \<Rightarrow> string list \<Rightarrow> string list" where
  "normalize_domains seen [] = []"
| "normalize_domains seen (d # ds) =
     (let v = ToLower (TrimSpace d) in
      if v = [] then normalize_domains seen ds
      else if v \<in> seen then normalize_domains seen ds
      else v # normalize_domains (insert v seen) ds)"

definition normalizeDomains :: "string list \<Rightarrow> string list" where
  "normalizeDomains ds = normalize_domains {} ds"

fun isBlockedDomain :: "string list \<Rightarrow> string \<Rightarrow> bool" where
  "isBlockedDomain [] target = False"
| "isBlockedDomain (d # ds) target =
     (if ToLower (TrimSpace d) = ToLower (TrimSpace target) then True else isBlockedDomain ds target)"

text \<open>
  The text of an error. \<open>ErrRateLimited reason\<close> is \<open>fmt.Errorf("%w: %s", ErrRateLimited, reason)\<close>.
\<close>

fun Error_text :: "go_error \<Rightarrow> string" where
  "Error_text ErrBadRequest = ''bad request''"
| "Error_text (ErrRateLimited reason) = ''rate limited: '' @ reason"
| "Error_text ErrBlockedRecipientDomain = ''blocked recipient domain''"
| "Error_text ErrMessageClaimLost = ''message processing claim was lost''"
| "Error_text ErrMessageNotFound = ''message not found''"
| "Error_text (ErrConstraint s) = s"
| "Error_text (ErrDriver s) = s"
| "Error_text (ErrText s) = s"
| "Error_text (ErrJoin a b) = Error_text a @ [CHR 0x0A] @ Error_text b"

text \<open>\<open>errors.Is\<close> against one of the sentinel errors.\<close>

fun errors_Is :: "(go_error \<Rightarrow> bool) \<Rightarrow> go_error \<Rightarrow> bool" where
  "errors_Is p (ErrJoin a b) \<longleftrightarrow> errors_Is p a \<or> errors_Is p b"
| "errors_Is p e \<longleftrightarrow> p e"

definition is_ErrRateLimited :: "go_error \<Rightarrow> bool" where
  "is_ErrRateLimited e \<longleftrightarrow> (case e of ErrRateLimited _ \<Rightarrow> True | _ \<Rightarrow> False)"

fun index_of :: "string \<Rightarrow> string \<Rightarrow> string option" where
  "index_of p [] = (if p = [] then Some [] else None)"
| "index_of p (c # s) = (if HasPrefix (c # s) p then Some (drop (length p) (c # s)) else index_of p s)"

definition RateLimitReason :: "go_error option \<Rightarrow> string" where
  "RateLimitReason err =
     (let fallback = ''rate_limit_exceeded'' in
      case err of
        None \<Rightarrow> fallback
      | Some e \<Rightarrow>
          if \<not> errors_Is is_ErrRateLimited e then fallback
          else (case index_of '': '' (Error_text e) of
                  None \<Rightarrow> fallback
                | Some rest \<Rightarrow> if rest = [] then fallback
                              else if TrimSpace rest = [] then fallback else TrimSpace rest))"

definition FormatQueueError :: "go_error option \<Rightarrow> string" where
  "FormatQueueError err =
     (case err of
        None \<Rightarrow> []
      | Some e \<Rightarrow>
          if errors_Is (\<lambda>x. x = ErrBlockedRecipientDomain) e then ''blocked_recipient_domain''
          else if errors_Is is_ErrRateLimited e then ''rate_limited:'' @ RateLimitReason (Some e)
          else if errors_Is (\<lambda>x. x = ErrBadRequest) e then ''bad_request''
          else ''internal_error'')"

text \<open>\<open>errors.Join\<close> of an error with the outcome of another call, which may be \<open>nil\<close>.\<close>

definition errors_Join :: "go_error \<Rightarrow> 'a result \<Rightarrow> go_error" where
  "errors_Join e r = (case r of Inl e' \<Rightarrow> ErrJoin e e' | Inr _ \<Rightarrow> e)"

text \<open>
  \<open>json.Marshal\<close> of a map of strings with two keys in sorted order, the only maps
  \<open>jsonMetadata\<close> is called with; bytes above ASCII stand for valid UTF-8 and are kept.
\<close>

definition json_char :: "char \<Rightarrow> string" where
  "json_char c =
     (let n = (of_char c :: int) in
      if n = 34 then [CHR 0x5C, CHR 0x22] else if n = 92 then [CHR 0x5C, CHR 0x5C]
      else if n = 8 then [CHR 0x5C, CHR ''b''] else if n = 12 then [CHR 0x5C, CHR ''f'']
      else if n = 10 then [CHR 0x5C, CHR ''n''] else if n = 13 then [CHR 0x5C, CHR ''r'']
      else if n = 9 then [CHR 0x5C, CHR ''t'']
      else if n < 32 \<or> n = 38 \<or> n = 60 \<or> n = 62
      then [CHR 0x5C, CHR ''u'', CHR ''0'', CHR ''0'', hex_digit (n div 16), hex_digit (n mod 16)]
      else [c])"

definition json_string :: "string \<Rightarrow> string" where
  "json_string s = [CHR 0x22] @ concat (map json_char s) @ [CHR 0x22]"

definition jsonMetadata :: "(string \<times> string) list \<Rightarrow> string" where
  "jsonMetadata kvs =
     (if kvs = [] then []
      else ''{'' @ Join (map (\<lambda>(k, v). json_string k @ '':'' @ json_string v) kvs) '','' @ ''}'')"

definition provider_metadata :: "string \<Rightarrow> string" where
  "provider_metadata provider = [CHR ''{'', CHR 0x22] @ ''provider'' @ [CHR 0x22, CHR '':'', CHR 0x22] @ provider @
     [CHR 0x22, CHR ''}'']"

definition source_metadata :: "string \<Rightarrow> string" where
  "source_metadata src = [CHR ''{'', CHR 0x22] @ ''source'' @ [CHR 0x22, CHR '':'', CHR 0x22] @ src @
     [CHR 0x22, CHR ''}'']"

section \<open>Definitions: sending\<close>

text \<open>\<open>s.queue.Enqueue\<close>; calling it on a nil queue panics.\<close>

definition nil_queue_panic :: go_error where
  "nil_queue_panic = ErrText ''panic: nil pointer dereference''"

definition queue_Enqueue :: "MessageService \<Rightarrow> int \<Rightarrow> unit result io" where
  "queue_Enqueue s i =
     (if svc_queue s = NilQueue then State_Monad.return (Inl nil_queue_panic) else queue (Enqueue i))"

definition meter :: "MessageService \<Rightarrow> int \<Rightarrow> int \<Rightarrow> string \<Rightarrow> string \<Rightarrow> unit result io" where
  "meter s ws messageID eventType metadata =
     store (InsertMeteringEvent (svc_jsonb s) ws messageID eventType 1 metadata)"

definition workspacePolicy :: "MessageService \<Rightarrow> int \<Rightarrow> WorkspacePolicy result io" where
  "workspacePolicy s workspaceID = do {
     let workspaceID = (if workspaceID = 0 then 1 else workspaceID);
     r \<leftarrow> store (GetWorkspacePolicy workspaceID);
     case r of
       Inl e \<Rightarrow> State_Monad.return (Inl e)
     | Inr (Some policy) \<Rightarrow>
         State_Monad.return (Inr (policy\<lparr>pol_BlockedRecipientDomains :=
           normalizeDomains (pol_BlockedRecipientDomains policy)\<rparr>))
     | Inr None \<Rightarrow>
         State_Monad.return (Inr \<lparr>pol_WorkspaceID = workspaceID,
           pol_RateLimitWorkspacePerHour = svc_defaultWorkspaceRate s,
           pol_RateLimitDomainPerHour = svc_defaultDomainRate s,
           pol_BlockedRecipientDomains = normalizeDomains (svc_blockedRecipientDomains s)\<rparr>) }"

text \<open>
  The two policy limits of \<open>QueueMessage\<close> (lines 191-199 and 200-208) differ in the limit, the
  domain counted and the reason.
\<close>

definition policy_limit :: "int \<Rightarrow> int \<Rightarrow> string \<Rightarrow> string \<Rightarrow> unit result io" where
  "policy_limit limit workspaceID recipientDomain reason =
     (if limit > 0 then do {
        now \<leftarrow> time_Now;
        r \<leftarrow> store (CountMessagesSince workspaceID recipientDomain (now - 1 * Hour));
        case r of
          Inl e \<Rightarrow> State_Monad.return (Inl e)
        | Inr count \<Rightarrow> State_Monad.return (if count \<ge> limit then Inl (ErrRateLimited reason) else Inr ()) }
      else State_Monad.return (Inr ()))"

text \<open>The second half of \<open>QueueMessage\<close>, from the suppression checks on (lines 226-274).\<close>

definition admit_message :: "MessageService \<Rightarrow> int \<Rightarrow> string \<Rightarrow> string \<Rightarrow> string \<Rightarrow> string \<Rightarrow> Message result io" where
  "admit_message s workspaceID fromEmail toEmail subject body = do {
     r \<leftarrow> store (IsSuppressed workspaceID toEmail);
     case r of Inl e \<Rightarrow> State_Monad.return (Inl e) | Inr suppressed \<Rightarrow> do {
     r \<leftarrow> store (IsUnsubscribed workspaceID toEmail);
     case r of Inl e \<Rightarrow> State_Monad.return (Inl e) | Inr unsubscribed \<Rightarrow> do {
     r \<leftarrow> store (CreateMessage \<lparr>msg_ID = 0, msg_WorkspaceID = workspaceID, msg_FromEmail = fromEmail,
            msg_ToEmail = toEmail, msg_Subject = subject, msg_BodyText = body,
            msg_Status = (if suppressed \<or> unsubscribed then ''suppressed'' else ''queued''),
            msg_ScheduledAt = None, msg_CreatedAt = zero_time, msg_UpdatedAt = zero_time\<rparr>);
     case r of Inl e \<Rightarrow> State_Monad.return (Inl e) | Inr m \<Rightarrow>
     if suppressed \<or> unsubscribed then do {
       _ \<leftarrow> meter s workspaceID (msg_ID m) ''message_suppressed'' (source_metadata ''queue_message'');
       State_Monad.return (Inr m) }
     else do {
       r \<leftarrow> queue_Enqueue s (msg_ID m);
       case r of Inl e \<Rightarrow> State_Monad.return (Inl e) | Inr _ \<Rightarrow> do {
       _ \<leftarrow> meter s workspaceID (msg_ID m) ''message_queued'' (source_metadata ''queue_message'');
       State_Monad.return (Inr m) }}}}}"

definition QueueMessage :: "MessageService \<Rightarrow> int \<Rightarrow> string \<Rightarrow> string \<Rightarrow> string \<Rightarrow> string \<Rightarrow> Message result io" where
  "QueueMessage s workspaceID fromEmail toEmail subject body =
     (let recipientDomain = extractDomain toEmail in
      if recipientDomain = [] then State_Monad.return (Inl ErrBadRequest)
      else do {
        r \<leftarrow> workspacePolicy s workspaceID;
        case r of Inl e \<Rightarrow> State_Monad.return (Inl e) | Inr policy \<Rightarrow> do {
        r \<leftarrow> policy_limit (pol_RateLimitWorkspacePerHour policy) workspaceID [] ''tenant_workspace_policy_limit'';
        case r of Inl e \<Rightarrow> State_Monad.return (Inl e) | Inr _ \<Rightarrow> do {
        r \<leftarrow> policy_limit (pol_RateLimitDomainPerHour policy) workspaceID recipientDomain ''tenant_domain_policy_limit'';
        case r of Inl e \<Rightarrow> State_Monad.return (Inl e) | Inr _ \<Rightarrow>
        if isBlockedDomain (pol_BlockedRecipientDomains policy) recipientDomain
        then State_Monad.return (Inl ErrBlockedRecipientDomain)
        else if recipientDomain \<in> set (svc_blockedRecipientDomains s)
        then State_Monad.return (Inl ErrBlockedRecipientDomain)
        else do {
          r \<leftarrow> limiter_Allow (svc_limiter s) (svc_fmt_hour s) workspaceID recipientDomain;
          case r of
            Inl e \<Rightarrow> State_Monad.return (Inl e)
          | Inr (allowed, reason) \<Rightarrow>
              if \<not> allowed then State_Monad.return (Inl (ErrRateLimited reason))
              else admit_message s workspaceID fromEmail toEmail subject body }}}})"

definition scheduleRetryState :: "MessageService \<Rightarrow> int \<Rightarrow> go_time \<Rightarrow> unit result io" where
  "scheduleRetryState s messageID at = do {
     r \<leftarrow> (if svc_retry_at_store s then do {
             r \<leftarrow> store (SetMessageRetryAt messageID at);
             State_Monad.return (case r of
               Inl e \<Rightarrow> Inl e
             | Inr updated \<Rightarrow> if updated then Inr () else Inl ErrMessageClaimLost) }
           else store (SetMessageStatus messageID ''queued''));
     case r of
       Inl e \<Rightarrow> State_Monad.return (Inl e)
     | Inr _ \<Rightarrow> (case svc_queue s of
         SchedulerQueue \<Rightarrow> queue (ScheduleRetry messageID at)
       | NilQueue \<Rightarrow> State_Monad.return (Inl (ErrText ''message queue unavailable''))
       | PlainQueue \<Rightarrow> do {
           now \<leftarrow> time_Now;
           _ \<leftarrow> (if at - now > 0 then time_Sleep else State_Monad.return ());
           queue (Enqueue messageID) }) }"

definition resolveCredentials :: "MessageService \<Rightarrow> int \<Rightarrow> Credentials result io" where
  "resolveCredentials s workspaceID = do {
     r \<leftarrow> store (GetSMTPAccountEncrypted workspaceID);
     State_Monad.return (case r of
       Inl e \<Rightarrow> Inl e
     | Inr None \<Rightarrow> Inr (DefaultCredentials (svc_sender s))
     | Inr (Some payload) \<Rightarrow>
         (case Open (svc_sealer s) payload of
            Inl e \<Rightarrow> Inl e
          | Inr decrypted \<Rightarrow>
              (case svc_unmarshal s decrypted of
                 Inl e \<Rightarrow> Inl e
               | Inr account \<Rightarrow>
                   Inr \<lparr>cr_Host = acc_Host account, cr_Port = acc_Port account,
                        cr_Username = acc_Username account, cr_Password = acc_Password account,
                        cr_From = acc_FromEmail account, cr_TLSMode = acc_TLSMode account\<rparr>))) }"

text \<open>
  The loop of \<open>tryAutoFailover\<close> over the accounts: the last active one and the first that is
  not.
\<close>

fun active_standby :: "SMTPAccountSummary option \<Rightarrow> SMTPAccountSummary option \<Rightarrow> SMTPAccountSummary list
    \<Rightarrow> SMTPAccountSummary option \<times> SMTPAccountSummary option" where
  "active_standby active standby [] = (active, standby)"
| "active_standby active standby (a # accounts) =
     (if sum_Active a then active_standby (Some a) standby accounts
      else active_standby active (if standby = None then Some a else standby) accounts)"

definition tryAutoFailover :: "MessageService \<Rightarrow> int \<Rightarrow> string \<Rightarrow> (bool \<times> string) result io" where
  "tryAutoFailover s workspaceID currentProvider =
     (if \<not> svc_autoFailoverEnabled s then State_Monad.return (Inr (False, []))
      else do {
        now \<leftarrow> time_Now;
        r \<leftarrow> store (CountFailedAttemptsByProviderSince workspaceID currentProvider
               (now - svc_autoFailoverWindow s));
        case r of Inl e \<Rightarrow> State_Monad.return (Inl e) | Inr failures \<Rightarrow>
        if failures < svc_autoFailoverFailures s then State_Monad.return (Inr (False, []))
        else do {
          r \<leftarrow> store (ListSMTPAccounts workspaceID);
          case r of Inl e \<Rightarrow> State_Monad.return (Inl e) | Inr accounts \<Rightarrow>
          if length accounts < 2 then State_Monad.return (Inr (False, []))
          else (case active_standby None None accounts of
              (Some active, Some standby) \<Rightarrow> do {
                now \<leftarrow> time_Now;
                if now - sum_UpdatedAt active < svc_autoFailoverCooldown s
                then State_Monad.return (Inr (False, []))
                else do {
                  r \<leftarrow> store (SetActiveSMTPAccount workspaceID (sum_Name standby));
                  State_Monad.return (case r of Inl e \<Rightarrow> Inl e | Inr _ \<Rightarrow> Inr (True, sum_Name standby)) }}
            | _ \<Rightarrow> State_Monad.return (Inr (False, []))) }})"

text \<open>\<open>ProcessOne\<close> in its parts: after the accepted send, after the failed send, and the whole.\<close>

definition record_sent :: "MessageService \<Rightarrow> Message \<Rightarrow> int \<Rightarrow> string \<Rightarrow> unit result io" where
  "record_sent s m attemptNo provider = do {
     r \<leftarrow> store (InsertAttempt (msg_ID m) attemptNo provider ''accepted by smtp server'' True);
     case r of
       Inl err \<Rightarrow> do {
         markErr \<leftarrow> store (SetMessageStatus (msg_ID m) ''unknown'');
         State_Monad.return (Inl (errors_Join err markErr)) }
     | Inr _ \<Rightarrow> do {
         _ \<leftarrow> meter s (msg_WorkspaceID m) (msg_ID m) ''message_sent'' (provider_metadata provider);
         r \<leftarrow> store (SetMessageStatus (msg_ID m) ''sent'');
         case r of
           Inl err \<Rightarrow> do {
             markErr \<leftarrow> store (SetMessageStatus (msg_ID m) ''unknown'');
             State_Monad.return (Inl (errors_Join err markErr)) }
         | Inr _ \<Rightarrow> State_Monad.return (Inr ()) }}"

definition record_failed :: "MessageService \<Rightarrow> Message \<Rightarrow> int \<Rightarrow> string \<Rightarrow> go_error \<Rightarrow> unit result io" where
  "record_failed s m attemptNo provider err = do {
     let safeErr = SMTPError (Error_text err);
     r \<leftarrow> store (InsertAttempt (msg_ID m) attemptNo provider safeErr False);
     case r of
       Inl insertErr \<Rightarrow> do {
         markErr \<leftarrow> store (SetMessageStatus (msg_ID m) ''unknown'');
         State_Monad.return (Inl (errors_Join insertErr markErr)) }
     | Inr _ \<Rightarrow> do {
         _ \<leftarrow> meter s (msg_WorkspaceID m) (msg_ID m) ''message_send_error''
               (jsonMetadata [(''error'', safeErr), (''provider'', provider)]);
         r \<leftarrow> tryAutoFailover s (msg_WorkspaceID m) provider;
         _ \<leftarrow> (case r of
                Inr (True, toProvider) \<Rightarrow>
                  meter s (msg_WorkspaceID m) (msg_ID m) ''provider_auto_failover''
                    (jsonMetadata [(''from'', provider), (''to'', toProvider)])
              | _ \<Rightarrow> State_Monad.return (Inr ()));
         if attemptNo \<ge> svc_maxAttempts s then do {
           _ \<leftarrow> meter s (msg_WorkspaceID m) (msg_ID m) ''message_failed'' (provider_metadata provider);
           r \<leftarrow> store (TransitionMessageStatus (msg_ID m) ''sending'' ''failed'');
           State_Monad.return (case r of
             Inl err \<Rightarrow> Inl err
           | Inr ok \<Rightarrow> if \<not> ok then Inl ErrMessageClaimLost else Inr ()) }
         else do {
           now \<leftarrow> time_Now;
           scheduleRetryState s (msg_ID m) (now + backoffDuration attemptNo) }}}"

text \<open>Putting a claimed message back after a failure before the send (lines 312-317, 320-325).\<close>

definition give_back :: "MessageService \<Rightarrow> Message \<Rightarrow> go_error \<Rightarrow> unit result io" where
  "give_back s m err = do {
     now \<leftarrow> time_Now;
     retryErr \<leftarrow> scheduleRetryState s (msg_ID m) (now + Minute);
     State_Monad.return (Inl (errors_Join err retryErr)) }"

definition send_claimed :: "MessageService \<Rightarrow> Message \<Rightarrow> unit result io" where
  "send_claimed s m = do {
     r \<leftarrow> store (NextAttemptNo (msg_ID m));
     case r of Inl err \<Rightarrow> give_back s m err | Inr attemptNo \<Rightarrow> do {
     r \<leftarrow> resolveCredentials s (msg_WorkspaceID m);
     case r of Inl err \<Rightarrow> give_back s m err | Inr creds \<Rightarrow> do {
     let provider = ProviderName creds;
     r \<leftarrow> smtp_send (svc_sender s) creds (msg_ToEmail m) (msg_Subject m) (msg_BodyText m);
     case r of
       Inr _ \<Rightarrow> record_sent s m attemptNo provider
     | Inl err \<Rightarrow> record_failed s m attemptNo provider err }}}"

definition ProcessOne :: "MessageService \<Rightarrow> int \<Rightarrow> unit result io" where
  "ProcessOne s messageID = do {
     r \<leftarrow> store (GetMessage messageID);
     case r of Inl err \<Rightarrow> State_Monad.return (Inl err) | Inr m \<Rightarrow>
     if msg_Status m = ''suppressed'' \<or> msg_Status m = ''sent'' then State_Monad.return (Inr ())
     else if msg_Status m \<noteq> ''queued'' then State_Monad.return (Inr ())
     else do {
       r \<leftarrow> store (IsSuppressed (msg_WorkspaceID m) (msg_ToEmail m));
       case r of Inl err \<Rightarrow> State_Monad.return (Inl err) | Inr suppressed \<Rightarrow> do {
       r \<leftarrow> store (IsUnsubscribed (msg_WorkspaceID m) (msg_ToEmail m));
       case r of Inl err \<Rightarrow> State_Monad.return (Inl err) | Inr unsubscribed \<Rightarrow>
       if suppressed \<or> unsubscribed then store (SetMessageStatus (msg_ID m) ''suppressed'')
       else do {
         r \<leftarrow> store (TransitionMessageStatus (msg_ID m) ''queued'' ''sending'');
         case r of Inl err \<Rightarrow> State_Monad.return (Inl err) | Inr ok \<Rightarrow>
         if \<not> ok then State_Monad.return (Inr ()) else send_claimed s m }}}}"

section \<open>Definitions: recovery, accounts, policies, retries\<close>

record MessageRecoveryResult =
  rec_Requeued :: int
  rec_MarkedUnknown :: int

fun requeue_all :: "MessageService \<Rightarrow> int list \<Rightarrow> MessageRecoveryResult \<Rightarrow> (go_error option \<times> MessageRecoveryResult) io" where
  "requeue_all s [] result = State_Monad.return (None, result)"
| "requeue_all s (i # ids) result = do {
     r \<leftarrow> queue_Enqueue s i;
     case r of
       Inl e \<Rightarrow> State_Monad.return (Some e, result)
     | Inr _ \<Rightarrow> requeue_all s ids (result\<lparr>rec_Requeued := rec_Requeued result + 1\<rparr>) }"

text \<open>\<open>RecoverQueue\<close> returns its counts together with the error.\<close>

definition RecoverQueue :: "MessageService \<Rightarrow> duration \<Rightarrow> duration \<Rightarrow> int
    \<Rightarrow> (go_error option \<times> MessageRecoveryResult) io" where
  "RecoverQueue s queuedGrace sendingLease limit =
     (let result = \<lparr>rec_Requeued = 0, rec_MarkedUnknown = 0\<rparr> in
      if \<not> svc_recovery_store s then State_Monad.return (None, result)
      else do {
        let queuedGrace = (if queuedGrace \<le> 0 then 30 * Second else queuedGrace);
        let sendingLease = (if sendingLease \<le> 0 then 15 * Minute else sendingLease);
        let limit = (if limit \<le> 0 then 100 else limit);
        now \<leftarrow> time_Now;
        r \<leftarrow> store (MarkStaleSendingUnknown (now - sendingLease));
        case r of Inl e \<Rightarrow> State_Monad.return (Some e, result) | Inr unknown \<Rightarrow> do {
        let result = result\<lparr>rec_MarkedUnknown := unknown\<rparr>;
        now \<leftarrow> time_Now;
        r \<leftarrow> store (ClaimQueuedMessagesForRecovery (now - queuedGrace) limit);
        case r of Inl e \<Rightarrow> State_Monad.return (Some e, result) | Inr ids \<Rightarrow>
        if length ids > 0 \<and> svc_queue s = NilQueue
        then State_Monad.return (Some (ErrText ''message queue unavailable''), result)
        else requeue_all s ids result }})"

text \<open>The method of the store is two statements, each a call of its own.\<close>

definition UpsertSMTPAccountEncrypted :: "int \<Rightarrow> string \<Rightarrow> string \<Rightarrow> unit result io" where
  "UpsertSMTPAccountEncrypted workspaceID name encryptedPayload = do {
     r \<leftarrow> store (smtp_account_exists workspaceID);
     case r of
       Inl e \<Rightarrow> State_Monad.return (Inl e)
     | Inr exists \<Rightarrow> store (smtp_account_upsert workspaceID name encryptedPayload (\<not> exists)) }"

definition UpsertSMTPAccount :: "MessageService \<Rightarrow> SMTPAccount \<Rightarrow> unit result io" where
  "UpsertSMTPAccount s account =
     (case NormalizeTLSMode (acc_TLSMode account) of
        Inl e \<Rightarrow> State_Monad.return (Inl e)
      | Inr mode \<Rightarrow>
          if mode = TLSModeNone \<and> (acc_Username account \<noteq> [] \<or> acc_Password account \<noteq> [])
          then State_Monad.return (Inl ErrAuthTLS)
          else do {
            let account = account\<lparr>acc_TLSMode := mode\<rparr>;
            nonce \<leftarrow> rand_Read;
            case Seal (svc_sealer s) nonce (svc_marshal s account) of
              Inl e \<Rightarrow> State_Monad.return (Inl e)
            | Inr encrypted \<Rightarrow>
                UpsertSMTPAccountEncrypted (acc_WorkspaceID account) (acc_Name account) encrypted })"

definition ValidateSMTPAccount :: "MessageService \<Rightarrow> int \<Rightarrow> string result io" where
  "ValidateSMTPAccount s workspaceID = do {
     r \<leftarrow> resolveCredentials s workspaceID;
     case r of Inl e \<Rightarrow> State_Monad.return (Inl e) | Inr creds \<Rightarrow> do {
     r \<leftarrow> smtp_validate (svc_sender s) creds;
     State_Monad.return (case r of Inl e \<Rightarrow> Inl e | Inr _ \<Rightarrow> Inr (ProviderName creds)) }}"

definition service_UpsertWorkspacePolicy :: "MessageService \<Rightarrow> WorkspacePolicy \<Rightarrow> unit result io" where
  "service_UpsertWorkspacePolicy s policy =
     (let policy = (if pol_WorkspaceID policy = 0 then policy\<lparr>pol_WorkspaceID := 1\<rparr> else policy);
          policy = (if pol_RateLimitWorkspacePerHour policy < 1
                    then policy\<lparr>pol_RateLimitWorkspacePerHour := svc_defaultWorkspaceRate s\<rparr> else policy);
          policy = (if pol_RateLimitDomainPerHour policy < 1
                    then policy\<lparr>pol_RateLimitDomainPerHour := svc_defaultDomainRate s\<rparr> else policy);
          policy = policy\<lparr>pol_BlockedRecipientDomains := normalizeDomains (pol_BlockedRecipientDomains policy)\<rparr>
      in store (UpsertWorkspacePolicy policy))"

definition retry_outcome :: "int \<Rightarrow> string \<Rightarrow> string \<Rightarrow> MessageRetryResult \<Rightarrow> MessageRetryResult" where
  "retry_outcome i status err out =
     out\<lparr>mrr_Outcomes := mrr_Outcomes out @ [\<lparr>mro_MessageID = i, mro_Status = status, mro_Error = err\<rparr>]\<rparr>"

definition retry_failed :: "int \<Rightarrow> string \<Rightarrow> MessageRetryResult \<Rightarrow> MessageRetryResult" where
  "retry_failed i err out = retry_outcome i ''failed'' err (out\<lparr>mrr_Failed := mrr_Failed out + 1\<rparr>)"

definition retry_skipped :: "int \<Rightarrow> string \<Rightarrow> MessageRetryResult \<Rightarrow> MessageRetryResult" where
  "retry_skipped i err out = retry_outcome i ''skipped'' err (out\<lparr>mrr_Skipped := mrr_Skipped out + 1\<rparr>)"

definition retryMessage :: "MessageService \<Rightarrow> int \<Rightarrow> Message \<Rightarrow> MessageRetryResult \<Rightarrow> MessageRetryResult io" where
  "retryMessage s workspaceID msg out =
     (if msg_WorkspaceID msg \<noteq> workspaceID
      then State_Monad.return (retry_failed (msg_ID msg) ''workspace mismatch'' out)
      else if msg_Status msg \<noteq> ''failed''
      then State_Monad.return (retry_skipped (msg_ID msg) ''only failed messages can be retried'' out)
      else do {
        r \<leftarrow> store (TransitionMessageStatus (msg_ID msg) ''failed'' ''queued'');
        case r of
          Inl e \<Rightarrow> State_Monad.return (retry_failed (msg_ID msg) ''status transition failed'' out)
        | Inr ok \<Rightarrow>
            if \<not> ok then State_Monad.return (retry_skipped (msg_ID msg) ''message no longer failed'' out)
            else if svc_queue s = NilQueue then do {
              _ \<leftarrow> store (SetMessageStatus (msg_ID msg) ''failed'');
              State_Monad.return (retry_failed (msg_ID msg) ''queue unavailable'' out) }
            else do {
              r \<leftarrow> queue_Enqueue s (msg_ID msg);
              case r of
                Inl e \<Rightarrow> do {
                  _ \<leftarrow> store (SetMessageStatus (msg_ID msg) ''failed'');
                  State_Monad.return (retry_failed (msg_ID msg) ''queue enqueue failed'' out) }
              | Inr _ \<Rightarrow> do {
                  _ \<leftarrow> meter s (msg_WorkspaceID msg) (msg_ID msg) ''message_retried''
                        (source_metadata ''manual_retry'');
                  State_Monad.return (retry_outcome (msg_ID msg) ''retried'' []
                    (out\<lparr>mrr_Retried := mrr_Retried out + 1\<rparr>)) }}})"

fun retry_ids :: "MessageService \<Rightarrow> int \<Rightarrow> int list \<Rightarrow> MessageRetryResult \<Rightarrow> MessageRetryResult io" where
  "retry_ids s workspaceID [] out = State_Monad.return out"
| "retry_ids s workspaceID (i # ids) out = do {
     r \<leftarrow> store (GetMessage i);
     out \<leftarrow> (case r of
              Inl e \<Rightarrow> State_Monad.return (retry_failed i ''message not found'' out)
            | Inr msg \<Rightarrow> retryMessage s workspaceID msg out);
     retry_ids s workspaceID ids out }"

fun retry_listed :: "MessageService \<Rightarrow> int \<Rightarrow> Message list \<Rightarrow> MessageRetryResult \<Rightarrow> MessageRetryResult io" where
  "retry_listed s workspaceID [] out = State_Monad.return out"
| "retry_listed s workspaceID (msg # msgs) out =
     (if msg_Status msg \<noteq> ''failed'' then retry_listed s workspaceID msgs out
      else do {
        out \<leftarrow> retryMessage s workspaceID msg (out\<lparr>mrr_Requested := mrr_Requested out + 1\<rparr>);
        retry_listed s workspaceID msgs out })"

definition RetryMessages :: "MessageService \<Rightarrow> int \<Rightarrow> int list \<Rightarrow> int \<Rightarrow> MessageRetryResult result io" where
  "RetryMessages s workspaceID messageIDs limit =
     (let workspaceID = (if workspaceID = 0 then 1 else workspaceID);
          retryIDs = normalizePositiveIDs messageIDs;
          out = \<lparr>mrr_WorkspaceID = workspaceID, mrr_Requested = 0, mrr_Retried = 0, mrr_Skipped = 0,
                 mrr_Failed = 0, mrr_ReplaySource = [], mrr_Outcomes = []\<rparr>
      in if length retryIDs > 0 then do {
           out \<leftarrow> retry_ids s workspaceID retryIDs
                   (out\<lparr>mrr_ReplaySource := ''ids'', mrr_Requested := int (length retryIDs)\<rparr>);
           State_Monad.return (Inr out) }
         else do {
           let limit = (if limit < 1 then 20 else limit);
           let limit = (if limit > 200 then 200 else limit);
           r \<leftarrow> store (ListMessages workspaceID limit zero_time zero_time);
           case r of
             Inl e \<Rightarrow> State_Monad.return (Inl e)
           | Inr messages \<Rightarrow> do {
               out \<leftarrow> retry_listed s workspaceID messages (out\<lparr>mrr_ReplaySource := ''latest_failed''\<rparr>);
               State_Monad.return (Inr out) }})"

section \<open>A small installation, for the witnesses\<close>

definition demo_service :: MessageService where
  "demo_service = NewMessageService
     \<lparr>svc_recovery_store = True, svc_retry_at_store = True, svc_atomic_store = True, svc_queue = SchedulerQueue,
      svc_sender = demo_client, svc_sealer = demo_aead, svc_marshal = (\<lambda>a. acc_Host a),
      svc_unmarshal = (\<lambda>t. Inl (ErrText t)), svc_jsonb = (\<lambda>t. True),
      svc_limiter = \<lparr>lim_workspacePerHour = 100, lim_recipientDomainPerHour = 50\<rparr>, svc_fmt_hour = (\<lambda>t. ''h''),
      svc_blockedRecipientDomains = [''bad.example''], svc_maxAttempts = 3, svc_webhookApplyMaxAttempts = 3,
      svc_defaultWorkspaceRate = 100, svc_defaultDomainRate = 50, svc_autoFailoverEnabled = True,
      svc_autoFailoverFailures = 1, svc_autoFailoverWindow = 0, svc_autoFailoverCooldown = 0\<rparr>"

definition demo_message :: "string \<Rightarrow> Message" where
  "demo_message status =
     \<lparr>msg_ID = 1, msg_WorkspaceID = 1, msg_FromEmail = ''a@example.com'', msg_ToEmail = ''b@example.org'',
      msg_Subject = ''hi'', msg_BodyText = ''text'', msg_Status = status, msg_ScheduledAt = None,
      msg_CreatedAt = 0, msg_UpdatedAt = 0\<rparr>"

definition demo_db :: "string \<Rightarrow> db" where
  "demo_db status = empty_db\<lparr>db_workspaces := [(1, ''default'')], db_workspace_seq := 1,
     db_messages := [demo_message status], db_message_seq := 1\<rparr>"

definition demo_world :: "db \<Rightarrow> relay \<Rightarrow> world" where
  "demo_world d rel =
     \<lparr>w_step = 0, w_clock = (\<lambda>n. int n * Second), w_fault = (\<lambda>n. Executed),
      w_redis = (\<lambda>n. \<lparr>env_incr = \<lambda>k. Executed, env_expire = \<lambda>k. True\<rparr>), w_relay = (\<lambda>n. rel),
      w_random = (\<lambda>n. Inr ''NN''), w_other = (\<lambda>n sh. sh),
      w_shared = \<lparr>sh_db = d, sh_queue = empty_queue, sh_limits = Map.empty\<rparr>, w_trace = [], w_wire = []\<rparr>"

end
