(* ===== verification/Service_Frames.thy ===== *)
theory Service_Frames
  imports Message_Service
begin

text \<open>
  What every routine of the message service guarantees to the processes beside it, whatever
  faults its calls meet. A guarantee is a reflexive and transitive relation on the shared state;
  the locale \<open>store_guarantee\<close> lists the state-changing calls the routines are built from and
  shows that a relation closed under them is kept by every routine. It is instantiated with the
  growth of the recipient lists and with the invariants of the tables.
\<close>

section \<open>Definitions\<close>

definition upd_db :: "(db \<Rightarrow> 'a result \<times> db) \<Rightarrow> shared \<Rightarrow> shared" where
  "upd_db f sh = sh\<lparr>sh_db := snd (f (sh_db sh))\<rparr>"

text \<open>
  Nobody leaves the recipient lists, and a message keeps its workspace and its recipient.
\<close>

definition grows :: "shared \<Rightarrow> shared \<Rightarrow> bool" where
  "grows sh sh' \<longleftrightarrow>
     dom (db_suppressions (sh_db sh)) \<subseteq> dom (db_suppressions (sh_db sh')) \<and>
     dom (db_unsubscribes (sh_db sh)) \<subseteq> dom (db_unsubscribes (sh_db sh')) \<and>
     (\<forall>i m. find_message i (sh_db sh) = Some m \<longrightarrow>
        (\<exists>m'. find_message i (sh_db sh') = Some m' \<and>
           msg_WorkspaceID m' = msg_WorkspaceID m \<and> msg_ToEmail m' = msg_ToEmail m))"

definition tables_ok :: "shared \<Rightarrow> bool" where
  "tables_ok sh \<longleftrightarrow> message_inv (sh_db sh) \<and> attempt_inv (sh_db sh) \<and> smtp_inv (sh_db sh)"

definition keeps_tables :: "shared \<Rightarrow> shared \<Rightarrow> bool" where
  "keeps_tables sh sh' \<longleftrightarrow> (tables_ok sh \<longrightarrow> tables_ok sh')"

section \<open>Routines within a guarantee\<close>

context shared_relation
begin

lemma store_within: "(\<And>t sh. S sh (upd_db (op t) sh)) \<Longrightarrow> state_io_rel (moves S) (store op)"
  unfolding upd_db_def by (rule moves_store)

lemma reads_within:
  assumes "\<And>t d. snd (op t d) = d"
  shows "state_io_rel (moves S) (store op)"
  by (rule moves_store) (simp add: assms refl)

lemma store_reads:
  "state_io_rel (moves S) (store (IsSuppressed ws e))" "state_io_rel (moves S) (store (IsUnsubscribed ws e))"
  "state_io_rel (moves S) (store (GetMessage i))" "state_io_rel (moves S) (store (NextAttemptNo i))"
  "state_io_rel (moves S) (store (GetSMTPAccountEncrypted ws))" "state_io_rel (moves S) (store (ListSMTPAccounts ws))"
  "state_io_rel (moves S) (store (CountFailedAttemptsByProviderSince ws p since))"
  "state_io_rel (moves S) (store (CountMessagesSince ws rd since))"
  "state_io_rel (moves S) (store (GetWorkspacePolicy ws))" "state_io_rel (moves S) (store (ListMessages ws lim from to))"
  by (rule reads_within,
      simp add: IsSuppressed_def IsUnsubscribed_def GetMessage_def NextAttemptNo_def GetSMTPAccountEncrypted_def
        ListSMTPAccounts_def CountFailedAttemptsByProviderSince_def CountMessagesSince_def GetWorkspacePolicy_def
        ListMessages_def Let_def split: option.split list.split)+

lemmas read_steps = world.within moves_env store_reads

lemma smtp_within: "state_io_rel (moves S) (smtp_send c creds to subj body)"
  "state_io_rel (moves S) (smtp_validate c creds)"
  unfolding smtp_send_def smtp_validate_def by (rule moves_env)+

lemma policy_within: "state_io_rel (moves S) (workspacePolicy s ws)"
  unfolding workspacePolicy_def by (intro read_steps)

lemma limit_within: "state_io_rel (moves S) (policy_limit lim ws rd reason)"
  unfolding policy_limit_def by (intro read_steps)

lemma credentials_within: "state_io_rel (moves S) (resolveCredentials s ws)"
  unfolding resolveCredentials_def by (intro read_steps)

end

text \<open>What taking in a message needs of a relation, what the recovery needs, and what all routines need.\<close>

locale queueing_guarantee = shared_relation S for S :: "shared \<Rightarrow> shared \<Rightarrow> bool" +
  assumes create: "msg_Status m = ''queued'' \<or> msg_Status m = ''suppressed'' \<Longrightarrow> S sh (upd_db (CreateMessage m t) sh)"
    and insert_metering: "S sh (upd_db (InsertMeteringEvent jsonb ws i et q md t) sh)"
    and enqueue: "S sh (sh\<lparr>sh_queue := Enqueue i (sh_queue sh)\<rparr>)"
    and limits: "S sh (sh\<lparr>sh_limits := cs\<rparr>)"
begin

lemma create_within:
  "msg_Status m = ''queued'' \<or> msg_Status m = ''suppressed'' \<Longrightarrow> state_io_rel (moves S) (store (CreateMessage m))"
  by (rule store_within) (rule create)

lemma meter_within: "state_io_rel (moves S) (meter s ws i et md)"
  unfolding meter_def by (rule store_within) (rule insert_metering)

lemma enqueue_within:
  "state_io_rel (moves S) (queue (Enqueue i))" "state_io_rel (moves S) (queue_Enqueue s i)"
  "state_io_rel (moves S) (limiter_Allow l fmt ws rd)"
  by (auto simp: queue_Enqueue_def intro: moves_queue moves_limiter enqueue limits world.within_return)

lemma admit_within: "state_io_rel (moves S) (admit_message s ws f t sj b)"
  unfolding admit_message_def by (intro read_steps create_within meter_within enqueue_within) simp_all

lemma queue_message_within: "state_io_rel (moves S) (QueueMessage s ws f t sj b)"
  unfolding QueueMessage_def by (intro read_steps policy_within limit_within admit_within enqueue_within)

end

locale recovery_guarantee = shared_relation S for S :: "shared \<Rightarrow> shared \<Rightarrow> bool" +
  assumes claim_recovery: "S sh (upd_db (ClaimQueuedMessagesForRecovery older lim t) sh)"
    and mark_stale: "S sh (upd_db (MarkStaleSendingUnknown older t) sh)"
    and put_back: "S sh (sh\<lparr>sh_queue := Enqueue i (sh_queue sh)\<rparr>)"
begin

lemma recovery_writes:
  "state_io_rel (moves S) (store (ClaimQueuedMessagesForRecovery older lim))"
  "state_io_rel (moves S) (store (MarkStaleSendingUnknown older))" "state_io_rel (moves S) (queue_Enqueue s i)"
  by (auto simp: queue_Enqueue_def intro: store_within moves_queue claim_recovery mark_stale put_back world.within_return)

lemma requeue_within: "state_io_rel (moves S) (requeue_all s ids res)"
  by (induction ids arbitrary: res) (simp_all, (intro read_steps recovery_writes | assumption)+)

lemma recover_within: "state_io_rel (moves S) (RecoverQueue s g l lim)"
  unfolding RecoverQueue_def by (intro read_steps recovery_writes requeue_within)

end

locale store_guarantee = queueing_guarantee S + recovery_guarantee S for S :: "shared \<Rightarrow> shared \<Rightarrow> bool" +
  assumes set_status: "S sh (upd_db (SetMessageStatus i st t) sh)"
    and retry_at: "S sh (upd_db (SetMessageRetryAt i at t) sh)"
    and transition: "S sh (upd_db (TransitionMessageStatus i st st' t) sh)"
    and insert_attempt: "S sh (upd_db (InsertAttempt i n p resp ok t) sh)"
    and set_active: "S sh (upd_db (SetActiveSMTPAccount ws name t) sh)"
    and upsert_policy: "S sh (upd_db (UpsertWorkspacePolicy pol t) sh)"
    and schedule: "S sh (sh\<lparr>sh_queue := ScheduleRetry i at (sh_queue sh)\<rparr>)"
begin

lemma store_writes:
  "state_io_rel (moves S) (store (SetMessageStatus i st))" "state_io_rel (moves S) (store (SetMessageRetryAt i at))"
  "state_io_rel (moves S) (store (TransitionMessageStatus i st st'))"
  "state_io_rel (moves S) (store (InsertAttempt i n p resp ok))"
  "state_io_rel (moves S) (store (SetActiveSMTPAccount ws name))" "state_io_rel (moves S) (store (UpsertWorkspacePolicy pol))"
  by (rule store_within, rule set_status retry_at transition insert_attempt set_active upsert_policy)+

lemma schedule_within: "state_io_rel (moves S) (queue (ScheduleRetry i at))"
  by (rule moves_queue) (rule schedule)

lemmas steps = world.within_return world.within_bind world.within_if world.within_sum world.within_option
  world.within_prod world.within_let moves_env store_reads store_writes meter_within enqueue_within schedule_within

lemma kind_within:
  assumes "state_io_rel R a" and "state_io_rel R b" and "state_io_rel R c"
  shows "state_io_rel R (case k of NilQueue \<Rightarrow> a | PlainQueue \<Rightarrow> b | SchedulerQueue \<Rightarrow> c)"
  using assms by (cases k) simp_all

lemma retry_state_within: "state_io_rel (moves S) (scheduleRetryState s i at)"
  unfolding scheduleRetryState_def by (intro steps kind_within)

lemma failover_within: "state_io_rel (moves S) (tryAutoFailover s ws p)"
  unfolding tryAutoFailover_def by (intro steps)

lemma record_sent_within: "state_io_rel (moves S) (record_sent s m n p)"
  unfolding record_sent_def by (intro steps)

lemma record_failed_within: "state_io_rel (moves S) (record_failed s m n p e)"
proof -
  have *: "state_io_rel (moves S) (case r of
      Inr (True, toProvider) \<Rightarrow> meter s ws i et (md toProvider) | _ \<Rightarrow> State_Monad.return (Inr ()))" for r ws i et md
    by (auto split: sum.split bool.split intro: steps)
  show ?thesis
    unfolding record_failed_def by (intro steps failover_within retry_state_within *)
qed

lemma give_back_within: "state_io_rel (moves S) (give_back s m e)"
  unfolding give_back_def by (intro steps retry_state_within)

lemma send_claimed_within: "state_io_rel (moves S) (send_claimed s m)"
  unfolding send_claimed_def
  by (intro steps give_back_within credentials_within smtp_within record_sent_within record_failed_within)

lemma process_within: "state_io_rel (moves S) (ProcessOne s i)"
  unfolding ProcessOne_def by (intro steps send_claimed_within)

lemma retry_message_within: "state_io_rel (moves S) (retryMessage s ws msg out)"
  unfolding retryMessage_def by (intro steps)

lemma retry_ids_within: "state_io_rel (moves S) (retry_ids s ws ids out)"
  by (induction ids arbitrary: out) (simp_all, (intro steps retry_message_within | assumption)+)

lemma retry_listed_within: "state_io_rel (moves S) (retry_listed s ws msgs out)"
  by (induction msgs arbitrary: out) (auto intro!: steps retry_message_within)

lemma retry_within: "state_io_rel (moves S) (RetryMessages s ws ids lim)"
  unfolding RetryMessages_def by (intro steps retry_ids_within retry_listed_within)

lemmas routines_within = queue_message_within process_within recover_within retry_within

end

section \<open>The recipient lists only grow\<close>

lemma find_message_create:
  assumes "find_message i d = Some m"
  shows "find_message i (snd (CreateMessage m' t d)) = Some m"
  using assms by (simp add: CreateMessage_def Let_def find_message_def find_append)

lemma grows_update:
  assumes "\<And>m. msg_ID (f m) = msg_ID m" "\<And>m. msg_WorkspaceID (f m) = msg_WorkspaceID m"
    "\<And>m. msg_ToEmail (f m) = msg_ToEmail m"
  shows "grows sh (sh\<lparr>sh_db := update_messages p f (sh_db sh)\<rparr>)"
  using assms by (auto simp: grows_def frame find_message_update)

lemma grows_same_messages:
  assumes "db_messages d = db_messages (sh_db sh)"
    and "dom (db_suppressions (sh_db sh)) \<subseteq> dom (db_suppressions d)"
    and "dom (db_unsubscribes (sh_db sh)) \<subseteq> dom (db_unsubscribes d)"
  shows "grows sh (sh\<lparr>sh_db := d\<rparr>)"
  using assms by (simp add: grows_def find_message_def)

interpretation grows: store_guarantee grows
proof
  show "grows sh sh" for sh by (simp add: grows_def)
  show "grows sh sh''" if "grows sh sh'" "grows sh' sh''" for sh sh' sh''
    using that unfolding grows_def by (metis (no_types, lifting) order_trans)
  show "grows sh (upd_db (CreateMessage m t) sh)" for sh m t
    unfolding grows_def upd_db_def
    by (auto simp: find_message_create) (simp_all add: CreateMessage_def Let_def domIff split: if_splits)
  show "grows sh (upd_db (InsertAttempt i n p resp ok t) sh)" for sh i n p resp ok t
    unfolding upd_db_def by (rule grows_same_messages) (auto simp: InsertAttempt_def)
  show "grows sh (upd_db (InsertMeteringEvent jsonb ws i et q md t) sh)" for sh jsonb ws i et q md t
    unfolding upd_db_def by (rule grows_same_messages) (auto simp: InsertMeteringEvent_def)
  show "grows sh (upd_db (SetActiveSMTPAccount ws name t) sh)" for sh ws name t
    unfolding upd_db_def by (rule grows_same_messages) (auto simp: SetActiveSMTPAccount_def Let_def)
  show "grows sh (upd_db (UpsertWorkspacePolicy pol t) sh)" for sh pol t
    unfolding upd_db_def by (rule grows_same_messages) (auto simp: UpsertWorkspacePolicy_def)
qed (simp_all add: upd_db_def SetMessageStatus_def SetMessageRetryAt_def TransitionMessageStatus_def
      ClaimQueuedMessagesForRecovery_def MarkStaleSendingUnknown_def Let_def grows_update,
     simp_all add: grows_def)

section \<open>The invariants of the tables\<close>

interpretation tables: store_guarantee keeps_tables
proof
  show "keeps_tables sh sh" for sh by (simp add: keeps_tables_def)
  show "keeps_tables sh sh''" if "keeps_tables sh sh'" "keeps_tables sh' sh''" for sh sh' sh''
    using that by (simp add: keeps_tables_def)
  show "keeps_tables sh (upd_db (CreateMessage m t) sh)" for sh m t
    using CreateMessage_inv [of "sh_db sh" m t] prod.collapse [of "CreateMessage m t (sh_db sh)"]
    by (auto simp: keeps_tables_def tables_ok_def upd_db_def smtp_inv_def CreateMessage_def Let_def)
  show "keeps_tables sh (upd_db (InsertAttempt i n p resp ok t) sh)" for sh i n p resp ok t
    using InsertAttempt_inv [of "sh_db sh" i n p resp ok t] prod.collapse [of "InsertAttempt i n p resp ok t (sh_db sh)"]
    by (auto simp: keeps_tables_def tables_ok_def upd_db_def smtp_inv_def InsertAttempt_def message_inv_def message_ids_def)
  show "keeps_tables sh (upd_db (SetActiveSMTPAccount ws name t) sh)" for sh ws name t
    using SetActiveSMTPAccount_inv [of "sh_db sh" ws name t] prod.collapse [of "SetActiveSMTPAccount ws name t (sh_db sh)"]
    by (auto simp: keeps_tables_def tables_ok_def upd_db_def SetActiveSMTPAccount_def Let_def message_inv_def
        attempt_inv_def message_ids_def)
  show "keeps_tables sh (upd_db (InsertMeteringEvent jsonb ws i et q md t) sh)" for sh jsonb ws i et q md t
    by (simp add: keeps_tables_def tables_ok_def upd_db_def InsertMeteringEvent_def message_inv_def attempt_inv_def
        smtp_inv_def message_ids_def)
  show "keeps_tables sh (upd_db (UpsertWorkspacePolicy pol t) sh)" for sh pol t
    by (simp add: keeps_tables_def tables_ok_def upd_db_def UpsertWorkspacePolicy_def message_inv_def attempt_inv_def
        smtp_inv_def message_ids_def)
qed (simp_all add: keeps_tables_def tables_ok_def upd_db_def SetMessageStatus_def SetMessageRetryAt_def
      TransitionMessageStatus_def ClaimQueuedMessagesForRecovery_def MarkStaleSendingUnknown_def Let_def keeps)

end
