(* ===== verification/Message_Delivery.thy ===== *)
theory Message_Delivery
  imports Service_Frames
begin

text \<open>
  What \<open>ProcessOne\<close> does: the ways a run goes, that listed recipients are not sent to, that a
  session follows a claim, and the outcome of a run without faults.
\<close>

section \<open>Definitions\<close>

definition listed :: "int \<Rightarrow> string \<Rightarrow> db \<Rightarrow> bool" where
  "listed ws email d \<longleftrightarrow>
     db_suppressions d (ws, normalizeEmail email) \<noteq> None \<or> db_unsubscribes d (ws, normalizeEmail email) \<noteq> None"

text \<open>A step in which only the other processes act.\<close>

definition idle :: "world \<Rightarrow> world" where
  "idle w = after_step (interfered w) w"

definition checked_listed :: "world \<Rightarrow> Message \<Rightarrow> bool" where
  "checked_listed w m \<longleftrightarrow>
     db_suppressions (sh_db (interfered (idle w))) (msg_WorkspaceID m, normalizeEmail (msg_ToEmail m)) \<noteq> None \<or>
     db_unsubscribes (sh_db (interfered (idle (idle w)))) (msg_WorkspaceID m, normalizeEmail (msg_ToEmail m)) \<noteq> None"

definition moves_message :: "int \<Rightarrow> string \<Rightarrow> string \<Rightarrow> world \<Rightarrow> world \<Rightarrow> bool" where
  "moves_message i st st' w w' \<longleftrightarrow>
     (\<exists>m \<in> set (db_messages (sh_db (interfered w))). msg_ID m = i \<and> msg_Status m = st) \<and>
     (\<exists>m \<in> set (db_messages (sh_db (w_shared w'))). msg_ID m = i \<and> msg_Status m = st') \<and>
     (\<forall>m \<in> set (db_messages (sh_db (w_shared w'))). msg_ID m = i \<longrightarrow> msg_Status m \<noteq> st)"

text \<open>
  The outcome of a run in a world without faults and without other processes, for the stores and
  queues the program is built with.
\<close>

definition clean :: "world \<Rightarrow> bool" where
  "clean w \<longleftrightarrow> alone w \<and> faultless w"

definition now_of :: "world \<Rightarrow> go_time" where
  "now_of w = w_clock w (w_step w)"

definition next_no :: "int \<Rightarrow> db \<Rightarrow> int" where
  "next_no i d = fold max (map att_AttemptNo (attempts_of i d)) 0 + 1"

definition credentials_in :: "MessageService \<Rightarrow> int \<Rightarrow> db \<Rightarrow> Credentials result" where
  "credentials_in s ws d =
     (case smtp_ranked ws d of
        [] \<Rightarrow> Inr (DefaultCredentials (svc_sender s))
      | row # _ \<Rightarrow>
         (case Open (svc_sealer s) (smtp_encrypted_payload row) of
            Inl e \<Rightarrow> Inl e
          | Inr decrypted \<Rightarrow>
              (case svc_unmarshal s decrypted of
                 Inl e \<Rightarrow> Inl e
               | Inr account \<Rightarrow>
                   Inr \<lparr>cr_Host = acc_Host account, cr_Port = acc_Port account,
                        cr_Username = acc_Username account, cr_Password = acc_Password account,
                        cr_From = acc_FromEmail account, cr_TLSMode = acc_TLSMode account\<rparr>)))"

text \<open>Messages, attempts, recipient lists and the queue are as before.\<close>

definition same_delivery :: "shared \<Rightarrow> shared \<Rightarrow> bool" where
  "same_delivery sh sh' \<longleftrightarrow>
     db_messages (sh_db sh') = db_messages (sh_db sh) \<and> db_attempts (sh_db sh') = db_attempts (sh_db sh) \<and>
     sh_queue sh' = sh_queue sh"

definition adds_attempt :: "int \<Rightarrow> int \<Rightarrow> string \<Rightarrow> string \<Rightarrow> bool \<Rightarrow> db \<Rightarrow> db \<Rightarrow> bool" where
  "adds_attempt i n provider response success d d' \<longleftrightarrow>
     (\<exists>a. db_attempts d' = db_attempts d @ [a] \<and> att_MessageID a = i \<and> att_AttemptNo a = n \<and>
        att_SMTPProvider a = provider \<and> att_SMTPResponse a = response \<and> att_Success a = success)"

text \<open>The result and the log of the send a message gets.\<close>

definition send_of :: "MessageService \<Rightarrow> relay \<Rightarrow> Credentials \<Rightarrow> Message \<Rightarrow> unit result \<times> wire list" where
  "send_of s rel creds m = Send (svc_sender s) rel creds (msg_ToEmail m) (msg_Subject m) (msg_BodyText m)"

text \<open>
  What is recorded of a send with that result: the attempt, and the message sent, failed for good
  after the last attempt, or queued again with its backoff in the table and in the delayed set.
\<close>

definition recorded :: "MessageService \<Rightarrow> Message \<Rightarrow> int \<Rightarrow> Credentials \<Rightarrow> unit result \<Rightarrow> shared \<Rightarrow> shared \<Rightarrow> bool" where
  "recorded s m n creds res sh sh' \<longleftrightarrow>
     (case res of
        Inr _ \<Rightarrow>
          adds_attempt (msg_ID m) n (ProviderName creds) ''accepted by smtp server'' True (sh_db sh) (sh_db sh') \<and>
          (\<exists>t. find_message (msg_ID m) (sh_db sh') =
             Some (m\<lparr>msg_Status := ''sent'', msg_ScheduledAt := None, msg_UpdatedAt := t\<rparr>)) \<and>
          sh_queue sh' = sh_queue sh
      | Inl e \<Rightarrow>
          adds_attempt (msg_ID m) n (ProviderName creds) (SMTPError (Error_text e)) False (sh_db sh) (sh_db sh') \<and>
          (if n \<ge> svc_maxAttempts s
           then (\<exists>t. find_message (msg_ID m) (sh_db sh') =
                   Some (m\<lparr>msg_Status := ''failed'', msg_ScheduledAt := None, msg_UpdatedAt := t\<rparr>)) \<and>
                sh_queue sh' = sh_queue sh
           else (\<exists>t t'. find_message (msg_ID m) (sh_db sh') =
                   Some (m\<lparr>msg_Status := ''queued'', msg_ScheduledAt := Some (t + backoffDuration n), msg_UpdatedAt := t'\<rparr>) \<and>
                   due_ms (sh_queue sh') (msg_ID m) = Some (UnixMilli (t + backoffDuration n)))))"

section \<open>Steps\<close>

lemma after_step_simps [simp]:
  "w_shared (after_step sh w) = sh" "w_wire (after_step sh w) = w_wire w" "w_other (after_step sh w) = w_other w"
  "w_step (after_step sh w) = Suc (w_step w)" "w_clock (after_step sh w) = w_clock w"
  "w_fault (after_step sh w) = w_fault w" "w_relay (after_step sh w) = w_relay w"
  "others S (after_step sh w) = others S w" "alone (after_step sh w) = alone w"
  "faultless (after_step sh w) = faultless w"
  by (simp_all add: after_step_def others_def alone_def faultless_def)

lemma after_wire_simps [simp]:
  "w_shared (after_wire log w) = interfered w" "w_wire (after_wire log w) = w_wire w @ log" "w_other (after_wire log w) = w_other w"
  "alone (after_wire log w) = alone w" "faultless (after_wire log w) = faultless w"
  by (simp_all add: after_wire_def alone_def faultless_def)

lemma idle_simps [simp]:
  "w_shared (idle w) = interfered w" "w_wire (idle w) = w_wire w" "others S (idle w) = others S w"
  "w_step (idle w) = Suc (w_step w)" "w_clock (idle w) = w_clock w" "w_fault (idle w) = w_fault w"
  "w_relay (idle w) = w_relay w" "w_other (idle w) = w_other w" "alone (idle w) = alone w" "faultless (idle w) = faultless w"
  by (simp_all add: idle_def)

lemma interfered_alone [simp]: "alone w \<Longrightarrow> interfered w = w_shared w"
  by (simp add: alone_def interfered_def)

lemma others_interfered: "others S w \<Longrightarrow> S (w_shared w) (interfered w)"
  by (simp add: others_def interfered_def)

lemma silentD: "state_io_rel silent m \<Longrightarrow> run_state m w = (r, w') \<Longrightarrow> w_wire w' = w_wire w"
  by (auto simp: silent_def dest: state_io_relD)

lemma store_run:
  assumes "run_state (store op) w = (r, w')"
  obtains (refused) e where "r = Inl e" "w' = idle w"
  | (ran) "w' = after_step (upd_db (op (w_clock w (w_step w))) (interfered w)) w"
      "r = fst (op (w_clock w (w_step w)) (sh_db (interfered w))) \<or> (\<exists>e. r = Inl e)"
      "w_fault w (w_step w) = Executed \<Longrightarrow> r = fst (op (w_clock w (w_step w)) (sh_db (interfered w)))"
  using assms
  by (auto simp: store_def call_def on_db_def idle_def upd_db_def Let_def split: fault.splits prod.splits)

lemma store_read:
  assumes "run_state (store op) w = (r, w')" and "\<And>t d. op t d = (v d, d)"
  shows "w' = idle w" and "r = v (sh_db (interfered w)) \<or> (\<exists>e. r = Inl e)"
  using assms(1) by (cases rule: store_run; auto simp: assms(2) upd_db_def idle_def)+

lemma reads:
  "IsSuppressed ws e t d = (Inr (db_suppressions d (ws, normalizeEmail e) \<noteq> None), d)"
  "IsUnsubscribed ws e t d = (Inr (db_unsubscribes d (ws, normalizeEmail e) \<noteq> None), d)"
  "GetMessage i t d = (case find_message i d of None \<Rightarrow> Inl ErrMessageNotFound | Some m \<Rightarrow> Inr m, d)"
  by (simp_all add: IsSuppressed_def IsUnsubscribed_def GetMessage_def split: option.split)

text \<open>The ways a run of \<open>ProcessOne\<close> goes.\<close>

lemma ProcessOne_cases:
  assumes run: "run_state (ProcessOne s i) w = (r, w')"
  obtains (stop) "w' = idle w \<or> w' = idle (idle w) \<or> w' = idle (idle (idle w))"
      "r = Inr () \<Longrightarrow> \<exists>m. find_message i (sh_db (interfered w)) = Some m \<and> msg_Status m \<noteq> ''queued''"
  | (suppress) m where "find_message i (sh_db (interfered w)) = Some m" "msg_Status m = ''queued''"
      "checked_listed w m"
      "run_state (store (SetMessageStatus i ''suppressed'')) (idle (idle (idle w))) = (r, w')"
  | (lost) m r4 where "find_message i (sh_db (interfered w)) = Some m" "msg_Status m = ''queued''"
      "\<not> checked_listed w m"
      "run_state (store (TransitionMessageStatus i ''queued'' ''sending'')) (idle (idle (idle w))) = (r4, w')"
      "r4 = Inr False \<and> r = Inr () \<or> (\<exists>e. r4 = Inl e \<and> r = Inl e)"
  | (claimed) m w4 where "find_message i (sh_db (interfered w)) = Some m" "msg_Status m = ''queued''"
      "\<not> checked_listed w m"
      "run_state (store (TransitionMessageStatus i ''queued'' ''sending'')) (idle (idle (idle w))) = (Inr True, w4)"
      "run_state (send_claimed s m) w4 = (r, w')"
proof -
  obtain r1 w1 where get: "run_state (store (GetMessage i)) w = (r1, w1)" by (metis surj_pair)
  note w1 = store_read(1) [OF get reads(3)] and r1 = store_read(2) [OF get reads(3)]
  show thesis
  proof (cases "\<exists>m. r1 = Inr m \<and> msg_Status m = ''queued''")
    case False
    show thesis
      using run get False r1 w1 by (intro stop) (auto simp: ProcessOne_def split: sum.splits if_splits option.splits)
  next
    case True
    then obtain m where m: "r1 = Inr m" "msg_Status m = ''queued''" by blast
    with r1 have fm: "find_message i (sh_db (interfered w)) = Some m" by (auto split: option.splits)
    then have id: "msg_ID m = i" by (simp add: find_message_SomeD)
    obtain r2 w2 where sup: "run_state (store (IsSuppressed (msg_WorkspaceID m) (msg_ToEmail m))) w1 = (r2, w2)"
      by (metis surj_pair)
    note w2 = store_read(1) [OF sup reads(1)] and r2 = store_read(2) [OF sup reads(1)]
    obtain r3 w3 where uns: "run_state (store (IsUnsubscribed (msg_WorkspaceID m) (msg_ToEmail m))) w2 = (r3, w3)"
      by (metis surj_pair)
    note w3 = store_read(1) [OF uns reads(2)] and r3 = store_read(2) [OF uns reads(2)]
    have idle3: "w3 = idle (idle (idle w))" by (simp add: w1 w2 w3)
    obtain r4 w4 where cl: "run_state (store (TransitionMessageStatus i ''queued'' ''sending'')) w3 = (r4, w4)"
      by (metis surj_pair)
    consider e where "r2 = Inl e" | sp e where "r2 = Inr sp" "r3 = Inl e" | sp un where "r2 = Inr sp" "r3 = Inr un"
      by (cases r2; cases r3) auto
    then show thesis
    proof cases
      case 1
      with run get m sup w1 w2 show thesis by (intro stop) (auto simp: ProcessOne_def)
    next
      case 2
      with run get m sup uns w1 w2 w3 show thesis by (intro stop) (auto simp: ProcessOne_def)
    next
      case 3
      have chk: "(sp \<or> un) = checked_listed w m"
        using 3 r2 r3 by (auto simp: checked_listed_def w1 w2)
      show thesis
      proof (cases "sp \<or> un")
        case True
        with run get m sup uns 3 id show thesis
          by (intro suppress [OF fm m(2)]) (auto simp: ProcessOne_def chk idle3 [symmetric])
      next
        case no: False
        then have nochk: "\<not> checked_listed w m" by (simp add: chk)
        have "run_state (ProcessOne s i) w = (case r4 of Inl e \<Rightarrow> (Inl e, w4) | Inr ok \<Rightarrow>
            if ok then run_state (send_claimed s m) w4 else (Inr (), w4))"
          using get m sup uns 3 id no cl by (auto simp: ProcessOne_def split: sum.split)
        then show thesis
          using run cl lost [OF fm m(2) nochk] claimed [OF fm m(2) nochk] unfolding idle3
          by (cases r4) (auto split: if_splits)
      qed
    qed
  qed
qed

lemma listed_silent:
  assumes oth: "others grows w"
    and msg: "find_message i (sh_db (w_shared w)) = Some m"
    and lst: "listed (msg_WorkspaceID m) (msg_ToEmail m) (sh_db (w_shared w))"
    and run: "run_state (ProcessOne s i) w = (r, w')"
  shows "w_wire w' = w_wire w"
  using run
proof (cases rule: ProcessOne_cases)
  case (claimed m1 w4)
  have g0: "grows (w_shared w) (interfered w)" using oth by (rule others_interfered)
  moreover have "grows (interfered w) (interfered (idle w))" "grows (interfered (idle w)) (interfered (idle (idle w)))"
    using oth others_interfered [of grows "idle w"] others_interfered [of grows "idle (idle w)"] by simp_all
  ultimately have g: "grows (w_shared w) (interfered (idle w))" "grows (w_shared w) (interfered (idle (idle w)))"
    by (blast intro: grows.trans)+
  have "msg_WorkspaceID m1 = msg_WorkspaceID m" "msg_ToEmail m1 = msg_ToEmail m"
    using g0 msg claimed(1) unfolding grows_def by fastforce+
  then have "checked_listed w m1"
    using lst g unfolding listed_def checked_listed_def grows_def by (metis domIff subsetD)
  with claimed(3) show ?thesis by simp
qed (auto dest: silentD [OF silent_calls(1)])

text \<open>
  A message whose recipient is on the suppression or the unsubscribe list of its workspace when
  \<open>ProcessOne\<close> starts is not sent: nothing is put on the wire, whatever calls fail and whatever
  the other processes do, as long as they take nobody off the lists and leave the address of the
  message alone.
\<close>

theorem listed_recipient_never_sent:
  assumes oth: "others grows w"
    and msg: "find_message i (sh_db (w_shared w)) = Some m"
    and lst: "listed (msg_WorkspaceID m) (msg_ToEmail m) (sh_db (w_shared w))"
    and run: "run_state (ProcessOne s i) w = (r, w')"
  shows "w_wire w' = w_wire w"
  using assms by (rule listed_silent)

text \<open>The hypotheses hold for a queued message to a suppressed address.\<close>

theorem listed_recipient_never_sent_witness:
  "let d = (demo_db ''queued'')\<lparr>db_suppressions := [(1, ''b@example.org'') \<mapsto> ''bounce'']\<rparr>;
       w = demo_world d demo_relay
   in w_wire (snd (run_state (ProcessOne demo_service 1) w)) = w_wire w"
proof -
  let ?w = "demo_world ((demo_db ''queued'')\<lparr>db_suppressions := [(1, ''b@example.org'') \<mapsto> ''bounce'']\<rparr>) demo_relay"
  have "others grows ?w" by (simp add: others_def demo_world_def grows_def)
  moreover have "find_message 1 (sh_db (w_shared ?w)) = Some (demo_message ''queued'')" by code_simp
  moreover have "listed (msg_WorkspaceID (demo_message ''queued'')) (msg_ToEmail (demo_message ''queued'')) (sh_db (w_shared ?w))"
    by code_simp
  ultimately show ?thesis
    unfolding Let_def by (rule listed_recipient_never_sent [OF _ _ _ prod.collapse [symmetric]])
qed

section \<open>Sessions follow claims\<close>

lemmas silent_steps = silent.within_return silent.within_bind silent.within_if silent.within_sum
  silent.within_option silent.within_prod silent.within_let silent_calls

lemma silent_meter: "state_io_rel silent (meter s ws i et md)"
  unfolding meter_def by (rule silent_calls)

lemma silent_retry_state: "state_io_rel silent (scheduleRetryState s i at)"
  unfolding scheduleRetryState_def by (intro silent_steps grows.kind_within)

lemma silent_credentials: "state_io_rel silent (resolveCredentials s ws)"
  unfolding resolveCredentials_def by (intro silent_steps)

lemma silent_failover: "state_io_rel silent (tryAutoFailover s ws p)"
  unfolding tryAutoFailover_def by (intro silent_steps)

lemma silent_record_sent: "state_io_rel silent (record_sent s m n p)"
  unfolding record_sent_def by (intro silent_steps silent_meter)

lemma silent_record_failed: "state_io_rel silent (record_failed s m n p e)"
proof -
  have *: "state_io_rel silent (case r of
      Inr (True, toProvider) \<Rightarrow> meter s ws i et (md toProvider) | _ \<Rightarrow> State_Monad.return (Inr ()))"
    for r :: "(bool \<times> string) result" and ws i et md
    by (auto split: sum.split bool.split intro: silent.within_return silent_meter)
  show ?thesis
    unfolding record_failed_def by (intro silent_steps silent_meter silent_failover silent_retry_state *)
qed

lemma silent_give_back: "state_io_rel silent (give_back s m e)"
  unfolding give_back_def by (intro silent_steps silent_retry_state)

lemma send_claimed_wire:
  assumes "run_state (send_claimed s m) w = (r, w')"
  shows "w_wire w' = w_wire w \<or> (\<exists>rel creds. w_wire w' =
    w_wire w @ snd (Send (svc_sender s) rel creds (msg_ToEmail m) (msg_Subject m) (msg_BodyText m)))"
proof -
  obtain r1 w1 where nxt: "run_state (store (NextAttemptNo (msg_ID m))) w = (r1, w1)" by (metis surj_pair)
  obtain r2 w2 where cred: "run_state (resolveCredentials s (msg_WorkspaceID m)) w1 = (r2, w2)" by (metis surj_pair)
  have w12: "w_wire w1 = w_wire w" "w_wire w2 = w_wire w1"
    using silentD [OF silent_calls(1) nxt] silentD [OF silent_credentials cred] by simp_all
  consider e where "r1 = Inl e" | n e where "r1 = Inr n" "r2 = Inl e" | n creds where "r1 = Inr n" "r2 = Inr creds"
    by (cases r1; cases r2) auto
  then show ?thesis
  proof cases
    case 3
    obtain r3 w3 where send: "run_state (smtp_send (svc_sender s) creds (msg_ToEmail m) (msg_Subject m) (msg_BodyText m)) w2 = (r3, w3)"
      by (metis surj_pair)
    have "w_wire w3 = w_wire w2 @ snd (Send (svc_sender s) (w_relay w2 (w_step w2)) creds
        (msg_ToEmail m) (msg_Subject m) (msg_BodyText m))"
      using send by (auto simp: smtp_send_def on_wire_def split: prod.splits)
    moreover have "w_wire w' = w_wire w3"
      using assms 3 nxt cred send
      by (auto simp: send_claimed_def Let_def split: sum.splits
          dest: silentD [OF silent_record_sent] silentD [OF silent_record_failed])
    ultimately show ?thesis using w12 by auto
  qed (use assms nxt cred w12 in \<open>auto simp: send_claimed_def dest: silentD [OF silent_give_back]\<close>)
qed

lemma claim_precedes_session:
  assumes run: "run_state (ProcessOne s i) w = (r, w')" and sent: "w_wire w' \<noteq> w_wire w"
  shows "\<exists>m w4 rel creds.
    find_message i (sh_db (interfered w)) = Some m \<and> msg_Status m = ''queued'' \<and> \<not> checked_listed w m \<and>
    run_state (store (TransitionMessageStatus i ''queued'' ''sending'')) (idle (idle (idle w))) = (Inr True, w4) \<and>
    moves_message i ''queued'' ''sending'' (idle (idle (idle w))) w4 \<and>
    w_wire w' = w_wire w @ snd (Send (svc_sender s) rel creds (msg_ToEmail m) (msg_Subject m) (msg_BodyText m))"
  using run
proof (cases rule: ProcessOne_cases)
  case (claimed m w4)
  have "w_wire w4 = w_wire w" using silentD [OF silent_calls(1) claimed(4)] by simp
  moreover have "moves_message i ''queued'' ''sending'' (idle (idle (idle w))) w4"
    using claimed(4)
  proof (cases rule: store_run)
    case ran
    then have "fst (TransitionMessageStatus i ''queued'' ''sending'' (w_clock w (w_step w + 3))
        (sh_db (interfered (idle (idle (idle w)))))) = Inr True"
      by (auto simp: numeral_3_eq_3)
    then show ?thesis
      using TransitionMessageStatus_moves [of i "''queued''" "''sending''"] ran(1)
      by (auto simp: moves_message_def upd_db_def numeral_3_eq_3)
  qed simp
  ultimately show ?thesis
    using claimed send_claimed_wire [OF claimed(5)] sent by metis
qed (use sent in \<open>auto dest: silentD [OF silent_calls(1)]\<close>)



section \<open>Runs without faults\<close>

lemma clean_simps [simp]: "clean (after_step sh w) = clean w" "clean (idle w) = clean w"
  by (simp_all add: clean_def)

lemma clean_interfered [simp]: "clean w \<Longrightarrow> interfered w = w_shared w"
  by (simp add: clean_def)

lemma run_store_clean:
  "clean w \<Longrightarrow> run_state (store op) w =
     (fst (op (now_of w) (sh_db (w_shared w))), after_step (upd_db (op (now_of w)) (w_shared w)) w)"
  by (simp add: store_def call_def clean_def faultless_def on_db_def upd_db_def now_of_def Let_def split: prod.split)

lemma run_queue_clean:
  "clean w \<Longrightarrow> run_state (queue f) w =
     (Inr (), after_step ((w_shared w)\<lparr>sh_queue := f (sh_queue (w_shared w))\<rparr>) w)"
  by (simp add: queue_def call_def clean_def faultless_def on_queue_def Let_def)

lemma run_now: "run_state time_Now w = (now_of w, idle w)"
  by (simp add: time_Now_def now_of_def idle_def)

lemma run_credentials_clean:
  "clean w \<Longrightarrow> run_state (resolveCredentials s ws) w = (credentials_in s ws (sh_db (w_shared w)), idle w)"
  by (simp add: resolveCredentials_def run_store_clean GetSMTPAccountEncrypted_def credentials_in_def upd_db_def idle_def
      split: list.split option.split)

lemma clean_run: "clean w \<Longrightarrow> state_io_rel silent m \<Longrightarrow> run_state m w = (r, w') \<Longrightarrow> clean w'"
  by (auto simp: clean_def alone_def faultless_def silent_def same_env_def dest: state_io_relD)

interpretation delivery: shared_relation same_delivery
  by unfold_locales (simp_all add: same_delivery_def)

lemma delivery_meter: "state_io_rel (moves same_delivery) (meter s ws i et md)"
  unfolding meter_def by (rule delivery.moves_store) (simp add: same_delivery_def InsertMeteringEvent_def)

lemma delivery_failover: "state_io_rel (moves same_delivery) (tryAutoFailover s ws p)"
proof -
  have set: "state_io_rel (moves same_delivery) (store (SetActiveSMTPAccount ws name))" for name
    by (rule delivery.moves_store) (simp add: same_delivery_def SetActiveSMTPAccount_def Let_def)
  have read: "state_io_rel (moves same_delivery) (store (ListSMTPAccounts ws))"
    "state_io_rel (moves same_delivery) (store (CountFailedAttemptsByProviderSince ws p t))" for t
    by (rule delivery.moves_store, simp add: same_delivery_def ListSMTPAccounts_def CountFailedAttemptsByProviderSince_def)+
  show ?thesis
    unfolding tryAutoFailover_def
    by (intro delivery.world.within_return delivery.world.within_bind delivery.world.within_if delivery.world.within_sum
        delivery.world.within_option delivery.world.within_prod delivery.moves_env set read)
qed

lemma next_no_fresh: "a \<in> set (attempts_of i d) \<Longrightarrow> att_AttemptNo a < next_no i d"
proof -
  have "x \<in> set xs \<Longrightarrow> x \<le> fold max xs (b::int)" and "b \<le> fold max xs b" for x xs b
    by (induction xs arbitrary: b) (auto, (metis max.bounded_iff max.cobounded2 order_refl | meson max.boundedE)+)
  then show "a \<in> set (attempts_of i d) \<Longrightarrow> att_AttemptNo a < next_no i d"
    by (fastforce simp: next_no_def)
qed

lemma delivery_clean:
  assumes "clean w" and "state_io_rel (moves same_delivery) c" and "state_io_rel silent c" and "run_state c w = (r, w')"
  shows "clean w'" and "same_delivery (w_shared w) (w_shared w')"
proof -
  show "clean w'" by (rule clean_run [OF assms(1,3,4)])
  have "others same_delivery w" using assms(1) by (simp add: others_def clean_def alone_def same_delivery_def)
  with state_io_relD [OF assms(2,4)] show "same_delivery (w_shared w) (w_shared w')" by (simp add: moves_def)
qed

lemma InsertAttempt_next:
  assumes "find_message i d = Some m" and "is_int32 (next_no i d)"
  shows "fst (InsertAttempt i (next_no i d) p resp ok t d) = Inr ()"
    and "adds_attempt i (next_no i d) p resp ok d (snd (InsertAttempt i (next_no i d) p resp ok t d))"
    and "db_messages (snd (InsertAttempt i (next_no i d) p resp ok t d)) = db_messages d"
proof -
  have "\<not> (\<exists>a \<in> set (attempts_of i d). att_AttemptNo a = next_no i d)"
    using next_no_fresh less_irrefl by metis
  then have "InsertAttempt i (next_no i d) p resp ok t d = (Inr (), d\<lparr>db_attempts := db_attempts d @
              [\<lparr>att_ID = db_attempt_seq d + 1, att_MessageID = i, att_AttemptNo = next_no i d,
                att_SMTPProvider = p, att_SMTPResponse = resp,
                att_Success = ok, att_CreatedAt = t\<rparr>],
              db_attempt_seq := db_attempt_seq d + 1\<rparr>)"
    using assms by (simp add: InsertAttempt_def)
  then show "fst (InsertAttempt i (next_no i d) p resp ok t d) = Inr ()"
    and "adds_attempt i (next_no i d) p resp ok d (snd (InsertAttempt i (next_no i d) p resp ok t d))"
    and "db_messages (snd (InsertAttempt i (next_no i d) p resp ok t d)) = db_messages d"
    by (simp_all add: adds_attempt_def)
qed

lemma record_sent_clean:
  assumes w: "clean w" and m: "msg_ID m = i"
    and fm: "find_message i (sh_db (w_shared w)) = Some m0" and n: "is_int32 (next_no i (sh_db (w_shared w)))"
    and run: "run_state (record_sent s m (next_no i (sh_db (w_shared w))) p) w = (r, w')"
  shows "r = Inr () \<and>
    adds_attempt i (next_no i (sh_db (w_shared w))) p ''accepted by smtp server'' True (sh_db (w_shared w)) (sh_db (w_shared w')) \<and>
    (\<exists>t. find_message i (sh_db (w_shared w')) = Some (m0\<lparr>msg_Status := ''sent'', msg_ScheduledAt := None, msg_UpdatedAt := t\<rparr>)) \<and>
    sh_queue (w_shared w') = sh_queue (w_shared w)"
proof -
  let ?d = "sh_db (w_shared w)"
  let ?op = "InsertAttempt i (next_no i ?d) p ''accepted by smtp server'' True"
  define w1 where "w1 = after_step (upd_db (?op (now_of w)) (w_shared w)) w"
  note ia = InsertAttempt_next [OF fm n, of p "''accepted by smtp server''" True "now_of w"]
  obtain r2 w2 where met: "run_state (meter s (msg_WorkspaceID m) i ''message_sent'' (provider_metadata p)) w1 = (r2, w2)"
    by (metis surj_pair)
  have "clean w1" using w by (simp add: w1_def)
  note w2 = delivery_clean [OF this delivery_meter silent_meter met]
  have "run_state (record_sent s m (next_no i ?d) p) w =
      run_state (do { r \<leftarrow> store (SetMessageStatus i ''sent'');
        case r of Inl err \<Rightarrow> do { markErr \<leftarrow> store (SetMessageStatus i ''unknown'');
                                State_Monad.return (Inl (errors_Join err markErr)) }
                | Inr _ \<Rightarrow> State_Monad.return (Inr ()) }) w2"
    by (simp add: record_sent_def m run_store_clean w ia(1) met w1_def [symmetric])
  with run have res: "r = Inr ()" "w' = after_step (upd_db (SetMessageStatus i ''sent'' (now_of w2)) (w_shared w2)) w2"
    by (simp_all add: run_store_clean w2(1) SetMessageStatus_def)
  have "find_message i (sh_db (w_shared w2)) = Some m0"
    using fm ia(3) w2(2) by (simp add: same_delivery_def w1_def upd_db_def find_message_def)
  then show ?thesis
    using res ia(2) w2(2) find_message_SomeD [OF fm]
    by (auto simp: upd_db_def SetMessageStatus_def find_message_update frame adds_attempt_def same_delivery_def w1_def)
qed

lemma transition_clean:
  assumes "find_message i d = Some m0" and "msg_Status m0 = st"
  shows "fst (TransitionMessageStatus i st st' t d) = Inr True"
    and "find_message i (snd (TransitionMessageStatus i st st' t d)) =
      Some (m0\<lparr>msg_Status := st', msg_ScheduledAt := (if st' = ''queued'' then msg_ScheduledAt m0 else None),
               msg_UpdatedAt := t\<rparr>)"
  using assms find_message_SomeD [OF assms(1)]
  by (auto simp: TransitionMessageStatus_def Let_def rows_affected_pos find_message_update)

lemma retry_at_clean:
  assumes "find_message i d = Some m0" and "msg_Status m0 = ''sending''"
  shows "fst (SetMessageRetryAt i at t d) = Inr True"
    and "find_message i (snd (SetMessageRetryAt i at t d)) =
      Some (m0\<lparr>msg_Status := ''queued'', msg_ScheduledAt := Some at, msg_UpdatedAt := t\<rparr>)"
  using assms find_message_SomeD [OF assms(1)]
  by (auto simp: SetMessageRetryAt_def Let_def rows_affected_pos find_message_update)

lemma delivery_switch_note:
  fixes r :: "(bool \<times> string) result"
  shows "state_io_rel (moves same_delivery) (case r of
      Inr (True, toProvider) \<Rightarrow> meter s ws i et (md toProvider) | _ \<Rightarrow> State_Monad.return (Inr ()))"
    and "state_io_rel silent (case r of
      Inr (True, toProvider) \<Rightarrow> meter s ws i et (md toProvider) | _ \<Rightarrow> State_Monad.return (Inr ()))"
  by (auto split: sum.split bool.split intro: silent.within_return silent_meter
      delivery.world.within_return delivery_meter)

text \<open>Everything in \<open>record_failed\<close> before the status changes.\<close>

lemma record_failed_prefix:
  assumes w: "clean w" and m: "msg_ID m = i"
    and fm: "find_message i (sh_db (w_shared w)) = Some m0" and n: "is_int32 (next_no i (sh_db (w_shared w)))"
  obtains w4 where "clean w4"
    "adds_attempt i (next_no i (sh_db (w_shared w))) p (SMTPError (Error_text e)) False (sh_db (w_shared w)) (sh_db (w_shared w4))"
    "db_messages (sh_db (w_shared w4)) = db_messages (sh_db (w_shared w))"
    "sh_queue (w_shared w4) = sh_queue (w_shared w)"
    "run_state (record_failed s m (next_no i (sh_db (w_shared w))) p e) w =
       run_state (if next_no i (sh_db (w_shared w)) \<ge> svc_maxAttempts s then do {
           _ \<leftarrow> meter s (msg_WorkspaceID m) i ''message_failed'' (provider_metadata p);
           r \<leftarrow> store (TransitionMessageStatus i ''sending'' ''failed'');
           State_Monad.return (case r of
             Inl err \<Rightarrow> Inl err
           | Inr ok \<Rightarrow> if \<not> ok then Inl ErrMessageClaimLost else Inr ()) }
         else do {
           now \<leftarrow> time_Now;
           scheduleRetryState s i (now + backoffDuration (next_no i (sh_db (w_shared w)))) }) w4"
proof -
  let ?d = "sh_db (w_shared w)" and ?safe = "SMTPError (Error_text e)"
  define w1 where "w1 = after_step (upd_db (InsertAttempt i (next_no i ?d) p ?safe False (now_of w)) (w_shared w)) w"
  note ia = InsertAttempt_next [OF fm n, of p ?safe False "now_of w"]
  have c1: "clean w1" using w by (simp add: w1_def)
  obtain r2 w2 where met: "run_state (meter s (msg_WorkspaceID m) i ''message_send_error''
      (jsonMetadata [(''error'', ?safe), (''provider'', p)])) w1 = (r2, w2)" by (metis surj_pair)
  note w2 = delivery_clean [OF c1 delivery_meter silent_meter met]
  obtain r3 w3 where fo: "run_state (tryAutoFailover s (msg_WorkspaceID m) p) w2 = (r3, w3)" by (metis surj_pair)
  note w3 = delivery_clean [OF w2(1) delivery_failover silent_failover fo]
  obtain r4 w4 where note': "run_state (case r3 of
      Inr (True, toProvider) \<Rightarrow> meter s (msg_WorkspaceID m) (msg_ID m) ''provider_auto_failover''
                    (jsonMetadata [(''from'', p), (''to'', toProvider)])
      | _ \<Rightarrow> State_Monad.return (Inr ())) w3 = (r4, w4)" by (metis surj_pair)
  note w4 = delivery_clean [OF w3(1) delivery_switch_note note']
  have same: "same_delivery (w_shared w1) (w_shared w4)"
    using w2(2) w3(2) w4(2) by (simp add: same_delivery_def)
  show thesis
  proof (rule that [of w4])
    show "clean w4" by (rule w4(1))
    show "adds_attempt i (next_no i ?d) p ?safe False ?d (sh_db (w_shared w4))"
      using same ia(2) by (simp add: same_delivery_def adds_attempt_def w1_def upd_db_def)
    show "db_messages (sh_db (w_shared w4)) = db_messages ?d" "sh_queue (w_shared w4) = sh_queue (w_shared w)"
      using same ia(3) by (simp_all add: same_delivery_def w1_def upd_db_def)
  qed (simp add: record_failed_def Let_def m run_store_clean w ia(1) met fo note' w1_def [symmetric])
qed

lemma scheduleRetryState_clean:
  assumes w: "clean w" and svc: "svc_retry_at_store s" "svc_queue s = SchedulerQueue"
    and fm: "find_message i (sh_db (w_shared w)) = Some m0"
    and st: "msg_Status m0 = ''sending''" and run: "run_state (scheduleRetryState s i at) w = (r, w')"
  shows "r = Inr () \<and> db_attempts (sh_db (w_shared w')) = db_attempts (sh_db (w_shared w)) \<and>
    (\<exists>t. find_message i (sh_db (w_shared w')) =
       Some (m0\<lparr>msg_Status := ''queued'', msg_ScheduledAt := Some at, msg_UpdatedAt := t\<rparr>)) \<and>
    due_ms (sh_queue (w_shared w')) i = Some (UnixMilli at)"
proof -
  note ra = retry_at_clean [OF fm st, of at "now_of w"]
  have "r = Inr ()" "sh_db (w_shared w') = snd (SetMessageRetryAt i at (now_of w) (sh_db (w_shared w)))"
    "sh_queue (w_shared w') = ScheduleRetry i at (sh_queue (w_shared w))"
    using run w by (auto simp: scheduleRetryState_def svc run_store_clean run_queue_clean ra(1) upd_db_def)
  then show ?thesis
    using ra(2) by (auto simp: SetMessageRetryAt_def Let_def frame)
qed

lemma record_failed_clean:
  assumes w: "clean w" and svc: "svc_retry_at_store s" "svc_queue s = SchedulerQueue" and m: "msg_ID m = i"
    and fm: "find_message i (sh_db (w_shared w)) = Some m0"
    and st: "msg_Status m0 = ''sending''"
    and n: "n = next_no i (sh_db (w_shared w))" "is_int32 n"
    and run: "run_state (record_failed s m n p e) w = (r, w')"
  shows "r = Inr () \<and> adds_attempt i n p (SMTPError (Error_text e)) False (sh_db (w_shared w)) (sh_db (w_shared w')) \<and>
    (if n \<ge> svc_maxAttempts s
     then (\<exists>t. find_message i (sh_db (w_shared w')) =
             Some (m0\<lparr>msg_Status := ''failed'', msg_ScheduledAt := None, msg_UpdatedAt := t\<rparr>)) \<and>
          sh_queue (w_shared w') = sh_queue (w_shared w)
     else (\<exists>t t'. find_message i (sh_db (w_shared w')) =
             Some (m0\<lparr>msg_Status := ''queued'', msg_ScheduledAt := Some (t + backoffDuration n), msg_UpdatedAt := t'\<rparr>) \<and>
             due_ms (sh_queue (w_shared w')) i = Some (UnixMilli (t + backoffDuration n))))"
proof -
  from record_failed_prefix [OF w m fm n(2) [unfolded n(1)], of p e s] obtain w4 where
    w4: "clean w4" "adds_attempt i n p (SMTPError (Error_text e)) False (sh_db (w_shared w)) (sh_db (w_shared w4))"
      "db_messages (sh_db (w_shared w4)) = db_messages (sh_db (w_shared w))" "sh_queue (w_shared w4) = sh_queue (w_shared w)"
    and rest: "run_state (record_failed s m n p e) w =
       run_state (if n \<ge> svc_maxAttempts s then do {
           _ \<leftarrow> meter s (msg_WorkspaceID m) i ''message_failed'' (provider_metadata p);
           r \<leftarrow> store (TransitionMessageStatus i ''sending'' ''failed'');
           State_Monad.return (case r of
             Inl err \<Rightarrow> Inl err
           | Inr ok \<Rightarrow> if \<not> ok then Inl ErrMessageClaimLost else Inr ()) }
         else do {
           now \<leftarrow> time_Now;
           scheduleRetryState s i (now + backoffDuration n) }) w4"
    unfolding n(1) by metis
  show ?thesis
  proof (cases "n \<ge> svc_maxAttempts s")
    case False
    have fm4: "find_message i (sh_db (w_shared (idle w4))) = Some m0"
      using fm w4 by (simp add: find_message_def)
    have "run_state (scheduleRetryState s i (now_of w4 + backoffDuration n)) (idle w4) = (r, w')"
      using run rest False by (simp add: run_now)
    from scheduleRetryState_clean [OF _ svc fm4 st this] w4(1,2) show ?thesis
      using False by (auto simp: adds_attempt_def)
  next
    case True
    obtain r5 w5 where met: "run_state (meter s (msg_WorkspaceID m) i ''message_failed'' (provider_metadata p)) w4 = (r5, w5)"
      by (metis surj_pair)
    note w5 = delivery_clean [OF w4(1) delivery_meter silent_meter met]
    have fm5: "find_message i (sh_db (w_shared w5)) = Some m0"
      using fm w4 w5(2) by (simp add: find_message_def same_delivery_def)
    note tr = transition_clean [OF fm5 st, of "''failed''" "now_of w5"]
    have "r = Inr ()" "w' = after_step (upd_db (TransitionMessageStatus i ''sending'' ''failed'' (now_of w5)) (w_shared w5)) w5"
      using run rest True by (simp_all add: met run_store_clean w5(1) tr(1))
    then show ?thesis
      using True tr(2) w4 w5(2)
      by (auto simp: upd_db_def adds_attempt_def same_delivery_def TransitionMessageStatus_def Let_def frame)
  qed
qed

lemma run_send:
  "run_state (smtp_send c creds to sj b) w =
     (fst (Send c (w_relay w (w_step w)) creds to sj b),
      after_wire (snd (Send c (w_relay w (w_step w)) creds to sj b)) w)"
  by (simp add: smtp_send_def on_wire_def split: prod.split)

lemma NextAttemptNo_next: "is_int32 (next_no i d) \<Longrightarrow> NextAttemptNo i t d = (Inr (next_no i d), d)"
  by (simp add: NextAttemptNo_def next_no_def Let_def)

lemma idle_clean: "clean w \<Longrightarrow> after_step (w_shared w) w = idle w"
  by (simp add: idle_def)

lemma ProcessOne_claims:
  assumes c: "clean w" and fm: "find_message i (sh_db (w_shared w)) = Some m" and st: "msg_Status m = ''queued''"
    and nl: "\<not> listed (msg_WorkspaceID m) (msg_ToEmail m) (sh_db (w_shared w))"
  shows "run_state (ProcessOne s i) w = run_state (send_claimed s m)
    (after_step (upd_db (TransitionMessageStatus i ''queued'' ''sending'' (w_clock w (w_step w + 3))) (w_shared w))
       (idle (idle (idle w))))"
proof -
  have "msg_ID m = i" using find_message_SomeD [OF fm] by simp
  then show ?thesis
    using c st nl transition_clean(1) [OF fm st, of "''sending''"]
    by (simp add: ProcessOne_def run_store_clean reads fm upd_db_def idle_def listed_def now_of_def numeral_3_eq_3)
qed

lemma send_claimed_clean:
  assumes w: "clean w" and svc: "svc_retry_at_store s" "svc_queue s = SchedulerQueue"
    and fm: "find_message (msg_ID m) (sh_db (w_shared w)) = Some m0" and st: "msg_Status m0 = ''sending''"
    and n: "n = next_no (msg_ID m) (sh_db (w_shared w))" "is_int32 n"
    and cr: "credentials_in s (msg_WorkspaceID m) (sh_db (w_shared w)) = Inr creds"
    and snd: "send_of s (w_relay w (w_step w + 2)) creds m = (res, log)"
    and run: "run_state (send_claimed s m) w = (r, w')"
  shows "r = Inr () \<and> w_wire w' = w_wire w @ log \<and> recorded s m0 n creds res (w_shared w) (w_shared w')"
proof -
  define w3 where "w3 = after_wire log (idle (idle w))"
  have id: "msg_ID m0 = msg_ID m" using find_message_SomeD [OF fm] by simp
  have w3: "clean w3" "w_shared w3 = w_shared w" "w_wire w3 = w_wire w @ log"
    using w by (simp_all add: w3_def clean_def)
  have "run_state (send_claimed s m) w = (case res of
      Inr _ \<Rightarrow> run_state (record_sent s m n (ProviderName creds)) w3
    | Inl err \<Rightarrow> run_state (record_failed s m n (ProviderName creds) err) w3)"
    using w n cr snd
    by (simp add: send_claimed_def run_store_clean NextAttemptNo_next upd_db_def idle_clean
        run_credentials_clean Let_def run_send send_of_def w3_def split: sum.split)
  then have run3: "(case res of
      Inr _ \<Rightarrow> run_state (record_sent s m n (ProviderName creds)) w3
    | Inl err \<Rightarrow> run_state (record_failed s m n (ProviderName creds) err) w3) = (r, w')"
    using run by simp
  show ?thesis
  proof (cases res)
    case (Inl e)
    then have rf: "run_state (record_failed s m n (ProviderName creds) e) w3 = (r, w')" using run3 by simp
    have "w_wire w' = w_wire w3" using silentD [OF silent_record_failed rf] .
    moreover have f3: "find_message (msg_ID m) (sh_db (w_shared w3)) = Some m0"
      and n3: "n = next_no (msg_ID m) (sh_db (w_shared w3))" using fm n(1) by (simp_all add: w3)
    moreover note record_failed_clean [OF w3(1) svc refl f3 st n3 n(2) rf]
    ultimately show ?thesis
      by (auto simp add: recorded_def Inl id w3)
  next
    case (Inr u)
    then have rs: "run_state (record_sent s m n (ProviderName creds)) w3 = (r, w')" using run3 by simp
    have "w_wire w' = w_wire w3" using silentD [OF silent_record_sent rs] .
    moreover have "find_message (msg_ID m) (sh_db (w_shared w3)) = Some m0"
      and "is_int32 (next_no (msg_ID m) (sh_db (w_shared w3)))"
      and "run_state (record_sent s m (next_no (msg_ID m) (sh_db (w_shared w3))) (ProviderName creds)) w3 = (r, w')"
      using fm n rs by (simp_all add: w3)
    moreover note record_sent_clean [OF w3(1) refl this]
    ultimately show ?thesis
      by (auto simp add: recorded_def Inr id w3 n)
  qed
qed

lemma ProcessOne_records:
  assumes w: "alone w" "faultless w" and svc: "svc_retry_at_store s" "svc_queue s = SchedulerQueue"
    and fm: "find_message i (sh_db (w_shared w)) = Some m" and st: "msg_Status m = ''queued''"
    and nl: "\<not> listed (msg_WorkspaceID m) (msg_ToEmail m) (sh_db (w_shared w))"
    and n: "n = next_no i (sh_db (w_shared w))" "is_int32 n"
    and cr: "credentials_in s (msg_WorkspaceID m) (sh_db (w_shared w)) = Inr creds"
    and snd: "send_of s (w_relay w (w_step w + 6)) creds m = (res, log)"
    and run: "run_state (ProcessOne s i) w = (r, w')"
  shows "r = Inr () \<and> w_wire w' = w_wire w @ log \<and>
    (\<exists>t. recorded s (m\<lparr>msg_Status := ''sending'', msg_ScheduledAt := None, msg_UpdatedAt := t\<rparr>) n creds res
       (w_shared w) (w_shared w'))"
proof -
  have c: "clean w" using w by (simp add: clean_def)
  have id: "msg_ID m = i" using find_message_SomeD [OF fm] by simp
  define w4 where "w4 = after_step (upd_db (TransitionMessageStatus i ''queued'' ''sending'' (w_clock w (w_step w + 3)))
    (w_shared w)) (idle (idle (idle w)))"
  have run4: "run_state (send_claimed s m) w4 = (r, w')"
    using run ProcessOne_claims [OF c fm st nl] by (simp add: w4_def)
  define m0 where "m0 = m\<lparr>msg_Status := ''sending'', msg_ScheduledAt := None, msg_UpdatedAt := w_clock w (w_step w + 3)\<rparr>"
  have db4: "find_message i (sh_db (w_shared w4)) = Some m0" "db_attempts (sh_db (w_shared w4)) = db_attempts (sh_db (w_shared w))"
    "db_smtp_accounts (sh_db (w_shared w4)) = db_smtp_accounts (sh_db (w_shared w))" "sh_queue (w_shared w4) = sh_queue (w_shared w)"
    using transition_clean(2) [OF fm st, of "''sending''"]
    by (simp_all add: w4_def upd_db_def m0_def TransitionMessageStatus_def Let_def frame)
  have "r = Inr () \<and> w_wire w' = w_wire w4 @ log \<and> recorded s m0 n creds res (w_shared w4) (w_shared w')"
  proof (rule send_claimed_clean [OF _ svc _ _ _ n(2) _ _ run4])
    show "clean w4" using c by (simp add: w4_def)
    show "find_message (msg_ID m) (sh_db (w_shared w4)) = Some m0" by (simp add: db4 id)
    show "msg_Status m0 = ''sending''" by (simp add: m0_def)
    show "n = next_no (msg_ID m) (sh_db (w_shared w4))" by (simp add: n id next_no_def attempts_of_def db4)
    show "credentials_in s (msg_WorkspaceID m) (sh_db (w_shared w4)) = Inr creds"
      using cr by (simp add: credentials_in_def smtp_ranked_def db4)
    show "send_of s (w_relay w4 (w_step w4 + 2)) creds m = (res, log)"
      using snd by (simp add: w4_def eval_nat_numeral)
  qed
  moreover have "w_wire w4 = w_wire w" by (simp add: w4_def)
  ultimately show ?thesis
    unfolding m0_def by (auto simp: recorded_def adds_attempt_def db4 split: sum.splits if_splits)
qed



end
