(* ===== verification/Message_Queueing.thy ===== *)
theory Message_Queueing
  imports Message_Delivery
begin

text \<open>
  Admission: what \<open>QueueMessage\<close> checks before it stores a message, what it stores and queues when
  it returns one, and what an error can leave behind.
\<close>

section \<open>Definitions\<close>

text \<open>The policy a workspace has in the tables, as the service reads it.\<close>

definition policy_in :: "MessageService \<Rightarrow> int \<Rightarrow> db \<Rightarrow> WorkspacePolicy" where
  "policy_in s workspaceID d =
     (let ws = (if workspaceID = 0 then 1 else workspaceID) in
      case db_policies d ws of
        Some row \<Rightarrow> \<lparr>pol_WorkspaceID = ws, pol_RateLimitWorkspacePerHour = prow_rate_limit_workspace row,
                     pol_RateLimitDomainPerHour = prow_rate_limit_domain row,
                     pol_BlockedRecipientDomains = normalizeDomains (splitDomains (prow_blocked_domains row))\<rparr>
      | None \<Rightarrow> \<lparr>pol_WorkspaceID = ws, pol_RateLimitWorkspacePerHour = svc_defaultWorkspaceRate s,
                 pol_RateLimitDomainPerHour = svc_defaultDomainRate s,
                 pol_BlockedRecipientDomains = normalizeDomains (svc_blockedRecipientDomains s)\<rparr>)"

definition blocked_in :: "MessageService \<Rightarrow> int \<Rightarrow> string \<Rightarrow> db \<Rightarrow> bool" where
  "blocked_in s ws toEmail d \<longleftrightarrow>
     isBlockedDomain (pol_BlockedRecipientDomains (policy_in s ws d)) (extractDomain toEmail) \<or>
     extractDomain toEmail \<in> set (svc_blockedRecipientDomains s)"

definition sent_since :: "int \<Rightarrow> string \<Rightarrow> go_time \<Rightarrow> db \<Rightarrow> int" where
  "sent_since ws recipientDomain since d =
     int (length (filter (\<lambda>m. msg_WorkspaceID m = ws \<and> since \<le> msg_CreatedAt m \<and>
             (recipientDomain \<noteq> [] \<longrightarrow>
                ToLower (split_part2 (msg_ToEmail m)) = ToLower (TrimSpace recipientDomain))) (db_messages d)))"

definition same_tables :: "shared \<Rightarrow> shared \<Rightarrow> bool" where
  "same_tables sh sh' \<longleftrightarrow> sh_db sh' = sh_db sh \<and> sh_queue sh' = sh_queue sh"

text \<open>Steps that leave the tables, the queue and the wire as they are.\<close>

definition only_looked :: "world \<Rightarrow> world \<Rightarrow> bool" where
  "only_looked w w' \<longleftrightarrow> same_env w w' \<and> w_wire w' = w_wire w \<and> same_tables (w_shared w) (w_shared w')"

definition within_limit :: "int \<Rightarrow> int \<Rightarrow> string \<Rightarrow> world \<Rightarrow> bool" where
  "within_limit limit ws rd w \<longleftrightarrow>
     limit \<le> 0 \<or> (\<exists>n \<ge> w_step w. sent_since ws rd (w_clock w n - Hour) (sh_db (w_shared w)) < limit)"

text \<open>The row \<open>QueueMessage\<close> inserts.\<close>

definition new_row :: "int \<Rightarrow> int \<Rightarrow> string \<Rightarrow> string \<Rightarrow> string \<Rightarrow> string \<Rightarrow> bool \<Rightarrow> go_time \<Rightarrow> Message" where
  "new_row i ws frm to subject body blocked t =
     \<lparr>msg_ID = i, msg_WorkspaceID = ws, msg_FromEmail = frm, msg_ToEmail = to, msg_Subject = subject,
      msg_BodyText = body, msg_Status = (if blocked then ''suppressed'' else ''queued''),
      msg_ScheduledAt = None, msg_CreatedAt = t, msg_UpdatedAt = t\<rparr>"

text \<open>
  What an admission leaves behind: the new row and, if it is queued, its id at the back of the
  ready list.
\<close>

definition admitted_as :: "Message \<Rightarrow> shared \<Rightarrow> shared \<Rightarrow> bool" where
  "admitted_as m sh sh' \<longleftrightarrow>
     db_messages (sh_db sh') = db_messages (sh_db sh) @ [m] \<and> db_attempts (sh_db sh') = db_attempts (sh_db sh) \<and>
     sh_queue sh' = (if msg_Status m = ''queued'' then Enqueue (msg_ID m) (sh_queue sh) else sh_queue sh)"

definition left_behind :: "Message \<Rightarrow> shared \<Rightarrow> shared \<Rightarrow> bool" where
  "left_behind m sh sh' \<longleftrightarrow>
     db_messages (sh_db sh') = db_messages (sh_db sh) @ [m] \<and> db_attempts (sh_db sh') = db_attempts (sh_db sh) \<and>
     (sh_queue sh' = sh_queue sh \<or> msg_Status m = ''queued'' \<and> sh_queue sh' = Enqueue (msg_ID m) (sh_queue sh))"

section \<open>What comes before the admission\<close>

interpretation tables_kept: shared_relation same_tables
  by unfold_locales (simp_all add: same_tables_def)

lemma store_ok:
  assumes "run_state (store op) w = (Inr x, w1)"
  shows "fst (op (w_clock w (w_step w)) (sh_db (interfered w))) = Inr x"
    and "w1 = after_step (upd_db (op (w_clock w (w_step w))) (interfered w)) w"
  using assms by (auto simp: store_def call_def on_db_def upd_db_def Let_def split: fault.splits prod.splits)

lemma workspacePolicy_run:
  assumes "run_state (workspacePolicy s ws) w = (r, w1)"
  shows "w1 = idle w" and "r = Inr (policy_in s ws (sh_db (interfered w))) \<or> (\<exists>e. r = Inl e)"
proof -
  obtain r1 w2 where get: "run_state (store (GetWorkspacePolicy (if ws = 0 then 1 else ws))) w = (r1, w2)"
    by (metis surj_pair)
  note st = store_read [OF get GetWorkspacePolicy_def]
  show "w1 = idle w" using assms get st(1) by (auto simp: workspacePolicy_def Let_def split: sum.splits option.splits)
  show "r = Inr (policy_in s ws (sh_db (interfered w))) \<or> (\<exists>e. r = Inl e)"
    using assms get st(2)
    by (auto simp: workspacePolicy_def policy_in_def Let_def split: sum.splits option.splits)
qed

lemma policy_limit_run:
  assumes "run_state (policy_limit limit ws rd reason) w = (r, w1)"
  shows "w1 = w \<and> limit \<le> 0 \<and> r = Inr () \<or>
    w1 = idle (idle w) \<and> limit > 0 \<and>
      (r = Inr () \<longrightarrow> sent_since ws rd (w_clock w (w_step w) - Hour) (sh_db (interfered (idle w))) < limit)"
proof -
  have op: "CountMessagesSince ws rd since t d = (Inr (sent_since ws rd since d), d)" for since t d
    by (simp add: CountMessagesSince_def sent_since_def)
  obtain r1 w2 where cnt: "run_state (store (CountMessagesSince ws rd (w_clock w (w_step w) - Hour))) (idle w) = (r1, w2)"
    by (metis surj_pair)
  note st = store_read [OF cnt op]
  show ?thesis
    using assms cnt st by (auto simp: policy_limit_def run_now now_of_def split: sum.splits if_splits)
qed

lemma only_looked_refl [simp]: "only_looked w w"
  by (simp add: only_looked_def same_env_def same_tables_def)

lemma only_looked_trans: "only_looked w w' \<Longrightarrow> only_looked w' w'' \<Longrightarrow> only_looked w w''"
  by (simp add: only_looked_def same_env_def same_tables_def)

lemma only_looked_idle: "alone w \<Longrightarrow> only_looked w (idle w)"
  by (simp add: only_looked_def same_env_def same_tables_def idle_def after_step_def)

lemma only_looked_alone: "only_looked w w' \<Longrightarrow> alone w' = alone w"
  by (simp add: only_looked_def same_env_def alone_def)

lemma only_looked_db: "only_looked w w' \<Longrightarrow> sh_db (w_shared w') = sh_db (w_shared w)"
  by (simp add: only_looked_def same_tables_def)

lemma limiter_looks:
  assumes "alone w" and "run_state (limiter_Allow l fmt ws rd) w = (r, w')"
  shows "only_looked w w'"
  using assms
  by (auto simp: limiter_Allow_def only_looked_def same_env_def same_tables_def after_step_def Let_def split: prod.splits)

lemma policy_limit_looks:
  assumes "alone w" and "run_state (policy_limit limit ws rd reason) w = (r, w')"
  shows "only_looked w w'" and "w_step w \<le> w_step w'" and "r = Inr () \<Longrightarrow> within_limit limit ws rd w"
  using policy_limit_run [OF assms(2)] assms(1) only_looked_idle [OF assms(1)] only_looked_idle [of "idle w"]
  by (auto simp: within_limit_def intro: only_looked_trans)

lemma QueueMessage_cases:
  assumes al: "alone w" and run: "run_state (QueueMessage s ws frm to subject body) w = (r, w')"
  obtains (refused) e where "r = Inl e" "only_looked w w'"
  | (admitted) w1 where "only_looked w w1" "run_state (admit_message s ws frm to subject body) w1 = (r, w')"
      "extractDomain to \<noteq> []" "\<not> blocked_in s ws to (sh_db (w_shared w))"
      "within_limit (pol_RateLimitWorkspacePerHour (policy_in s ws (sh_db (w_shared w)))) ws [] w"
      "within_limit (pol_RateLimitDomainPerHour (policy_in s ws (sh_db (w_shared w)))) ws (extractDomain to) w"
proof -
  let ?p = "policy_in s ws (sh_db (w_shared w))" and ?rd = "extractDomain to"
  obtain r1 w1 where pol: "run_state (workspacePolicy s ws) w = (r1, w1)" by (metis surj_pair)
  have w1: "w1 = idle w" and r1: "r1 = Inr ?p \<or> (\<exists>e. r1 = Inl e)"
    using workspacePolicy_run [OF pol] al by simp_all
  have l1: "only_looked w w1" "alone w1" using only_looked_idle [OF al] al by (simp_all add: w1)
  obtain r2 w2 where lim1: "run_state (policy_limit (pol_RateLimitWorkspacePerHour ?p) ws []
      ''tenant_workspace_policy_limit'') w1 = (r2, w2)" by (metis surj_pair)
  note p2 = policy_limit_looks [OF l1(2) lim1]
  have l2: "only_looked w w2" "alone w2"
    using only_looked_trans [OF l1(1) p2(1)] l1(2) p2(1) only_looked_alone by auto
  obtain r3 w3 where lim2: "run_state (policy_limit (pol_RateLimitDomainPerHour ?p) ws ?rd
      ''tenant_domain_policy_limit'') w2 = (r3, w3)" by (metis surj_pair)
  note p3 = policy_limit_looks [OF l2(2) lim2]
  have l3: "only_looked w w3" "alone w3"
    using only_looked_trans [OF l2(1) p3(1)] l2(2) p3(1) only_looked_alone by auto
  obtain r4 w4 where lim: "run_state (limiter_Allow (svc_limiter s) (svc_fmt_hour s) ws ?rd) w3 = (r4, w4)"
    by (metis surj_pair)
  have l4: "only_looked w w4" using only_looked_trans [OF l3(1) limiter_looks [OF l3(2) lim]] .
  have limits: "r2 = Inr () \<Longrightarrow> within_limit (pol_RateLimitWorkspacePerHour ?p) ws [] w"
    "r3 = Inr () \<Longrightarrow> within_limit (pol_RateLimitDomainPerHour ?p) ws ?rd w"
    using p2 p3 l1 l2 w1 by (auto simp: within_limit_def only_looked_def same_env_def same_tables_def)
  show thesis
  proof (cases "?rd = [] \<or> (\<exists>e. r1 = Inl e) \<or> (\<exists>e. r2 = Inl e) \<or> (\<exists>e. r3 = Inl e) \<or>
      blocked_in s ws to (sh_db (w_shared w)) \<or> (\<forall>reason. r4 \<noteq> Inr (True, reason))")
    case True
    have "(\<exists>e. r = Inl e) \<and> w' \<in> {w, w1, w2, w3, w4}"
      using True run pol r1 lim1 lim2 lim
      by (auto simp: QueueMessage_def Let_def blocked_in_def split: sum.splits if_splits prod.splits)
    then show thesis using refused l1 l2 l3 l4 by auto
  next
    case False
    then obtain reason where ok: "r1 = Inr ?p" "r2 = Inr ()" "r3 = Inr ()" "r4 = Inr (True, reason)"
      using r1 by (cases r2; cases r3) auto
    have "run_state (admit_message s ws frm to subject body) w4 = (r, w')"
      using False run pol lim1 lim2 lim ok by (simp add: QueueMessage_def Let_def blocked_in_def)
    with admitted l4 False limits ok show thesis by blast
  qed
qed

lemma meter_same:
  assumes "alone w" and "run_state (meter s ws i et md) w = (r, w')"
  shows "same_delivery (w_shared w) (w_shared w')"
proof -
  have "others same_delivery w" using assms(1) by (simp add: others_def alone_def same_delivery_def)
  with state_io_relD [OF delivery_meter assms(2)] show ?thesis by (simp add: moves_def)
qed

lemma CreateMessage_row:
  "CreateMessage \<lparr>msg_ID = 0, msg_WorkspaceID = ws, msg_FromEmail = frm,
            msg_ToEmail = to, msg_Subject = subject, msg_BodyText = body,
            msg_Status = (if b then ''suppressed'' else ''queued''),
            msg_ScheduledAt = None, msg_CreatedAt = zero_time, msg_UpdatedAt = zero_time\<rparr> t d =
     (if has_workspace ws d
      then (Inr (new_row (db_message_seq d + 1) ws frm to subject body b t),
            d\<lparr>db_messages := db_messages d @ [new_row (db_message_seq d + 1) ws frm to subject body b t],
              db_message_seq := db_message_seq d + 1\<rparr>)
      else (Inl fk_error, d))"
  by (simp add: CreateMessage_def new_row_def Let_def)

lemma queue_ok:
  assumes "alone w" and "run_state (queue f) w = (Inr (), w')"
  shows "w' = after_step ((w_shared w)\<lparr>sh_queue := f (sh_queue (w_shared w))\<rparr>) w"
  using assms by (auto simp: queue_def call_def on_queue_def Let_def split: fault.splits)

lemma admit_ok:
  assumes al: "alone w" and run: "run_state (admit_message s ws frm to subject body) w = (Inr m, w')"
  shows "\<exists>t. m = new_row (db_message_seq (sh_db (w_shared w)) + 1) ws frm to subject body
      (listed ws to (sh_db (w_shared w))) t \<and> admitted_as m (w_shared w) (w_shared w')"
proof -
  let ?d = "sh_db (w_shared w)"
  obtain r1 w1 where sup: "run_state (store (IsSuppressed ws to)) w = (r1, w1)" by (metis surj_pair)
  note s1 = store_read [OF sup reads(1)]
  obtain r2 w2 where uns: "run_state (store (IsUnsubscribed ws to)) w1 = (r2, w2)" by (metis surj_pair)
  note s2 = store_read [OF uns reads(2)]
  from run sup uns obtain sp un where r12: "r1 = Inr sp" "r2 = Inr un"
    by (auto simp: admit_message_def split: sum.splits)
  have lst: "(sp \<or> un) = listed ws to ?d" using s1 s2 r12 al by (auto simp: listed_def)
  have w2: "w2 = idle (idle w)" "alone w2" using s1 s2 al by simp_all
  let ?row = "new_row (db_message_seq ?d + 1) ws frm to subject body (sp \<or> un) (w_clock w2 (w_step w2))"
  obtain r3 w3 where cr: "run_state (store (CreateMessage \<lparr>msg_ID = 0, msg_WorkspaceID = ws, msg_FromEmail = frm,
            msg_ToEmail = to, msg_Subject = subject, msg_BodyText = body,
            msg_Status = (if sp \<or> un then ''suppressed'' else ''queued''),
            msg_ScheduledAt = None, msg_CreatedAt = zero_time, msg_UpdatedAt = zero_time\<rparr>)) w2 = (r3, w3)"
    by (metis surj_pair)
  from run sup uns r12 cr obtain m' where r3: "r3 = Inr m'"
    by (auto simp: admit_message_def split: sum.splits)
  note c = store_ok [OF cr [unfolded r3]]
  have m': "m' = ?row" and w3: "db_messages (sh_db (w_shared w3)) = db_messages ?d @ [?row]"
    "db_attempts (sh_db (w_shared w3)) = db_attempts ?d" "sh_queue (w_shared w3) = sh_queue (w_shared w)" "alone w3"
    using c w2 al by (auto simp: CreateMessage_row upd_db_def split: if_splits)
  show ?thesis
  proof (cases "sp \<or> un")
    case True
    obtain r4 w4 where met: "run_state (meter s ws (msg_ID m') ''message_suppressed'' (source_metadata ''queue_message'')) w3 = (r4, w4)"
      by (metis surj_pair)
    have "m = m'" "w' = w4" using run sup uns r12 cr r3 True met by (auto simp: admit_message_def)
    with meter_same [OF w3(4) met] w3 m' lst True show ?thesis
      by (intro exI [of _ "w_clock w2 (w_step w2)"]) (auto simp: same_delivery_def admitted_as_def new_row_def)
  next
    case False
    have rest: "run_state (do {
       r \<leftarrow> queue_Enqueue s (msg_ID m');
       case r of Inl e \<Rightarrow> State_Monad.return (Inl e) | Inr _ \<Rightarrow> do {
       _ \<leftarrow> meter s ws (msg_ID m') ''message_queued'' (source_metadata ''queue_message'');
       State_Monad.return (Inr m') }}) w3 = (Inr m, w')"
      using run sup uns r12 cr r3 False by (simp add: admit_message_def)
    then have q: "svc_queue s \<noteq> NilQueue" by (auto simp: queue_Enqueue_def split: if_splits)
    obtain r4 w4 where enq: "run_state (queue (Enqueue (msg_ID m'))) w3 = (r4, w4)" by (metis surj_pair)
    obtain r5 w5 where met: "run_state (meter s ws (msg_ID m') ''message_queued'' (source_metadata ''queue_message'')) w4 = (r5, w5)"
      by (metis surj_pair)
    from rest enq met q have eq: "r4 = Inr ()" "m = m'" "w' = w5"
      by (auto simp: queue_Enqueue_def split: sum.splits)
    note e = queue_ok [OF w3(4) enq [unfolded eq(1)]]
    then have "alone w4" using w3(4) by simp
    with meter_same [OF this met] e w3 m' lst False eq show ?thesis
      by (intro exI [of _ "w_clock w2 (w_step w2)"]) (auto simp: same_delivery_def admitted_as_def new_row_def)
  qed
qed

lemma QueueMessage_admits:
  assumes al: "alone w" and run: "run_state (QueueMessage s ws frm to subject body) w = (Inr m, w')"
  shows "extractDomain to \<noteq> [] \<and> \<not> blocked_in s ws to (sh_db (w_shared w)) \<and>
    within_limit (pol_RateLimitWorkspacePerHour (policy_in s ws (sh_db (w_shared w)))) ws [] w \<and>
    within_limit (pol_RateLimitDomainPerHour (policy_in s ws (sh_db (w_shared w)))) ws (extractDomain to) w \<and>
    (\<exists>t. m = new_row (db_message_seq (sh_db (w_shared w)) + 1) ws frm to subject body
       (listed ws to (sh_db (w_shared w))) t) \<and>
    admitted_as m (w_shared w) (w_shared w')"
  using al run
proof (cases rule: QueueMessage_cases)
  case (admitted w1)
  then have "alone w1" "w_shared w1 = w_shared w \<or> True" using only_looked_alone al by auto
  with admit_ok [OF _ admitted(2)] admitted show ?thesis
    by (auto simp: only_looked_def same_tables_def admitted_as_def)
qed simp


lemma admit_silent: "state_io_rel silent (admit_message s ws frm to subject body)"
  unfolding admit_message_def queue_Enqueue_def by (intro silent_steps silent_meter)

lemma admit_failed:
  assumes al: "alone w" and run: "run_state (admit_message s ws frm to subject body) w = (Inl e, w')"
  shows "same_delivery (w_shared w) (w_shared w') \<or>
    (\<exists>t. left_behind (new_row (db_message_seq (sh_db (w_shared w)) + 1) ws frm to subject body
       (listed ws to (sh_db (w_shared w))) t) (w_shared w) (w_shared w'))"
proof -
  let ?d = "sh_db (w_shared w)"
  obtain r1 w1 where sup: "run_state (store (IsSuppressed ws to)) w = (r1, w1)" by (metis surj_pair)
  note s1 = store_read [OF sup reads(1)]
  obtain r2 w2 where uns: "run_state (store (IsUnsubscribed ws to)) w1 = (r2, w2)" by (metis surj_pair)
  note s2 = store_read [OF uns reads(2)]
  have w2: "w2 = idle (idle w)" "alone w2" using s1 s2 al by simp_all
  show ?thesis
  proof (cases "\<exists>sp un. r1 = Inr sp \<and> r2 = Inr un")
    case False
    then have "w' = w1 \<or> w' = w2" using run sup uns by (auto simp: admit_message_def split: sum.splits)
    then show ?thesis using s1 s2 al by (auto simp: same_delivery_def)
  next
    case True
    then obtain sp un where r12: "r1 = Inr sp" "r2 = Inr un" by blast
    have lst: "(sp \<or> un) = listed ws to ?d" using s1 s2 r12 al by (auto simp: listed_def)
    let ?t = "w_clock w2 (w_step w2)"
    let ?row = "new_row (db_message_seq ?d + 1) ws frm to subject body (sp \<or> un) ?t"
    obtain r3 w3 where cr: "run_state (store (CreateMessage \<lparr>msg_ID = 0, msg_WorkspaceID = ws, msg_FromEmail = frm,
            msg_ToEmail = to, msg_Subject = subject, msg_BodyText = body,
            msg_Status = (if sp \<or> un then ''suppressed'' else ''queued''),
            msg_ScheduledAt = None, msg_CreatedAt = zero_time, msg_UpdatedAt = zero_time\<rparr>)) w2 = (r3, w3)"
      by (metis surj_pair)
    have w3: "same_delivery (w_shared w) (w_shared w3) \<and> (\<exists>e. r3 = Inl e) \<or>
        left_behind ?row (w_shared w) (w_shared w3) \<and> sh_queue (w_shared w3) = sh_queue (w_shared w)"
      using cr
    proof (cases rule: store_run)
      case (refused e)
      then show ?thesis using w2 al by (simp add: same_delivery_def)
    next
      case ran
      then show ?thesis
        using w2 al by (auto simp: CreateMessage_row upd_db_def same_delivery_def left_behind_def split: if_splits)
    qed
    have al3: "alone w3" using silentD cr w2(2) state_io_relD [OF silent_calls(1) cr]
      by (simp add: silent_def same_env_def alone_def)
    show ?thesis
    proof (cases r3)
      case (Inl e3)
      then have "w' = w3" using run sup uns r12 cr by (simp add: admit_message_def)
      with w3 lst show ?thesis by auto
    next
      case (Inr m')
      have m': "m' = ?row" using store_ok(1) [OF cr [unfolded Inr]] w2 al by (simp add: CreateMessage_row split: if_splits)
      have nb: "\<not> (sp \<or> un)" using run sup uns r12 cr Inr by (auto simp: admit_message_def split: prod.splits if_splits)
      obtain r4 w4 where enq: "run_state (queue_Enqueue s (msg_ID m')) w3 = (r4, w4)" by (metis surj_pair)
      have "w' = w4"
        using run sup uns r12 cr Inr nb enq by (auto simp: admit_message_def split: prod.splits sum.splits)
      moreover have "w_shared w4 = w_shared w3 \<or> w_shared w4 = (w_shared w3)\<lparr>sh_queue := Enqueue (msg_ID m') (sh_queue (w_shared w3))\<rparr>"
        using enq al3 by (auto simp: queue_Enqueue_def queue_def call_def on_queue_def Let_def split: if_splits fault.splits)
      ultimately show ?thesis
        using w3 Inr m' nb lst
        by (intro disjI2 exI [of _ ?t]) (auto simp: left_behind_def new_row_def)
    qed
  qed
qed




end
