(* ===== verification/Message_Policy.thy ===== *)
theory Message_Policy
  imports Message_Queueing
begin

text \<open>
  The pure parts of the service: the backoff schedule, the normalised lists, the policy round trip,
  the classes of errors, and how recipients of a domain are counted.
\<close>

section \<open>Definitions\<close>

text \<open>The reference: keep the first occurrence of every normalised, non-empty name.\<close>

definition first_occurrences :: "'a list \<Rightarrow> 'a list" where
  "first_occurrences xs = rev (remdups (rev xs))"

definition normal_domain :: "string \<Rightarrow> string" where
  "normal_domain d = ToLower (TrimSpace d)"

definition effective_policy :: "MessageService \<Rightarrow> WorkspacePolicy \<Rightarrow> WorkspacePolicy" where
  "effective_policy s p =
     \<lparr>pol_WorkspaceID = (if pol_WorkspaceID p = 0 then 1 else pol_WorkspaceID p),
      pol_RateLimitWorkspacePerHour =
        (if pol_RateLimitWorkspacePerHour p < 1 then svc_defaultWorkspaceRate s else pol_RateLimitWorkspacePerHour p),
      pol_RateLimitDomainPerHour =
        (if pol_RateLimitDomainPerHour p < 1 then svc_defaultDomainRate s else pol_RateLimitDomainPerHour p),
      pol_BlockedRecipientDomains = normalizeDomains (pol_BlockedRecipientDomains p)\<rparr>"

lemma shift_one_word: "push_bit n (1 :: 64 word) = word_of_int (2 ^ n)"
  by (simp add: push_bit_eq_mult)

lemma shift_one_small: "0 \<le> n \<Longrightarrow> n \<le> 62 \<Longrightarrow> shift_one n = 2 ^ nat n"
proof -
  assume n: "0 \<le> n" "n \<le> 62"
  then have "(2::int) ^ nat n \<le> 2 ^ 62" by (intro power_increasing) auto
  then have lt: "(2::int) ^ nat n < 2 ^ 63" by simp
  have ge: "- (2 ^ 63) \<le> (2::int) ^ nat n" by (rule order_trans [of _ 0]) simp_all
  show ?thesis
    unfolding shift_one_def shift_one_word
    by (simp only: sint_sbintrunc' len_num1 len_bit0 len_bit1) (use lt ge in \<open>simp add: signed_take_bit_int_eq_self_iff\<close>)
qed

lemma shift_one_63: "shift_one 63 = - (2 ^ 63)"
  by (simp add: shift_one_def)

lemma shift_one_large: "64 \<le> n \<Longrightarrow> shift_one n = 0"
proof -
  assume "64 \<le> n"
  then have zero: "(2 :: 64 word) ^ nat n = 0" by (simp add: exp_eq_zero_iff)
  show ?thesis unfolding shift_one_def push_bit_eq_mult mult_1 zero by simp
qed

lemma duration_mult_small:
  "\<bar>a\<bar> \<le> 32 \<Longrightarrow> duration_mult a Second = a * Second"
proof -
  assume "\<bar>a\<bar> \<le> 32"
  then have "- (2 ^ 63) \<le> a * Second" "a * Second < 2 ^ 63" by (simp_all add: time_units)
  moreover have "(word_of_int a * word_of_int Second :: 64 word) = word_of_int (a * Second)" by simp
  ultimately show ?thesis
    unfolding duration_mult_def
    by (simp only: sint_sbintrunc' len_num1 len_bit0 len_bit1) (simp add: signed_take_bit_int_eq_self_iff)
qed

lemma duration_mult_min: "duration_mult (- (2 ^ 63)) Second = 0"
  by (simp add: duration_mult_def time_units)

text \<open>
  For attempts 1 to 63 the backoff doubles from one second and is capped at 32 seconds; from
  attempt 64 on the shift has left the 64 bits of the integer and there is no delay at all.
\<close>

theorem backoff_schedule:
  "backoffDuration n =
     (if n < 1 then Second else if n \<le> 63 then min (2 ^ nat (n - 1)) 32 * Second else 0)"
proof -
  consider "n < 1" | "1 \<le> n" "n \<le> 63" | "n = 64" | "65 \<le> n" by linarith
  then show ?thesis
  proof cases
    case 1
    then show ?thesis by (simp add: backoffDuration_def shift_one_small duration_mult_small)
  next
    case 2
    then show ?thesis
      by (simp add: backoffDuration_def Let_def shift_one_small min_def duration_mult_small)
  next
    case 3
    have "shift_one 63 = - (2 ^ 63)" by (rule shift_one_63)
    then show ?thesis using 3 duration_mult_min by (simp add: backoffDuration_def Let_def)
  next
    case 4
    then show ?thesis by (simp add: backoffDuration_def shift_one_large duration_mult_small)
  qed
qed

section \<open>Normalised lists\<close>

lemma first_occurrences_Cons:
  "first_occurrences (x # xs) = x # filter (\<lambda>y. y \<noteq> x) (first_occurrences xs)"
proof -
  have "remdups (ys @ [x]) = filter (\<lambda>y. y \<noteq> x) (remdups ys) @ [x]" for ys
    by (induction ys) auto
  then show ?thesis by (simp add: first_occurrences_def rev_filter)
qed

lemma normalize_domains_eq:
  "normalize_domains seen ds =
     filter (\<lambda>v. v \<notin> seen) (first_occurrences (filter (\<lambda>v. v \<noteq> []) (map normal_domain ds)))"
proof (induction ds arbitrary: seen)
  case Nil
  then show ?case by (simp add: first_occurrences_def)
next
  case (Cons d ds)
  show ?case
    by (auto simp: Cons.IH first_occurrences_Cons normal_domain_def Let_def intro!: filter_cong)
qed

lemma normalize_ids_eq:
  "normalize_ids seen ids = filter (\<lambda>i. i \<notin> seen) (first_occurrences (filter (\<lambda>i. 0 < i) ids))"
proof (induction ids arbitrary: seen)
  case Nil
  then show ?case by (simp add: first_occurrences_def)
next
  case (Cons i ids)
  show ?case
    by (auto simp: Cons.IH first_occurrences_Cons not_le intro!: filter_cong)
qed

text \<open>
  The loops that normalise a list of domains or of ids against a set of names already seen
  compute the first occurrences, in order, of the lower-cased, trimmed, non-empty domains and of
  the positive ids.
\<close>

theorem normalizers_reference:
  "normalizeDomains ds = first_occurrences (filter (\<lambda>v. v \<noteq> []) (map normal_domain ds)) \<and>
   normalizePositiveIDs ids = first_occurrences (filter (\<lambda>i. 0 < i) ids)"
  by (simp add: normalizeDomains_def normalizePositiveIDs_def normalize_domains_eq normalize_ids_eq)

lemma set_first_occurrences [simp]: "set (first_occurrences xs) = set xs"
  by (simp add: first_occurrences_def)

lemma distinct_first_occurrences [simp]: "distinct (first_occurrences xs)"
  by (simp add: first_occurrences_def)

lemma first_occurrences_distinct: "distinct xs \<Longrightarrow> first_occurrences xs = xs"
  by (simp add: first_occurrences_def distinct_remdups_id)

lemma set_normalizeDomains: "set (normalizeDomains ds) = normal_domain ` set ds - {[]}"
  by (auto simp: normalizeDomains_def normalize_domains_eq)

lemma normal_domain_idem [simp]: "normal_domain (normal_domain d) = normal_domain d"
  by (simp add: normal_domain_def TrimSpace_ToLower)

lemma normalizeDomains_idem: "normalizeDomains (normalizeDomains ds) = normalizeDomains ds"
proof -
  have fixed: "v \<in> set (normalizeDomains ds) \<Longrightarrow> normal_domain v = v \<and> v \<noteq> []" for v
    by (auto simp: set_normalizeDomains)
  then have "filter (\<lambda>v. v \<noteq> []) (map normal_domain (normalizeDomains ds)) = normalizeDomains ds"
    by (simp add: map_idI filter_id_conv)
  moreover have "distinct (normalizeDomains ds)"
    by (simp add: normalizeDomains_def normalize_domains_eq)
  ultimately show ?thesis
    by (subst normalizeDomains_def) (simp add: normalize_domains_eq first_occurrences_distinct)
qed

lemma isBlockedDomain_iff: "isBlockedDomain ds d \<longleftrightarrow> normal_domain d \<in> normal_domain ` set ds"
  by (induction ds) (auto simp: normal_domain_def)

section \<open>The policy round trip\<close>

lemma splitDomains_Join:
  assumes "\<forall>d \<in> set ds. CHR '','' \<notin> set d"
  shows "splitDomains (Join ds '','') = filter (\<lambda>v. v \<noteq> []) (map normal_domain ds)"
proof (cases "ds = []")
  case True
  then show ?thesis by (simp add: splitDomains_def ToLower_def)
next
  case False
  then show ?thesis using Split_Join [OF False assms] by (simp add: splitDomains_def normal_domain_def [abs_def])
qed

lemma set_TrimSpace: "set (TrimSpace s) \<subseteq> set s"
proof -
  have "set (strip_seqs ps t) \<subseteq> set t" for ps t
    using strip_seqs_drop [of ps t] set_drop_subset by metis
  then show ?thesis
    unfolding TrimSpace_def TrimLeft_def TrimRight_def by (metis set_rev subset_trans)
qed

lemma lower_char_comma: "lower_char c = CHR '','' \<longleftrightarrow> c = CHR '',''"
  by (rule lower_char_eq_caseless) code_simp

lemma normal_domain_comma: "CHR '','' \<notin> set d \<Longrightarrow> CHR '','' \<notin> set (normal_domain d)"
proof -
  assume d: "CHR '','' \<notin> set d"
  have "lower_char x \<noteq> CHR '',''" if "x \<in> set (TrimSpace d)" for x
    using d that set_TrimSpace [of d] by (auto simp: lower_char_comma)
  then show ?thesis unfolding normal_domain_def ToLower_def by (metis image_iff set_map)
qed

lemma service_policy_store:
  "service_UpsertWorkspacePolicy s p = store (UpsertWorkspacePolicy (effective_policy s p))"
  by (cases p) (simp add: service_UpsertWorkspacePolicy_def effective_policy_def Let_def)

lemma workspacePolicy_clean:
  "clean w \<Longrightarrow> run_state (workspacePolicy s ws) w = (Inr (policy_in s ws (sh_db (w_shared w))), idle w)"
  by (simp add: workspacePolicy_def run_store_clean GetWorkspacePolicy_def policy_in_def upd_db_def idle_def Let_def
      split: option.split)

lemma stored_domains:
  assumes "\<forall>d \<in> set ds. CHR '','' \<notin> set d"
  shows "normalizeDomains (splitDomains (Join (normalizeDomains ds) '','')) = normalizeDomains ds"
proof -
  have "\<forall>d \<in> set (normalizeDomains ds). CHR '','' \<notin> set d"
    using assms normal_domain_comma by (auto simp: set_normalizeDomains)
  then have "splitDomains (Join (normalizeDomains ds) '','') =
      filter (\<lambda>v. v \<noteq> []) (map normal_domain (normalizeDomains ds))"
    by (rule splitDomains_Join)
  also have "\<dots> = normalizeDomains ds"
    by (rule trans [OF filter_True map_idI]) (auto simp: set_normalizeDomains)
  finally show ?thesis by (simp add: normalizeDomains_idem)
qed

text \<open>
  A policy that was stored is read back as it takes effect: the default workspace for 0, the
  default rates for rates below 1, and the blocked domains normalised, provided none of them holds
  a comma, the separator of the column.
\<close>

theorem policy_roundtrip:
  assumes w: "alone w" "faultless w"
    and ws: "has_workspace (pol_WorkspaceID (effective_policy s p)) (sh_db (w_shared w))"
    and rng: "is_int32 (pol_RateLimitWorkspacePerHour (effective_policy s p))"
      "is_int32 (pol_RateLimitDomainPerHour (effective_policy s p))"
    and comma: "\<forall>d \<in> set (pol_BlockedRecipientDomains p). CHR '','' \<notin> set d"
    and run: "run_state (service_UpsertWorkspacePolicy s p) w = (r, w')"
  shows "r = Inr () \<and> fst (run_state (workspacePolicy s (pol_WorkspaceID p)) w') = Inr (effective_policy s p)"
proof -
  have c: "clean w" using w by (simp add: clean_def)
  have run': "r = Inr ()" "w' = after_step (upd_db (UpsertWorkspacePolicy (effective_policy s p) (now_of w)) (w_shared w)) w"
    using run ws rng by (auto simp: service_policy_store run_store_clean [OF c] UpsertWorkspacePolicy_def)
  then have "clean w'" using c by simp
  moreover have "policy_in s (pol_WorkspaceID p) (sh_db (w_shared w')) = effective_policy s p"
    using ws rng stored_domains [OF comma]
    by (simp add: run' upd_db_def UpsertWorkspacePolicy_def policy_in_def effective_policy_def Let_def)
  ultimately show ?thesis using run' by (simp add: workspacePolicy_clean)
qed

text \<open>The hypotheses hold for a policy with padded and repeated domains.\<close>

theorem policy_roundtrip_witness:
  "let p = \<lparr>pol_WorkspaceID = 0, pol_RateLimitWorkspacePerHour = 0, pol_RateLimitDomainPerHour = 7,
            pol_BlockedRecipientDomains = ['' Bad.example'', ''bad.example'']\<rparr>;
       w = demo_world (demo_db ''queued'') demo_relay
   in fst (run_state (workspacePolicy demo_service 0) (snd (run_state (service_UpsertWorkspacePolicy demo_service p) w))) =
      Inr \<lparr>pol_WorkspaceID = 1, pol_RateLimitWorkspacePerHour = 100, pol_RateLimitDomainPerHour = 7,
           pol_BlockedRecipientDomains = [''bad.example'']\<rparr>"
proof -
  let ?p = "\<lparr>pol_WorkspaceID = 0, pol_RateLimitWorkspacePerHour = 0, pol_RateLimitDomainPerHour = 7,
            pol_BlockedRecipientDomains = ['' Bad.example'', ''bad.example'']\<rparr>"
  let ?w = "demo_world (demo_db ''queued'') demo_relay"
  have env: "alone ?w" "faultless ?w" by (simp_all add: alone_def faultless_def demo_world_def)
  have hyps: "has_workspace (pol_WorkspaceID (effective_policy demo_service ?p)) (sh_db (w_shared ?w))"
    "is_int32 (pol_RateLimitWorkspacePerHour (effective_policy demo_service ?p))"
    "is_int32 (pol_RateLimitDomainPerHour (effective_policy demo_service ?p))"
    "\<forall>d \<in> set (pol_BlockedRecipientDomains ?p). CHR '','' \<notin> set d"
    by code_simp+
  have eff: "effective_policy demo_service ?p = \<lparr>pol_WorkspaceID = 1, pol_RateLimitWorkspacePerHour = 100,
      pol_RateLimitDomainPerHour = 7, pol_BlockedRecipientDomains = [''bad.example'']\<rparr>" by code_simp
  from policy_roundtrip [OF env hyps prod.collapse [symmetric], THEN conjunct2] show ?thesis
    unfolding Let_def eff by simp
qed

section \<open>Error texts\<close>

lemma rate_limited_text: "index_of '': '' (Error_text (ErrRateLimited reason)) = Some reason"
  by (simp add: HasPrefix_def)

text \<open>
  The reason of a rate limit error, if it is trimmed and not empty, is recovered from the text of
  the error, and every error \<open>QueueMessage\<close> returns is reported under its class.
\<close>

theorem queue_error_classes:
  assumes "TrimSpace reason = reason" and "reason \<noteq> []"
  shows "RateLimitReason (Some (ErrRateLimited reason)) = reason \<and>
    FormatQueueError (Some (ErrRateLimited reason)) = ''rate_limited:'' @ reason \<and>
    FormatQueueError (Some ErrBlockedRecipientDomain) = ''blocked_recipient_domain'' \<and>
    FormatQueueError (Some ErrBadRequest) = ''bad_request'' \<and>
    FormatQueueError (Some (ErrDriver text)) = ''internal_error'' \<and>
    FormatQueueError (Some (ErrConstraint text)) = ''internal_error''"
  using assms rate_limited_text [of reason]
  by (simp add: RateLimitReason_def FormatQueueError_def is_ErrRateLimited_def)

text \<open>The hypotheses hold for the reasons of the limiter.\<close>

theorem queue_error_classes_witness:
  "RateLimitReason (Some (ErrRateLimited ''workspace_hourly_limit'')) = ''workspace_hourly_limit''"
proof -
  have "TrimSpace ''workspace_hourly_limit'' = ''workspace_hourly_limit''" by code_simp
  from queue_error_classes [OF this] show ?thesis by simp
qed

section \<open>Counting a domain\<close>

text \<open>
  The service takes the domain of a recipient from the last at sign and trims it; the count
  behind the domain limit takes the second field of the stored address untrimmed. An address with
  a trailing blank is checked against the limit of its domain and never counted towards it.
\<close>

theorem padded_recipient_not_counted:
  assumes "msg_ToEmail m = ''v@example.org ''"
  shows "extractDomain (msg_ToEmail m) = ''example.org'' \<and>
    sent_since ws ''example.org'' since (d\<lparr>db_messages := db_messages d @ [m]\<rparr>) = sent_since ws ''example.org'' since d"
proof -
  have "extractDomain ''v@example.org '' = ''example.org''" by code_simp
  moreover have "ToLower (split_part2 ''v@example.org '') \<noteq> ToLower (TrimSpace ''example.org'')" by code_simp
  ultimately show ?thesis using assms by (simp add: sent_since_def)
qed

text \<open>The hypothesis holds for a message to such an address.\<close>

theorem padded_recipient_not_counted_witness:
  "sent_since 1 ''example.org'' 0 (empty_db\<lparr>db_messages := db_messages empty_db @
      [(demo_message ''queued'')\<lparr>msg_ToEmail := ''v@example.org ''\<rparr>]\<rparr>) = 0"
proof -
  have "msg_ToEmail ((demo_message ''queued'')\<lparr>msg_ToEmail := ''v@example.org ''\<rparr>) = ''v@example.org ''" by simp
  from padded_recipient_not_counted [OF this, of 1 0 empty_db] show ?thesis
    by (simp add: sent_since_def empty_db_def)
qed

end
