(* ===== verification/Message_Recovery.thy ===== *)
theory Message_Recovery
  imports Message_Policy
begin

text \<open>
  Recovery and manual retries: what \<open>RecoverQueue\<close> puts back on the queue and what it leaves alone,
  and that \<open>RetryMessages\<close> stays inside its workspace and accounts for every message.
\<close>

section \<open>Definitions\<close>

definition stale_sending :: "go_time \<Rightarrow> Message \<Rightarrow> bool" where
  "stale_sending older m \<longleftrightarrow> msg_Status m = ''sending'' \<and> msg_UpdatedAt m \<le> older"

text \<open>The ids \<open>ClaimQueuedMessagesForRecovery\<close> hands out.\<close>

definition recovered_ids :: "go_time \<Rightarrow> int \<Rightarrow> go_time \<Rightarrow> db \<Rightarrow> int list" where
  "recovered_ids older limit now d =
     sort (map msg_ID (take (nat limit) (sort_key msg_UpdatedAt (sort_key msg_ID
       (filter (recovery_candidate older now) (db_messages d))))))"

definition status_kept :: "shared \<Rightarrow> shared \<Rightarrow> bool" where
  "status_kept sh sh' \<longleftrightarrow>
     (\<forall>i. rel_option (\<lambda>m m'. msg_Status m' = msg_Status m \<or> msg_Status m = ''sending'' \<and> msg_Status m' = ''unknown'')
        (find_message i (sh_db sh)) (find_message i (sh_db sh')))"

text \<open>Messages outside the workspace are untouched, and no message changes workspace.\<close>

definition isolated :: "int \<Rightarrow> shared \<Rightarrow> shared \<Rightarrow> bool" where
  "isolated ws sh sh' \<longleftrightarrow>
     (\<forall>i. rel_option (\<lambda>m m'. m' = m \<or> msg_WorkspaceID m = ws \<and> msg_WorkspaceID m' = ws)
        (find_message i (sh_db sh)) (find_message i (sh_db sh')))"

definition own :: "int \<Rightarrow> int \<Rightarrow> shared \<Rightarrow> bool" where
  "own ws i sh \<longleftrightarrow> (\<exists>m. find_message i (sh_db sh) = Some m \<and> msg_WorkspaceID m = ws)"

definition isolates :: "int \<Rightarrow> world \<Rightarrow> world \<Rightarrow> bool" where
  "isolates ws w w' \<longleftrightarrow> alone w' \<and> isolated ws (w_shared w) (w_shared w')"

definition outcomes_add_up :: "MessageRetryResult \<Rightarrow> bool" where
  "outcomes_add_up out \<longleftrightarrow>
     mrr_Retried out + mrr_Skipped out + mrr_Failed out = int (length (mrr_Outcomes out))"

section \<open>Recovery\<close>

lemma ready_ids_Enqueue: "is_int64 i \<Longrightarrow> ready_ids (Enqueue i q) = ready_ids q @ [i]"
  by (simp add: ready_ids_def Enqueue_def ParseInt_FormatInt)

lemma ready_ids_Enqueues: "\<forall>i \<in> set ids. is_int64 i \<Longrightarrow> ready_ids (fold Enqueue ids q) = ready_ids q @ ids"
  by (induction ids arbitrary: q) (simp_all add: ready_ids_Enqueue)

lemma requeue_clean:
  assumes "clean w" and "svc_queue s \<noteq> NilQueue"
  shows "\<exists>w'. run_state (requeue_all s ids res) w = ((None, res\<lparr>rec_Requeued := rec_Requeued res + int (length ids)\<rparr>), w') \<and>
    w_shared w' = (w_shared w)\<lparr>sh_queue := fold Enqueue ids (sh_queue (w_shared w))\<rparr> \<and> w_wire w' = w_wire w"
  using assms(1)
proof (induction ids arbitrary: w res)
  case Nil
  then show ?case by simp
next
  case (Cons i ids)
  let ?w1 = "after_step ((w_shared w)\<lparr>sh_queue := Enqueue i (sh_queue (w_shared w))\<rparr>) w"
  have "clean ?w1" using Cons.prems by simp
  from Cons.IH [OF this, of "res\<lparr>rec_Requeued := rec_Requeued res + 1\<rparr>"] show ?case
    using assms(2) Cons.prems by (auto simp: queue_Enqueue_def run_queue_clean)
qed

lemma recovered_ids_mem:
  assumes "i \<in> set (recovered_ids older limit now d)"
  shows "\<exists>m \<in> set (db_messages d). msg_ID m = i \<and> recovery_candidate older now m"
proof -
  have "set (take k xs) \<subseteq> set xs" for k and xs :: "Message list" by (rule set_take_subset)
  with assms show ?thesis by (fastforce simp: recovered_ids_def)
qed

lemma recovered_ids_all:
  assumes "m \<in> set (db_messages d)" and "recovery_candidate older now m"
    and "int (length (filter (recovery_candidate older now) (db_messages d))) \<le> limit"
  shows "msg_ID m \<in> set (recovered_ids older limit now d)"
  using assms by (simp add: recovered_ids_def)

lemma candidates_after_mark:
  "filter (recovery_candidate b t) (map (\<lambda>m. if stale_sending older m then m\<lparr>msg_Status := ''unknown'', msg_UpdatedAt := u\<rparr> else m) ms) =
     filter (recovery_candidate b t) ms"
  by (induction ms) (auto simp: recovery_candidate_def stale_sending_def)

lemma mark_stale_eq:
  "MarkStaleSendingUnknown older t d =
     (Inr (rows_affected (stale_sending older) d),
      update_messages (stale_sending older) (\<lambda>m. m\<lparr>msg_Status := ''unknown'', msg_UpdatedAt := t\<rparr>) d)"
  by (simp add: MarkStaleSendingUnknown_def stale_sending_def [abs_def] Let_def)

lemma claim_recovery_eq:
  "ClaimQueuedMessagesForRecovery older limit t d =
     (Inr (recovered_ids older limit t d),
      update_messages (\<lambda>m. msg_ID m \<in> set (recovered_ids older limit t d))
        (\<lambda>m. m\<lparr>msg_UpdatedAt := t, msg_ScheduledAt := None\<rparr>) d)"
  by (simp add: ClaimQueuedMessagesForRecovery_def recovered_ids_def Let_def)

lemma recovered_ids_after_mark:
  "recovered_ids b limit t (update_messages (stale_sending older) (\<lambda>m. m\<lparr>msg_Status := ''unknown'', msg_UpdatedAt := u\<rparr>) d) =
     recovered_ids b limit t d"
  unfolding recovered_ids_def update_messages_def by (simp add: candidates_after_mark)

lemma RecoverQueue_clean:
  assumes c: "clean w" and svc: "svc_recovery_store s" "svc_queue s \<noteq> NilQueue"
    and pos: "0 < queuedGrace" "0 < sendingLease" "0 < limit"
    and run: "run_state (RecoverQueue s queuedGrace sendingLease limit) w = ((err, res), w')"
    and older: "older = w_clock w (w_step w) - sendingLease" and before: "before = w_clock w (w_step w + 2) - queuedGrace"
    and req: "requeued = recovered_ids before limit (w_clock w (w_step w + 3)) (sh_db (w_shared w))"
  shows "err = None" and "w_wire w' = w_wire w"
    and "rec_MarkedUnknown res = rows_affected (stale_sending older) (sh_db (w_shared w))"
    and "rec_Requeued res = int (length requeued)"
    and "sh_queue (w_shared w') = fold Enqueue requeued (sh_queue (w_shared w))"
    and "sh_db (w_shared w') = update_messages (\<lambda>m. msg_ID m \<in> set requeued)
        (\<lambda>m. m\<lparr>msg_UpdatedAt := w_clock w (w_step w + 3), msg_ScheduledAt := None\<rparr>)
        (update_messages (stale_sending older)
           (\<lambda>m. m\<lparr>msg_Status := ''unknown'', msg_UpdatedAt := w_clock w (w_step w + 1)\<rparr>) (sh_db (w_shared w)))"
proof -
  let ?res0 = "\<lparr>rec_Requeued = 0, rec_MarkedUnknown = rows_affected (stale_sending older) (sh_db (w_shared w))\<rparr>"
  define w1 where "w1 = after_step (upd_db (MarkStaleSendingUnknown older (w_clock w (w_step w + 1))) (w_shared w)) (idle w)"
  define w3 where "w3 = after_step (upd_db (ClaimQueuedMessagesForRecovery before limit (w_clock w (w_step w + 3))) (w_shared w1)) (idle w1)"
  have c3: "clean w1" "clean w3" using c by (simp_all add: w1_def w3_def)
  have db1: "recovered_ids before limit (w_clock w (w_step w + 3)) (sh_db (w_shared w1)) = requeued"
    by (simp add: w1_def upd_db_def mark_stale_eq recovered_ids_after_mark req)
  have "run_state (RecoverQueue s queuedGrace sendingLease limit) w = run_state (requeue_all s requeued ?res0) w3"
    using c svc pos db1
    by (simp add: RecoverQueue_def Let_def run_now now_of_def run_store_clean w1_def w3_def upd_db_def
        mark_stale_eq claim_recovery_eq older before numeral_2_eq_2 numeral_3_eq_3)
  with requeue_clean [OF c3(2) svc(2), of requeued ?res0] run show "err = None" "w_wire w' = w_wire w"
    "rec_MarkedUnknown res = rows_affected (stale_sending older) (sh_db (w_shared w))"
    "rec_Requeued res = int (length requeued)"
    "sh_queue (w_shared w') = fold Enqueue requeued (sh_queue (w_shared w))"
    "sh_db (w_shared w') = update_messages (\<lambda>m. msg_ID m \<in> set requeued)
        (\<lambda>m. m\<lparr>msg_UpdatedAt := w_clock w (w_step w + 3), msg_ScheduledAt := None\<rparr>)
        (update_messages (stale_sending older)
           (\<lambda>m. m\<lparr>msg_Status := ''unknown'', msg_UpdatedAt := w_clock w (w_step w + 1)\<rparr>) (sh_db (w_shared w)))"
    using db1 by (auto simp: w3_def upd_db_def claim_recovery_eq w1_def mark_stale_eq)
qed

text \<open>
  C28 A recovery without faults puts on the wire nothing, marks exactly the sending claims older
  than the lease as unknown, and appends to the ready list the ids of queued messages that are
  past the grace and due, all of them if the limit allows; so a message whose queueing failed is
  processed after all.
\<close>

theorem RecoverQueue_outcome:
  assumes w: "alone w" "faultless w" and svc: "svc_recovery_store s" "svc_queue s \<noteq> NilQueue"
    and pos: "0 < queuedGrace" "0 < sendingLease" "0 < limit"
    and ids: "\<forall>m \<in> set (db_messages (sh_db (w_shared w))). is_int64 (msg_ID m)"
    and run: "run_state (RecoverQueue s queuedGrace sendingLease limit) w = ((err, res), w')"
    and lease: "older = w_clock w (w_step w) - sendingLease" and grace: "before = w_clock w (w_step w + 2) - queuedGrace"
  shows "err = None \<and> w_wire w' = w_wire w \<and>
    rec_MarkedUnknown res = int (length (filter (stale_sending older) (db_messages (sh_db (w_shared w))))) \<and>
    (\<exists>requeued. rec_Requeued res = int (length requeued) \<and>
       ready_ids (sh_queue (w_shared w')) = ready_ids (sh_queue (w_shared w)) @ requeued \<and>
       (\<forall>i \<in> set requeued. \<exists>m \<in> set (db_messages (sh_db (w_shared w))).
          msg_ID m = i \<and> recovery_candidate before (w_clock w (w_step w + 3)) m) \<and>
       (int (length (filter (recovery_candidate before (w_clock w (w_step w + 3))) (db_messages (sh_db (w_shared w))))) \<le> limit \<longrightarrow>
          (\<forall>m \<in> set (db_messages (sh_db (w_shared w))). recovery_candidate before (w_clock w (w_step w + 3)) m \<longrightarrow>
             msg_ID m \<in> set requeued))) \<and>
    (\<forall>i. map_option msg_Status (find_message i (sh_db (w_shared w'))) =
       map_option (\<lambda>m. if stale_sending older m then ''unknown'' else msg_Status m) (find_message i (sh_db (w_shared w))))"
proof -
  let ?d = "sh_db (w_shared w)" and ?t = "w_clock w (w_step w + 3)"
  have c: "clean w" using w by (simp add: clean_def)
  define requeued where "requeued = recovered_ids before limit ?t ?d"
  note out = RecoverQueue_clean [OF c svc pos run lease grace requeued_def]
  have "\<forall>i \<in> set requeued. is_int64 i"
    using ids recovered_ids_mem unfolding requeued_def by blast
  note ready = ready_ids_Enqueues [OF this, of "sh_queue (w_shared w)"]
  have "\<forall>i \<in> set requeued. \<exists>m \<in> set (db_messages ?d). msg_ID m = i \<and> recovery_candidate before ?t m"
    unfolding requeued_def using recovered_ids_mem by blast
  moreover have "\<forall>m \<in> set (db_messages ?d). recovery_candidate before ?t m \<longrightarrow> msg_ID m \<in> set requeued"
    if "int (length (filter (recovery_candidate before ?t) (db_messages ?d))) \<le> limit"
    unfolding requeued_def using that recovered_ids_all by blast
  moreover have "map_option msg_Status (find_message i (sh_db (w_shared w'))) =
      map_option (\<lambda>m. if stale_sending older m then ''unknown'' else msg_Status m) (find_message i ?d)" for i
    unfolding out(6) by (cases "find_message i ?d") (simp_all add: find_message_update)
  ultimately show ?thesis
    using out(1-5) ready by (auto simp: rows_affected_def)
qed

interpretation statuses: shared_relation status_kept
proof
  show "status_kept sh sh" for sh by (simp add: status_kept_def option.rel_refl)
  show "status_kept sh sh''" if "status_kept sh sh'" "status_kept sh' sh''" for sh sh' sh''
    unfolding status_kept_def
  proof
    fix i
    from that [unfolded status_kept_def, THEN spec, of i]
    show "rel_option (\<lambda>m m'. msg_Status m' = msg_Status m \<or> msg_Status m = ''sending'' \<and> msg_Status m' = ''unknown'')
        (find_message i (sh_db sh)) (find_message i (sh_db sh''))"
      by (cases "find_message i (sh_db sh)"; cases "find_message i (sh_db sh')"; cases "find_message i (sh_db sh'')") auto
  qed
qed

lemma status_kept_update:
  assumes "\<And>m. msg_ID (f m) = msg_ID m"
    and "\<And>m. p m \<Longrightarrow> msg_Status (f m) = msg_Status m \<or> msg_Status m = ''sending'' \<and> msg_Status (f m) = ''unknown''"
  shows "status_kept sh (sh\<lparr>sh_db := update_messages p f (sh_db sh)\<rparr>)"
  unfolding status_kept_def
proof
  fix i
  show "rel_option (\<lambda>m m'. msg_Status m' = msg_Status m \<or> msg_Status m = ''sending'' \<and> msg_Status m' = ''unknown'')
      (find_message i (sh_db sh)) (find_message i (sh_db (sh\<lparr>sh_db := update_messages p f (sh_db sh)\<rparr>)))"
    using assms by (cases "find_message i (sh_db sh)") (auto simp: find_message_update)
qed

lemma recover_statuses: "state_io_rel (moves status_kept) (RecoverQueue s g l lim)"
proof -
  have mark: "state_io_rel (moves status_kept) (store (MarkStaleSendingUnknown older))" for older
    by (rule statuses.moves_store) (auto simp: mark_stale_eq stale_sending_def intro!: status_kept_update)
  have claim: "state_io_rel (moves status_kept) (store (ClaimQueuedMessagesForRecovery older limit))" for older limit
    by (rule statuses.moves_store) (auto simp: claim_recovery_eq intro!: status_kept_update)
  have enq: "state_io_rel (moves status_kept) (queue_Enqueue s i)" for i
    by (auto simp: queue_Enqueue_def status_kept_def option.rel_refl
        intro!: statuses.moves_queue statuses.world.within_return)
  have all: "state_io_rel (moves status_kept) (requeue_all s ids res)" for ids res
    by (induction ids arbitrary: res)
       (simp_all, (intro statuses.world.within_return statuses.world.within_bind statuses.world.within_sum enq | assumption)+)
  show ?thesis
    unfolding RecoverQueue_def
    by (intro statuses.world.within_let statuses.world.within_if statuses.world.within_return statuses.world.within_bind
        statuses.world.within_sum statuses.moves_env mark claim all)
qed

lemma recover_silent: "state_io_rel silent (RecoverQueue s g l lim)"
proof -
  have enq: "state_io_rel silent (queue_Enqueue s i)" for i
    unfolding queue_Enqueue_def by (intro silent_steps)
  have all: "state_io_rel silent (requeue_all s ids res)" for ids res
    by (induction ids arbitrary: res)
       (simp_all, (intro silent.within_return silent.within_bind silent.within_sum enq | assumption)+)
  show ?thesis unfolding RecoverQueue_def by (intro silent_steps all)
qed

text \<open>
  Whatever calls of a recovery fail or lose their answer, it sends nothing and changes the
  status of no message, except that a claim in the state \<open>sending\<close> may become \<open>unknown\<close>: an
  ambiguous delivery is never queued again.
\<close>

theorem RecoverQueue_never_resends:
  assumes "alone w" and "run_state (RecoverQueue s queuedGrace sendingLease limit) w = (r, w')"
  shows "w_wire w' = w_wire w \<and> status_kept (w_shared w) (w_shared w')"
proof -
  have "others status_kept w" using assms(1) by (simp add: others_def alone_def statuses.refl)
  with state_io_relD [OF recover_statuses assms(2)] silentD [OF recover_silent assms(2)] show ?thesis
    by (simp add: moves_def)
qed

text \<open>The hypotheses hold for a lost claim.\<close>

theorem RecoverQueue_never_resends_witness:
  "let w = demo_world (demo_db ''sending'') demo_relay
   in status_kept (w_shared w) (w_shared (snd (run_state (RecoverQueue demo_service 1 1 10) w)))"
proof -
  have "alone (demo_world (demo_db ''sending'') demo_relay)" by (simp add: alone_def demo_world_def)
  from RecoverQueue_never_resends [OF this prod.collapse [symmetric]] show ?thesis unfolding Let_def by blast
qed

text \<open>The hypotheses hold for a queued message that was left behind.\<close>

theorem RecoverQueue_outcome_witness:
  "let w = (demo_world (demo_db ''queued'') demo_relay)
   in w_wire (snd (run_state (RecoverQueue demo_service 1 1 10) w)) = [] \<and>
      ready_ids (sh_queue (w_shared (snd (run_state (RecoverQueue demo_service 1 1 10) w)))) = [1]"
proof -
  let ?w = "demo_world (demo_db ''queued'') demo_relay"
  let ?run = "run_state (RecoverQueue demo_service 1 1 10) ?w"
  have env: "alone ?w" "faultless ?w" by (simp_all add: alone_def faultless_def demo_world_def)
  have svc: "svc_recovery_store demo_service" "svc_queue demo_service \<noteq> NilQueue"
    "(0::int) < 1" "(0::int) < 1" "(0::int) < 10" by code_simp+
  have ids: "\<forall>m \<in> set (db_messages (sh_db (w_shared ?w))). is_int64 (msg_ID m)" by code_simp
  have "?run = ((fst (fst ?run), snd (fst ?run)), snd ?run)" by simp
  from RecoverQueue_outcome [OF env svc ids this refl refl]
  have "w_wire (snd ?run) = w_wire ?w" by blast
  moreover have "ready_ids (sh_queue (w_shared (snd ?run))) = [1]" by code_simp
  ultimately show ?thesis by (simp add: demo_world_def)
qed

section \<open>Retries stay in their workspace\<close>

lemma isolated_refl [simp]: "isolated ws sh sh"
  by (simp add: isolated_def option.rel_refl)

lemma isolated_trans: "isolated ws sh sh' \<Longrightarrow> isolated ws sh' sh'' \<Longrightarrow> isolated ws sh sh''"
  unfolding isolated_def
proof
  fix i
  assume one: "\<forall>i. rel_option (\<lambda>m m'. m' = m \<or> msg_WorkspaceID m = ws \<and> msg_WorkspaceID m' = ws)
        (find_message i (sh_db sh)) (find_message i (sh_db sh'))"
    and two: "\<forall>i. rel_option (\<lambda>m m'. m' = m \<or> msg_WorkspaceID m = ws \<and> msg_WorkspaceID m' = ws)
        (find_message i (sh_db sh')) (find_message i (sh_db sh''))"
  from spec [OF one, of i] spec [OF two, of i]
  show "rel_option (\<lambda>m m'. m' = m \<or> msg_WorkspaceID m = ws \<and> msg_WorkspaceID m' = ws)
        (find_message i (sh_db sh)) (find_message i (sh_db sh''))"
    by (cases "find_message i (sh_db sh)"; cases "find_message i (sh_db sh')"; cases "find_message i (sh_db sh'')") auto
qed

lemma own_isolated:
  assumes "own ws i sh" and "isolated ws sh sh'"
  shows "own ws i sh'"
proof -
  obtain m where m: "find_message i (sh_db sh) = Some m" "msg_WorkspaceID m = ws" using assms(1) by (auto simp: own_def)
  with spec [OF assms(2) [unfolded isolated_def], of i] show ?thesis
    by (cases "find_message i (sh_db sh')") (auto simp: own_def)
qed

lemma isolated_update:
  assumes "own ws i sh" and "\<And>m. p m \<Longrightarrow> msg_ID m = i" and "\<And>m. msg_ID (f m) = msg_ID m"
    and "\<And>m. msg_WorkspaceID (f m) = msg_WorkspaceID m"
  shows "isolated ws sh (sh\<lparr>sh_db := update_messages p f (sh_db sh)\<rparr>)"
  unfolding isolated_def
proof
  fix j
  show "rel_option (\<lambda>m m'. m' = m \<or> msg_WorkspaceID m = ws \<and> msg_WorkspaceID m' = ws)
      (find_message j (sh_db sh)) (find_message j (sh_db (sh\<lparr>sh_db := update_messages p f (sh_db sh)\<rparr>)))"
  proof (cases "find_message j (sh_db sh)")
    case (Some m)
    then have "msg_ID m = j" by (simp add: find_message_SomeD)
    with Some assms show ?thesis by (auto simp: find_message_update own_def)
  qed (simp add: find_message_update assms)
qed

lemma isolated_same_messages: "db_messages (sh_db sh') = db_messages (sh_db sh) \<Longrightarrow> isolated ws sh sh'"
  by (simp add: isolated_def find_message_def option.rel_refl)

lemma isolates_store:
  assumes "alone w" and "run_state (store op) w = (r, w')"
    and "\<And>t. isolated ws (w_shared w) (upd_db (op t) (w_shared w))"
  shows "isolates ws w w'"
  using assms(2)
proof (cases rule: store_run)
  case (refused e)
  then show ?thesis using assms(1) by (simp add: isolates_def)
next
  case ran
  then show ?thesis using assms(1,3) by (simp add: isolates_def)
qed

lemma isolates_refl: "alone w \<Longrightarrow> isolates ws w w"
  by (simp add: isolates_def)

lemma isolates_trans: "isolates ws w w' \<Longrightarrow> isolates ws w' w'' \<Longrightarrow> isolates ws w w''"
  unfolding isolates_def using isolated_trans by blast

lemma isolates_enqueue:
  assumes "alone w" and "run_state (queue_Enqueue s i) w = (r, w')"
  shows "isolates ws w w'"
  using assms
  by (auto simp: queue_Enqueue_def queue_def call_def on_queue_def isolates_def Let_def
      intro!: isolated_same_messages split: if_splits fault.splits)

lemma isolates_meter:
  assumes "alone w" and "run_state (meter s w0 i et md) w = (r, w')"
  shows "isolates ws w w'"
  using assms(1) assms(2) [unfolded meter_def]
  by (rule isolates_store) (auto simp: upd_db_def InsertMeteringEvent_def intro!: isolated_same_messages)

lemma isolates_status:
  assumes "alone w" and "own ws i (w_shared w)"
    and "run_state (store (SetMessageStatus i st)) w = (r, w') \<or>
         run_state (store (TransitionMessageStatus i st st')) w = (r', w')"
  shows "isolates ws w w'"
  using assms(3)
proof
  assume "run_state (store (SetMessageStatus i st)) w = (r, w')"
  with assms(1) show ?thesis
    by (rule isolates_store) (auto simp: upd_db_def SetMessageStatus_def intro!: isolated_update [OF assms(2)])
next
  assume "run_state (store (TransitionMessageStatus i st st')) w = (r', w')"
  with assms(1) show ?thesis
    by (rule isolates_store) (auto simp: upd_db_def TransitionMessageStatus_def Let_def intro!: isolated_update [OF assms(2)])
qed

lemma retryMessage_isolates:
  assumes al: "alone w" and pre: "msg_WorkspaceID msg = ws \<Longrightarrow> own ws (msg_ID msg) (w_shared w)"
    and run: "run_state (retryMessage s ws msg out) w = (out', w')"
  shows "isolates ws w w'"
proof (cases "msg_WorkspaceID msg = ws \<and> msg_Status msg = ''failed''")
  case False
  then have "w' = w" using run by (auto simp: retryMessage_def split: if_splits)
  then show ?thesis using al by (simp add: isolates_refl)
next
  case True
  let ?i = "msg_ID msg"
  have o: "own ws ?i (w_shared w)" using pre True by simp
  obtain r1 w1 where tr: "run_state (store (TransitionMessageStatus ?i ''failed'' ''queued'')) w = (r1, w1)"
    by (metis surj_pair)
  have s1: "isolates ws w w1" using isolates_status [OF al o] tr by blast
  then have al1: "alone w1" and o1: "own ws ?i (w_shared w1)" using own_isolated [OF o] by (auto simp: isolates_def)
  obtain r2 w2 where enq: "run_state (queue_Enqueue s ?i) w1 = (r2, w2)" by (metis surj_pair)
  have s2: "isolates ws w1 w2" by (rule isolates_enqueue [OF al1 enq])
  then have al2: "alone w2" and o2: "own ws ?i (w_shared w2)" using own_isolated [OF o1] by (auto simp: isolates_def)
  obtain r3 w3 where back1: "run_state (store (SetMessageStatus ?i ''failed'')) w1 = (r3, w3)" by (metis surj_pair)
  obtain r4 w4 where back2: "run_state (store (SetMessageStatus ?i ''failed'')) w2 = (r4, w4)" by (metis surj_pair)
  obtain r5 w5 where met: "run_state (meter s ws ?i ''message_retried'' (source_metadata ''manual_retry'')) w2 = (r5, w5)"
    by (metis surj_pair)
  have s345: "isolates ws w1 w3" "isolates ws w2 w4" "isolates ws w2 w5"
    using isolates_status [OF al1 o1] back1 isolates_status [OF al2 o2] back2 isolates_meter [OF al2 met] by blast+
  have "w' \<in> {w1, w3, w4, w5}"
    using run True tr enq back1 back2 met by (auto simp: retryMessage_def split: sum.splits if_splits)
  then show ?thesis using s1 s2 s345 by (auto intro: isolates_trans)
qed

lemma retry_ids_isolates:
  assumes "alone w" and "run_state (retry_ids s ws ids out) w = (out', w')"
  shows "isolates ws w w'"
  using assms
proof (induction ids arbitrary: w out)
  case Nil
  then show ?case by (simp add: isolates_refl)
next
  case (Cons i ids)
  obtain r1 w1 where get: "run_state (store (GetMessage i)) w = (r1, w1)" by (metis surj_pair)
  note st = store_read [OF get reads(3)]
  have w1: "alone w1" "w_shared w1 = w_shared w" "isolates ws w w1" using st(1) Cons.prems(1) by (simp_all add: isolates_def)
  show ?case
  proof (cases r1)
    case (Inl e)
    with Cons.prems(2) get have "run_state (retry_ids s ws ids (retry_failed i ''message not found'' out)) w1 = (out', w')" by simp
    from Cons.IH [OF w1(1) this] w1(3) show ?thesis by (rule isolates_trans [rotated])
  next
    case (Inr msg)
    obtain o2 w2 where rm: "run_state (retryMessage s ws msg out) w1 = (o2, w2)" by (metis surj_pair)
    have "find_message i (sh_db (w_shared w1)) = Some msg"
      using st(2) Inr w1(2) Cons.prems(1) by (auto split: option.splits)
    then have "msg_WorkspaceID msg = ws \<Longrightarrow> own ws (msg_ID msg) (w_shared w1)"
      by (auto simp: own_def dest: find_message_SomeD)
    note s2 = retryMessage_isolates [OF w1(1) this rm]
    have "run_state (retry_ids s ws ids o2) w2 = (out', w')" using Cons.prems(2) get Inr rm by simp
    from Cons.IH [OF _ this] s2 w1(3) show ?thesis by (meson isolates_def isolates_trans)
  qed
qed

lemma retry_listed_isolates:
  assumes "alone w" and "\<forall>msg \<in> set msgs. msg_WorkspaceID msg = ws \<longrightarrow> own ws (msg_ID msg) (w_shared w)"
    and "run_state (retry_listed s ws msgs out) w = (out', w')"
  shows "isolates ws w w'"
  using assms
proof (induction msgs arbitrary: w out)
  case Nil
  then show ?case by (simp add: isolates_refl)
next
  case (Cons msg msgs)
  show ?case
  proof (cases "msg_Status msg = ''failed''")
    case False
    with Cons.prems have "run_state (retry_listed s ws msgs out) w = (out', w')" by simp
    with Cons show ?thesis by simp
  next
    case True
    obtain o2 w2 where rm: "run_state (retryMessage s ws msg (out\<lparr>mrr_Requested := mrr_Requested out + 1\<rparr>)) w = (o2, w2)"
      by (metis surj_pair)
    have s2: "isolates ws w w2"
      by (rule retryMessage_isolates [OF Cons.prems(1) _ rm]) (use Cons.prems(2) in simp)
    then have "\<forall>msg \<in> set msgs. msg_WorkspaceID msg = ws \<longrightarrow> own ws (msg_ID msg) (w_shared w2)"
      using Cons.prems(2) own_isolated by (auto simp: isolates_def)
    moreover have "run_state (retry_listed s ws msgs o2) w2 = (out', w')" using Cons.prems(3) True rm by simp
    ultimately have "isolates ws w2 w'" using Cons.IH s2 by (auto simp: isolates_def)
    with s2 show ?thesis by (rule isolates_trans)
  qed
qed

lemma retryMessage_counts:
  assumes "run_state (retryMessage s ws msg out) w = (out', w')" and "outcomes_add_up out"
  shows "outcomes_add_up out' \<and> length (mrr_Outcomes out') = Suc (length (mrr_Outcomes out)) \<and>
    mrr_Requested out' = mrr_Requested out"
  using assms
  by (auto simp: retryMessage_def retry_failed_def retry_skipped_def retry_outcome_def outcomes_add_up_def
      split: if_splits sum.splits prod.splits)

lemma retry_ids_counts:
  assumes "run_state (retry_ids s ws ids out) w = (out', w')" and "outcomes_add_up out"
  shows "outcomes_add_up out' \<and> length (mrr_Outcomes out') = length (mrr_Outcomes out) + length ids \<and>
    mrr_Requested out' = mrr_Requested out"
  using assms
proof (induction ids arbitrary: w out)
  case (Cons i ids)
  obtain r1 w1 where get: "run_state (store (GetMessage i)) w = (r1, w1)" by (metis surj_pair)
  obtain o2 w2 where two: "run_state (case r1 of
      Inl e \<Rightarrow> State_Monad.return (retry_failed i ''message not found'' out)
    | Inr msg \<Rightarrow> retryMessage s ws msg out) w1 = (o2, w2)" by (metis surj_pair)
  have "outcomes_add_up o2 \<and> length (mrr_Outcomes o2) = Suc (length (mrr_Outcomes out)) \<and> mrr_Requested o2 = mrr_Requested out"
    using two Cons.prems(2) retryMessage_counts
    by (auto simp: retry_failed_def retry_outcome_def outcomes_add_up_def split: sum.splits)
  with Cons.IH [of o2 w2] Cons.prems(1) get two show ?case by simp
qed simp

lemma retry_listed_counts:
  assumes "run_state (retry_listed s ws msgs out) w = (out', w')" and "outcomes_add_up out"
    and "mrr_Requested out = int (length (mrr_Outcomes out))"
  shows "outcomes_add_up out' \<and> mrr_Requested out' = int (length (mrr_Outcomes out'))"
  using assms
proof (induction msgs arbitrary: w out)
  case (Cons msg msgs)
  show ?case
  proof (cases "msg_Status msg = ''failed''")
    case True
    obtain o2 w2 where rm: "run_state (retryMessage s ws msg (out\<lparr>mrr_Requested := mrr_Requested out + 1\<rparr>)) w = (o2, w2)"
      by (metis surj_pair)
    have "outcomes_add_up (out\<lparr>mrr_Requested := mrr_Requested out + 1\<rparr>)" using Cons.prems(2) by (simp add: outcomes_add_up_def)
    note rc = retryMessage_counts [OF rm this]
    have "run_state (retry_listed s ws msgs o2) w2 = (out', w')" using Cons.prems(1) True rm by simp
    from Cons.IH [OF this] rc Cons.prems(3) show ?thesis by simp
  next
    case False
    with Cons show ?thesis by simp
  qed
qed simp

lemma silent_retry: "state_io_rel silent (RetryMessages s ws ids limit)"
proof -
  have one: "state_io_rel silent (retryMessage s w0 msg out)" for w0 msg out
    unfolding retryMessage_def queue_Enqueue_def by (intro silent_steps silent_meter)
  have ids: "state_io_rel silent (retry_ids s w0 js out)" for w0 js out
    by (induction js arbitrary: out)
       (simp_all, (intro silent.within_return silent.within_bind silent.within_sum silent_calls one | assumption)+)
  have listed: "state_io_rel silent (retry_listed s w0 msgs out)" for w0 msgs out
    by (induction msgs arbitrary: out) (auto intro!: silent.within_return silent.within_bind one)
  show ?thesis unfolding RetryMessages_def by (intro silent_steps ids listed)
qed

lemma retry_within_workspace:
  assumes al: "alone w" and inv: "message_inv (sh_db (w_shared w))"
    and run: "run_state (RetryMessages s workspaceID messageIDs limit) w = (r, w')"
  shows "isolated (if workspaceID = 0 then 1 else workspaceID) (w_shared w) (w_shared w') \<and> w_wire w' = w_wire w \<and>
    (\<forall>out. r = Inr out \<longrightarrow>
       mrr_Requested out = int (length (mrr_Outcomes out)) \<and>
       mrr_Requested out = mrr_Retried out + mrr_Skipped out + mrr_Failed out)"
proof -
  define ws where "ws = (if workspaceID = 0 then 1 else workspaceID)"
  let ?ids = "normalizePositiveIDs messageIDs"
  let ?out = "\<lparr>mrr_WorkspaceID = ws, mrr_Requested = 0, mrr_Retried = 0, mrr_Skipped = 0, mrr_Failed = 0,
      mrr_ReplaySource = [], mrr_Outcomes = []\<rparr>"
  have sil: "w_wire w' = w_wire w" by (rule silentD [OF silent_retry run])
  show ?thesis
  proof (cases "?ids = []")
    case False
    let ?o = "?out\<lparr>mrr_ReplaySource := ''ids'', mrr_Requested := int (length ?ids)\<rparr>"
    obtain out1 w1 where ri: "run_state (retry_ids s ws ?ids ?o) w = (out1, w1)" by (metis surj_pair)
    have res: "r = Inr out1" "w' = w1" using run ri False by (auto simp: RetryMessages_def Let_def ws_def)
    have "outcomes_add_up ?o" by (simp add: outcomes_add_up_def)
    from retry_ids_counts [OF ri this] retry_ids_isolates [OF al ri] res sil show ?thesis
      by (simp add: isolates_def outcomes_add_up_def flip: ws_def)
  next
    case True
    let ?o = "?out\<lparr>mrr_ReplaySource := ''latest_failed''\<rparr>"
    define lim where "lim = (let l = (if limit < 1 then 20 else limit) in if l > 200 then 200 else l)"
    obtain r1 w1 where lm: "run_state (store (ListMessages ws lim zero_time zero_time)) w = (r1, w1)" by (metis surj_pair)
    note st = store_read [OF lm ListMessages_def]
    have w1: "alone w1" "w_shared w1 = w_shared w" using st(1) al by simp_all
    show ?thesis
    proof (cases r1)
      case (Inl e)
      with run lm True have "r = Inl e" "w' = w1" by (auto simp: RetryMessages_def Let_def ws_def lim_def)
      with w1 sil show ?thesis by simp
    next
      case (Inr msgs)
      have "msg \<in> set (db_messages (sh_db (w_shared w)))" if "msg \<in> set msgs" for msg
        using st(2) Inr that al by (auto dest!: in_set_takeD)
      then have "\<forall>msg \<in> set msgs. msg_WorkspaceID msg = ws \<longrightarrow> own ws (msg_ID msg) (w_shared w1)"
        using find_message_mem [OF inv] w1(2) by (auto simp: own_def)
      moreover obtain out2 w2 where rl: "run_state (retry_listed s ws msgs ?o) w1 = (out2, w2)" by (metis surj_pair)
      ultimately have "isolates ws w1 w2" using retry_listed_isolates w1(1) by blast
      moreover have "r = Inr out2" "w' = w2"
        using run lm True Inr rl by (auto simp: RetryMessages_def Let_def ws_def lim_def)
      moreover have "outcomes_add_up out2 \<and> mrr_Requested out2 = int (length (mrr_Outcomes out2))"
        by (rule retry_listed_counts [OF rl]) (simp_all add: outcomes_add_up_def)
      ultimately show ?thesis using w1 sil by (simp add: isolates_def outcomes_add_up_def flip: ws_def)
    qed
  qed
qed

text \<open>
  A manual retry, whatever calls fail, touches no message outside its workspace and sends
  nothing itself; and the outcomes it reports add up: every requested message is counted once as
  retried, skipped or failed.
\<close>

theorem RetryMessages_isolated:
  assumes al: "alone w" and inv: "message_inv (sh_db (w_shared w))"
    and run: "run_state (RetryMessages s workspaceID messageIDs limit) w = (r, w')"
  shows "isolated (if workspaceID = 0 then 1 else workspaceID) (w_shared w) (w_shared w') \<and> w_wire w' = w_wire w \<and>
    (\<forall>out. r = Inr out \<longrightarrow>
       mrr_Requested out = int (length (mrr_Outcomes out)) \<and>
       mrr_Requested out = mrr_Retried out + mrr_Skipped out + mrr_Failed out)"
  by (rule retry_within_workspace [OF assms])

text \<open>The hypotheses hold for a failed message and an id that does not exist.\<close>

theorem RetryMessages_isolated_witness:
  "let w = demo_world (demo_db ''failed'') demo_relay; run = run_state (RetryMessages demo_service 1 [1, 5, 1] 0) w
   in isolated 1 (w_shared w) (w_shared (snd run)) \<and>
      map mro_Status (case fst run of Inr out \<Rightarrow> mrr_Outcomes out | Inl e \<Rightarrow> []) = [''retried'', ''failed'']"
proof -
  let ?w = "demo_world (demo_db ''failed'') demo_relay"
  have "alone ?w" by (simp add: alone_def demo_world_def)
  moreover have "message_inv (sh_db (w_shared ?w))" by code_simp
  moreover have "map mro_Status (case fst (run_state (RetryMessages demo_service 1 [1, 5, 1] 0) ?w) of
      Inr out \<Rightarrow> mrr_Outcomes out | Inl e \<Rightarrow> []) = [''retried'', ''failed'']" by code_simp
  ultimately show ?thesis
    using RetryMessages_isolated [of ?w demo_service 1 "[1, 5, 1]" 0, OF _ _ prod.collapse [symmetric]]
    unfolding Let_def by simp
qed

end
