(* ===== verification/Webhook_Sig.thy ===== *)
theory Webhook_Sig
  imports Domain_Types Go_Hex
begin

text \<open>
  The webhook signature verifier (\<open>src/internal/webhooksig/verifier.go\<close>). HMAC-SHA256 is a
  parameter; the clock of the server is an argument, as in the source.
\<close>

section \<open>Definitions\<close>

text \<open>The signature errors of \<open>webhooksig\<close>, and the verifier.\<close>

datatype signature_error =
    ErrMissingTimestamp
  | ErrMissingSignature
  | ErrInvalidTimestamp
  | ErrTimestampOutsideTolerance
  | ErrInvalidSignatureFormat
  | ErrSignatureMismatch

record Verifier =
  ver_secret :: string
  ver_maxSkew :: duration

definition NewVerifier :: "string \<Rightarrow> duration \<Rightarrow> Verifier" where
  "NewVerifier secret maxSkew = \<lparr>ver_secret = secret, ver_maxSkew = maxSkew\<rparr>"

text \<open>
  HMAC-SHA256 is the parameter \<open>hmac\<close>, of the key and of what was written to it.
\<close>

definition sign :: "(string \<Rightarrow> string \<Rightarrow> string) \<Rightarrow> string \<Rightarrow> string \<Rightarrow> string \<Rightarrow> string" where
  "sign hmac secret timestamp body = hmac secret (timestamp @ ''.'' @ body)"

fun first_signature :: "string list \<Rightarrow> signature_error + string" where
  "first_signature [] = Inl ErrInvalidSignatureFormat"
| "first_signature (part # parts) =
     (let token = TrimSpace part;
          token' = (if HasPrefix token ''v1='' then drop 3 token else token)
      in if token = [] then first_signature parts
         else case DecodeString token' of
                Some decoded \<Rightarrow> if decoded \<noteq> [] then Inr decoded else first_signature parts
              | None \<Rightarrow> first_signature parts)"

definition parseSignature :: "string \<Rightarrow> signature_error + string" where
  "parseSignature header =
     (let header = TrimSpace header
      in if header = [] then Inl ErrMissingSignature else first_signature (Split (CHR '','') header))"

text \<open>
  \<open>time.Unix(sec, 0)\<close> keeps the seconds since the year 1 in 64 bits, so that a second count near
  the end of the range wraps to the distant past; \<open>Sub\<close> saturates at the ends of \<open>Duration\<close>.
\<close>

definition wrap_int64 :: "int \<Rightarrow> int" where
  "wrap_int64 i = (i - min_int64) mod 2 ^ 64 + min_int64"

definition time_Unix :: "int \<Rightarrow> go_time" where
  "time_Unix sec = (wrap_int64 (sec + 62135596800) - 62135596800) * Second"

definition time_Sub :: "go_time \<Rightarrow> go_time \<Rightarrow> duration" where
  "time_Sub t u = max min_int64 (min max_int64 (t - u))"

definition Verify :: "(string \<Rightarrow> string \<Rightarrow> string) \<Rightarrow> Verifier \<Rightarrow> string \<Rightarrow> string \<Rightarrow> string \<Rightarrow> go_time \<Rightarrow> signature_error option" where
  "Verify hmac v timestampHeader signatureHeader body now =
     (let timestampHeader = TrimSpace timestampHeader in
      if timestampHeader = [] then Some ErrMissingTimestamp
      else case ParseInt timestampHeader of
        None \<Rightarrow> Some ErrInvalidTimestamp
      | Some parsedTs \<Rightarrow> (case parseSignature signatureHeader of
          Inl e \<Rightarrow> Some e
        | Inr sig \<Rightarrow>
            (let ts = time_Unix parsedTs in
             if ver_maxSkew v < time_Sub now ts \<or> ver_maxSkew v < time_Sub ts now
             then Some ErrTimestampOutsideTolerance
             else if sig \<noteq> sign hmac (ver_secret v) timestampHeader body then Some ErrSignatureMismatch
             else None)))"

definition demo_verifier :: Verifier where
  "demo_verifier = NewVerifier ''key'' (5 * Minute)"

definition demo_hmac :: "string \<Rightarrow> string \<Rightarrow> string" where
  "demo_hmac k m = k @ m"

lemma parseSignature_signed:
  assumes "sig \<noteq> []"
  shows "parseSignature (''v1='' @ EncodeToString sig) = Inr sig"
proof -
  let ?h = "''v1='' @ EncodeToString sig"
  have plain: "TrimSpace ?h = ?h"
    by (rule TrimSpace_plain) (simp add: plain_EncodeToString, simp add: plain_char_def)
  have "Split (CHR '','') ?h = [?h]" by (rule Split_no_sep) (simp add: comma_not_hex)
  with plain assms show ?thesis by (simp add: parseSignature_def Let_def HasPrefix_def)
qed

section \<open>Verification\<close>

lemma wrap_int64_id: "is_int64 i \<Longrightarrow> wrap_int64 i = i"
  by (simp add: wrap_int64_def is_int64_def min_int64_def max_int64_def mod_pos_pos_trivial)

text \<open>
  The saturated difference to a tolerance below the longest \<open>Duration\<close>, and the wrapped second
  count, change nothing for a clock in the range of \<open>UnixNano\<close>.
\<close>

lemma skew_check:
  assumes skew: "0 \<le> skew" "skew < max_int64" and now: "0 \<le> now" "now \<le> max_int64" and sec: "is_int64 sec"
  shows "skew < time_Sub now (time_Unix sec) \<or> skew < time_Sub (time_Unix sec) now \<longleftrightarrow> skew < \<bar>now - sec * Second\<bar>"
proof (cases "is_int64 (sec + 62135596800)")
  case True
  then have "time_Unix sec = sec * Second" by (simp add: time_Unix_def wrap_int64_id)
  with skew show ?thesis by (auto simp: time_Sub_def max_int64_def min_int64_def)
next
  case False
  with sec have big: "2 ^ 63 \<le> sec + 62135596800" "sec < 2 ^ 63"
    by (auto simp: is_int64_def min_int64_def max_int64_def)
  have "(sec + 62135596800 - min_int64) mod 2 ^ 64 = (sec + 62135596800 - min_int64 - 2 ^ 64) mod 2 ^ 64"
    by (rule minus_mod_self2 [symmetric])
  also have "\<dots> = sec + 62135596800 - min_int64 - 2 ^ 64"
    using big by (intro mod_pos_pos_trivial) (simp_all add: min_int64_def)
  finally have "wrap_int64 (sec + 62135596800) = sec + 62135596800 - 2 ^ 64"
    by (simp add: wrap_int64_def)
  then have "time_Unix sec = (sec - 2 ^ 64) * Second" by (simp add: time_Unix_def)
  with big skew now show ?thesis
    by (auto simp: time_Sub_def max_int64_def min_int64_def time_units)
qed

text \<open>
  C20 With a clock between 1970 and 2262 and a tolerance that is a proper \<open>Duration\<close>, \<open>Verify\<close>
  accepts a request exactly if its timestamp is a 64-bit integer within the tolerance of the
  clock, in either direction, and the first signature of the header that decodes is the HMAC of
  the timestamp as it was sent, a dot, and the body. No second count wraps into the tolerance.
\<close>

theorem Verify_accepts_iff:
  assumes skew: "0 \<le> ver_maxSkew v" "ver_maxSkew v < max_int64" and now: "0 \<le> now" "now \<le> max_int64"
  shows "Verify hmac v timestampHeader signatureHeader body now = None \<longleftrightarrow>
    (\<exists>sec. ParseInt (TrimSpace timestampHeader) = Some sec \<and> \<bar>now - sec * Second\<bar> \<le> ver_maxSkew v) \<and>
    parseSignature signatureHeader = Inr (sign hmac (ver_secret v) (TrimSpace timestampHeader) body)"
proof (cases "ParseInt (TrimSpace timestampHeader)")
  case None
  then show ?thesis by (simp add: Verify_def Let_def)
next
  case (Some sec)
  then have "is_int64 sec" by (auto simp: ParseInt_def Let_def split: if_splits option.splits)
  note check = skew_check [OF skew now this]
  have ts: "TrimSpace timestampHeader \<noteq> []" using Some by (auto simp: ParseInt_def HasPrefix_def)
  show ?thesis
  proof (cases "parseSignature signatureHeader")
    case (Inl e)
    with Some ts show ?thesis by (simp add: Verify_def Let_def)
  next
    case (Inr sig)
    with Some ts check show ?thesis by (auto simp: Verify_def Let_def not_less)
  qed
qed

text \<open>
  What a sender signs with the secret of the verifier at a time within the tolerance is accepted,
  for every body.
\<close>

theorem signed_request_verifies:
  assumes "0 \<le> ver_maxSkew v" "ver_maxSkew v < max_int64" "0 \<le> now" "now \<le> max_int64" "is_int64 sec"
    and "\<bar>now - sec * Second\<bar> \<le> ver_maxSkew v" and hmac: "sign hmac (ver_secret v) (FormatInt sec) body \<noteq> []"
  shows "Verify hmac v (FormatInt sec) (''v1='' @ EncodeToString (sign hmac (ver_secret v) (FormatInt sec) body)) body now = None"
  using assms skew_check [of "ver_maxSkew v" now sec] parseSignature_signed [OF hmac]
  by (simp add: Verify_def Let_def TrimSpace_plain plain_FormatInt)

lemma accepted_signature:
  assumes "Verify hmac v th sh body now = None"
  shows "ParseInt (TrimSpace th) \<noteq> None" "parseSignature sh = Inr (hmac (ver_secret v) (TrimSpace th @ ''.'' @ body))"
  using assms by (auto simp: Verify_def Let_def sign_def split: if_splits option.splits sum.splits)

lemma ParseInt_no_dot:
  assumes "ParseInt s \<noteq> None"
  shows "CHR ''.'' \<notin> set s"
proof -
  have digits: "CHR ''.'' \<notin> set ds" if "parse_digits acc ds \<noteq> None" for acc ds
    using that by (induction ds arbitrary: acc) (auto simp: char_digit_def split: option.splits if_splits)
  show ?thesis
  proof (cases "HasPrefix s ''-'' \<or> HasPrefix s ''+''")
    case True
    then have "s = hd s # tl s" "hd s \<noteq> CHR ''.''" by (cases s; auto simp: HasPrefix_def)+
    moreover have "CHR ''.'' \<notin> set (tl s)"
      using assms True digits by (auto simp: ParseInt_def Let_def split: if_splits option.splits)
    ultimately show ?thesis by (metis set_ConsD)
  next
    case False
    then show ?thesis using assms digits by (auto simp: ParseInt_def Let_def split: if_splits option.splits)
  qed
qed

text \<open>
  A signature is good for one timestamp and one body: if two requests are accepted under the
  same signature, they have the same timestamp and body, or two different texts have the same
  HMAC under the secret. What is signed can be split into timestamp and body in one way only.
\<close>

theorem signature_binds_request:
  assumes "Verify hmac v th sh body now = None" and "Verify hmac v th' sh' body' now' = None"
    and "parseSignature sh = parseSignature sh'"
  shows "TrimSpace th = TrimSpace th' \<and> body = body' \<or>
    (\<exists>x y. x \<noteq> y \<and> hmac (ver_secret v) x = hmac (ver_secret v) y)"
proof (cases "TrimSpace th @ ''.'' @ body = TrimSpace th' @ ''.'' @ body'")
  case True
  have "CHR ''.'' \<notin> set (TrimSpace th)" "CHR ''.'' \<notin> set (TrimSpace th')"
    using assms accepted_signature(1) ParseInt_no_dot by blast+
  with arg_cong [OF True, of "\<lambda>s. hd (Split (CHR ''.'') s)"] have "TrimSpace th = TrimSpace th'"
    by (simp add: Split_append_sep)
  with True show ?thesis by simp
next
  case False
  moreover have "hmac (ver_secret v) (TrimSpace th @ ''.'' @ body) = hmac (ver_secret v) (TrimSpace th' @ ''.'' @ body')"
    using accepted_signature(2) [OF assms(1)] accepted_signature(2) [OF assms(2)] assms(3) by simp
  ultimately show ?thesis by blast
qed

text \<open>The hypotheses hold for a request signed 100 seconds before the clock of the verifier.\<close>

theorem Verify_accepts_iff_witness:
  "Verify demo_hmac demo_verifier ''1000'' (''v1='' @ EncodeToString ''key1000.{}'') ''{}'' (1100 * Second) = None"
proof -
  have "0 \<le> ver_maxSkew demo_verifier" "ver_maxSkew demo_verifier < max_int64" "0 \<le> 1100 * Second" "1100 * Second \<le> max_int64"
    by (simp_all add: demo_verifier_def NewVerifier_def time_units max_int64_def)
  note iff = Verify_accepts_iff [OF this]
  have "ParseInt (TrimSpace ''1000'') = Some 1000" "TrimSpace ''1000'' = ''1000''"
    "parseSignature (''v1='' @ EncodeToString ''key1000.{}'') = Inr ''key1000.{}''"
    by code_simp+
  then show ?thesis
    unfolding iff by (simp add: sign_def demo_hmac_def demo_verifier_def NewVerifier_def time_units)
qed

text \<open>The hypotheses hold for the sender's clock 100 seconds behind.\<close>

theorem signed_request_verifies_witness:
  "Verify demo_hmac demo_verifier (FormatInt 1000)
     (''v1='' @ EncodeToString (sign demo_hmac ''key'' (FormatInt 1000) ''{}'')) ''{}'' (1100 * Second) = None"
proof -
  have key: "ver_secret demo_verifier = ''key''" by (simp add: demo_verifier_def NewVerifier_def)
  have "0 \<le> ver_maxSkew demo_verifier" "ver_maxSkew demo_verifier < max_int64" "0 \<le> 1100 * Second" "1100 * Second \<le> max_int64"
    "is_int64 1000" "\<bar>1100 * Second - 1000 * Second\<bar> \<le> ver_maxSkew demo_verifier"
    by (simp_all add: demo_verifier_def NewVerifier_def time_units max_int64_def is_int64_def min_int64_def)
  moreover have "sign demo_hmac (ver_secret demo_verifier) (FormatInt 1000) ''{}'' \<noteq> []" by (simp add: sign_def demo_hmac_def)
  ultimately show ?thesis using signed_request_verifies unfolding key [symmetric] by blast
qed

text \<open>The hypotheses hold for a request that is sent again, with blanks around its timestamp.\<close>

theorem signature_binds_request_witness:
  "TrimSpace ''1000'' = TrimSpace '' 1000 '' \<or> (\<exists>x y. x \<noteq> y \<and> demo_hmac ''key'' x = demo_hmac ''key'' y)"
proof -
  let ?sig = "''v1='' @ EncodeToString ''key1000.{}''"
  have "Verify demo_hmac demo_verifier ''1000'' ?sig ''{}'' (1100 * Second) = None"
    "Verify demo_hmac demo_verifier '' 1000 '' ?sig ''{}'' (1200 * Second) = None" by code_simp+
  from signature_binds_request [OF this refl] show ?thesis by (auto simp: demo_verifier_def NewVerifier_def)
qed

end
