(* ===== verification/Webhook_Store.thy ===== *)
theory Webhook_Store
  imports Pg_Store Go_Hex
begin

text \<open>
  The webhook events of the store (\<open>src/internal/store/postgres/webhook_atomic.go\<close> and the webhook
  methods of \<open>postgres.go\<close>): recording an event once per identity together with what it does to
  the recipient lists, replaying dead letters, and listing. Under it, the invariant of the table.
\<close>

section \<open>Definitions\<close>

text \<open>\<open>nullableString\<close>: the column value of a string; \<open>from_null\<close>: a nullable column read into a string.\<close>

definition nullableString :: "string \<Rightarrow> string option" where
  "nullableString value = (if TrimSpace value = [] then None else Some value)"

definition from_null :: "string option \<Rightarrow> string" where
  "from_null c = (case c of None \<Rightarrow> [] | Some s \<Rightarrow> s)"

definition scanWebhookEvent :: "webhook_row \<Rightarrow> WebhookEvent" where
  "scanWebhookEvent r =
     \<lparr>evt_ID = whr_id r, evt_WorkspaceID = whr_workspace_id r, evt_EventType = whr_event_type r,
      evt_IdentityKey = whr_identity_key r, evt_Email = from_null (whr_email r), evt_Reason = from_null (whr_reason r),
      evt_Status = whr_status r, evt_AttemptCount = whr_attempt_count r, evt_LastError = from_null (whr_last_error r),
      evt_RawPayload = from_null (whr_raw_payload r), evt_CreatedAt = whr_created_at r\<rparr>"

definition classifyLegacyBounce :: "string \<Rightarrow> string \<Rightarrow> string" where
  "classifyLegacyBounce eventType reason =
     (if eventType \<noteq> ''bounce'' then eventType
      else let r = ToLower (TrimSpace reason) in
        if r \<in> {''hard_bounce'', ''permanent'', ''permanent/general'', ''permanent/suppressed''} then ''bounce_permanent''
        else if r \<in> {''soft_bounce'', ''transient'', ''temporary'', ''temporary/general'', ''transient/general''}
        then ''bounce_temporary'' else ''bounce_unclassified'')"

text \<open>
  \<open>applyWebhookEventTx\<close>: the status and the last error of the event, and the lists with the
  recipient added; the statement runs in the transaction of its caller.
\<close>

definition applyWebhookEventTx :: "WebhookEvent \<Rightarrow> (string \<times> string) dbop" where
  "applyWebhookEventTx event now d =
     (if TrimSpace (evt_Email event) = [] then (Inr (''dead_letter'', ''replay failed: missing email''), d)
      else let eventType = classifyLegacyBounce (evt_EventType event) (evt_Reason event) in
        if eventType = ''bounce_temporary'' then (Inr (''applied'', []), d)
        else if eventType \<in> {''bounce_permanent'', ''complaint''}
        then (case AddSuppression (evt_WorkspaceID event) (evt_Email event) (evt_Reason event) now d of
                (Inl e, d') \<Rightarrow> (Inl e, d') | (Inr _, d') \<Rightarrow> (Inr (''applied'', []), d'))
        else if eventType = ''unsubscribe''
        then (case AddUnsubscribe (evt_WorkspaceID event) (evt_Email event) (evt_Reason event) now d of
                (Inl e, d') \<Rightarrow> (Inl e, d') | (Inr _, d') \<Rightarrow> (Inr (''applied'', []), d'))
        else if eventType \<in> {''bounce_unclassified'', ''bounce''}
        then (Inr (''dead_letter'', ''unclassified bounce; recipient was not suppressed''), d)
        else (Inr (''dead_letter'', ''unsupported webhook event type: '' @ eventType), d))"

definition find_identity :: "int \<Rightarrow> string \<Rightarrow> db \<Rightarrow> webhook_row option" where
  "find_identity ws key d = find (\<lambda>r. whr_workspace_id r = ws \<and> whr_identity_key r = key) (db_webhook_events d)"

definition update_events :: "(webhook_row \<Rightarrow> bool) \<Rightarrow> (webhook_row \<Rightarrow> webhook_row) \<Rightarrow> db \<Rightarrow> db" where
  "update_events p f d = d\<lparr>db_webhook_events := map (\<lambda>r. if p r then f r else r) (db_webhook_events d)\<rparr>"

text \<open>A value of the sequence is used up by an insertion that conflicts or is rolled back.\<close>

definition bump_seq :: "db \<Rightarrow> db" where
  "bump_seq d = d\<lparr>db_webhook_seq := db_webhook_seq d + 1\<rparr>"

definition ProcessWebhookEventAtomic :: "WebhookEvent \<Rightarrow> WebhookEvent dbop" where
  "ProcessWebhookEventAtomic event now d =
     (case find_identity (evt_WorkspaceID event) (evt_IdentityKey event) d of
        Some r \<Rightarrow> (Inr (scanWebhookEvent r), bump_seq d)
      | None \<Rightarrow>
         if \<not> has_workspace (evt_WorkspaceID event) d then (Inl fk_error, bump_seq d)
         else
           let row = \<lparr>whr_id = db_webhook_seq d + 1, whr_workspace_id = evt_WorkspaceID event,
                  whr_event_type = evt_EventType event, whr_identity_key = evt_IdentityKey event,
                  whr_email = nullableString (evt_Email event), whr_reason = nullableString (evt_Reason event),
                  whr_status = ''processing'', whr_attempt_count = 1, whr_last_error = Some [],
                  whr_raw_payload = Some (evt_RawPayload event), whr_created_at = now\<rparr>;
               created = scanWebhookEvent row;
               d1 = (bump_seq d)\<lparr>db_webhook_events := db_webhook_events d @ [row]\<rparr>
           in case applyWebhookEventTx created now d1 of
                (Inl e, _) \<Rightarrow> (Inl e, bump_seq d)
              | (Inr (status, lastError), d2) \<Rightarrow>
                  (Inr (created\<lparr>evt_Status := status, evt_LastError := lastError\<rparr>),
                   update_events (\<lambda>r. whr_id r = evt_ID created)
                     (\<lambda>r. r\<lparr>whr_status := status, whr_last_error := Some lastError\<rparr>) d2))"

text \<open>
  \<open>SELECT \<dots> FOR UPDATE SKIP LOCKED\<close>: a row that another transaction holds (\<open>locked\<close>) is passed
  over. \<open>None\<close> stands for the result \<open>false\<close>: nothing was claimed.
\<close>

definition ReplayWebhookEventAtomic :: "(int \<Rightarrow> bool) \<Rightarrow> int \<Rightarrow> int \<Rightarrow> WebhookEvent option dbop" where
  "ReplayWebhookEventAtomic locked ws eventID now d =
     (case find (\<lambda>r. whr_workspace_id r = ws \<and> whr_id r = eventID \<and> whr_status r = ''dead_letter'' \<and> \<not> locked (whr_id r))
             (db_webhook_events d) of
        None \<Rightarrow> (Inr None, d)
      | Some r \<Rightarrow>
         let event = scanWebhookEvent r in
         (case applyWebhookEventTx event now d of
            (Inl e, _) \<Rightarrow> (Inl e, d)
          | (Inr (status, lastError), d') \<Rightarrow>
              let event' = event\<lparr>evt_Status := (if status = ''applied'' then ''replayed'' else status),
                     evt_AttemptCount := evt_AttemptCount event + 1, evt_LastError := lastError\<rparr>
              in if \<not> is_int32 (evt_AttemptCount event') then (Inl range_error, d)
                 else (Inr (Some event'),
                       update_events (\<lambda>r. whr_id r = evt_ID event')
                         (\<lambda>r. r\<lparr>whr_status := evt_Status event', whr_attempt_count := evt_AttemptCount event',
                                 whr_last_error := Some (evt_LastError event')\<rparr>) d')))"

text \<open>SHA-256 is the parameter \<open>sha256\<close>.\<close>

definition storeWebhookIdentityKey :: "(string \<Rightarrow> string) \<Rightarrow> WebhookEvent \<Rightarrow> string" where
  "storeWebhookIdentityKey sha256 event =
     ''v1:'' @ EncodeToString (sha256 (Join
        [FormatInt (evt_WorkspaceID event), TrimSpace (ToLower (evt_EventType event)), normalizeEmail (evt_Email event),
         TrimSpace (evt_Reason event), evt_RawPayload event] [CHR 0x00]))"

text \<open>
  \<open>InsertWebhookEvent\<close> is two statements that are not one transaction: the insertion, which
  returns no row on a conflict, and then the selection of the row it conflicted with.
\<close>

definition insert_webhook_event :: "WebhookEvent \<Rightarrow> WebhookEvent option dbop" where
  "insert_webhook_event e now d =
     (if \<not> is_int32 (evt_AttemptCount e) then (Inl range_error, d)
      else if find_identity (evt_WorkspaceID e) (evt_IdentityKey e) d \<noteq> None then (Inr None, bump_seq d)
      else if \<not> has_workspace (evt_WorkspaceID e) d then (Inl fk_error, bump_seq d)
      else let row = \<lparr>whr_id = db_webhook_seq d + 1, whr_workspace_id = evt_WorkspaceID e,
                  whr_event_type = evt_EventType e, whr_identity_key = evt_IdentityKey e,
                  whr_email = Some (evt_Email e), whr_reason = Some (evt_Reason e), whr_status = evt_Status e,
                  whr_attempt_count = evt_AttemptCount e, whr_last_error = Some (evt_LastError e),
                  whr_raw_payload = Some (evt_RawPayload e), whr_created_at = now\<rparr>
           in (Inr (Some (scanWebhookEvent row)),
               (bump_seq d)\<lparr>db_webhook_events := db_webhook_events d @ [row]\<rparr>))"

definition ErrNoRows :: go_error where
  "ErrNoRows = ErrText ''sql: no rows in result set''"

definition select_webhook_event :: "int \<Rightarrow> string \<Rightarrow> WebhookEvent dbop" where
  "select_webhook_event ws key now d =
     (case find_identity ws key d of
        None \<Rightarrow> (Inl ErrNoRows, d)
      | Some r \<Rightarrow> (Inr (scanWebhookEvent r), d))"

text \<open>The lists do not select the identity key.\<close>

definition list_event :: "webhook_row \<Rightarrow> WebhookEvent" where
  "list_event r = (scanWebhookEvent r)\<lparr>evt_IdentityKey := []\<rparr>"

definition ListWebhookEvents :: "int \<Rightarrow> int \<Rightarrow> string \<Rightarrow> go_time \<Rightarrow> go_time \<Rightarrow> WebhookEvent list dbop" where
  "ListWebhookEvents ws limit status from to now d =
     (Inr (map list_event (take (nat (clamp_limit 50 200 limit))
        (sort_key (\<lambda>r. - whr_created_at r)
          (filter (\<lambda>r. whr_workspace_id r = ws \<and> (status = [] \<or> whr_status r = status) \<and>
                       in_window from to (whr_created_at r))
             (db_webhook_events d))))), d)"

definition ListWebhookDeadLetters :: "int \<Rightarrow> int \<Rightarrow> WebhookEvent list dbop" where
  "ListWebhookDeadLetters ws limit = ListWebhookEvents ws limit ''dead_letter'' zero_time zero_time"

definition ListWebhookDeadLettersByID :: "int \<Rightarrow> int list \<Rightarrow> WebhookEvent list dbop" where
  "ListWebhookDeadLettersByID ws ids now d =
     (let wanted = filter (\<lambda>i. 0 < i) ids in
      if wanted = [] then (Inr [], d)
      else (Inr (map list_event (sort_key (\<lambda>r. - whr_created_at r)
             (filter (\<lambda>r. whr_workspace_id r = ws \<and> whr_status r = ''dead_letter'' \<and> whr_id r \<in> set wanted)
                (db_webhook_events d)))), d))"

definition UpdateWebhookEventReplayResult :: "int \<Rightarrow> string \<Rightarrow> int \<Rightarrow> string \<Rightarrow> unit dbop" where
  "UpdateWebhookEventReplayResult i status attemptCount lastError now d =
     (if \<not> is_int32 attemptCount then (Inl range_error, d)
      else (Inr (), update_events (\<lambda>r. whr_id r = i)
              (\<lambda>r. r\<lparr>whr_status := status, whr_attempt_count := attemptCount, whr_last_error := Some lastError\<rparr>) d))"

text \<open>Ids are unique and below the sequence, identities are unique in a workspace, a row
  has its workspace, and none is left \<open>processing\<close>.\<close>

definition event_key :: "webhook_row \<Rightarrow> int \<times> string" where
  "event_key r = (whr_workspace_id r, whr_identity_key r)"

definition webhook_inv :: "db \<Rightarrow> bool" where
  "webhook_inv d \<longleftrightarrow>
     distinct (map whr_id (db_webhook_events d)) \<and> distinct (map event_key (db_webhook_events d)) \<and>
     (\<forall>r \<in> set (db_webhook_events d). whr_id r \<le> db_webhook_seq d \<and> whr_status r \<noteq> ''processing'' \<and>
        has_workspace (whr_workspace_id r) d)"

text \<open>The class of an event: what it does to the lists, and the status it leaves.\<close>

datatype effect = Suppress | Unsubscribe | Record | Park string

definition event_effect :: "string \<Rightarrow> string \<Rightarrow> string \<Rightarrow> effect" where
  "event_effect eventType email reason =
     (if TrimSpace email = [] then Park ''replay failed: missing email''
      else let t = classifyLegacyBounce eventType reason in
        if t = ''bounce_temporary'' then Record
        else if t = ''bounce_permanent'' \<or> t = ''complaint'' then Suppress
        else if t = ''unsubscribe'' then Unsubscribe
        else if t = ''bounce_unclassified'' then Park ''unclassified bounce; recipient was not suppressed''
        else Park (''unsupported webhook event type: '' @ t))"

definition effect_status :: "effect \<Rightarrow> string \<times> string" where
  "effect_status f = (case f of Park why \<Rightarrow> (''dead_letter'', why) | _ \<Rightarrow> (''applied'', []))"

definition effect_on :: "effect \<Rightarrow> int \<Rightarrow> string \<Rightarrow> string \<Rightarrow> db \<Rightarrow> db" where
  "effect_on f ws email reason d =
     (case f of
        Suppress \<Rightarrow> d\<lparr>db_suppressions := (db_suppressions d)((ws, normalizeEmail email) \<mapsto> reason)\<rparr>
      | Unsubscribe \<Rightarrow> d\<lparr>db_unsubscribes := (db_unsubscribes d)((ws, normalizeEmail email) \<mapsto> reason)\<rparr>
      | _ \<Rightarrow> d)"

text \<open>The row an event ends up as when it is first processed.\<close>

definition stored_event :: "WebhookEvent \<Rightarrow> int \<Rightarrow> go_time \<Rightarrow> webhook_row" where
  "stored_event e i now =
     (let st = effect_status (event_effect (evt_EventType e) (evt_Email e) (evt_Reason e)) in
      \<lparr>whr_id = i, whr_workspace_id = evt_WorkspaceID e, whr_event_type = evt_EventType e,
       whr_identity_key = evt_IdentityKey e, whr_email = nullableString (evt_Email e),
       whr_reason = nullableString (evt_Reason e), whr_status = fst st, whr_attempt_count = 1,
       whr_last_error = Some (snd st), whr_raw_payload = Some (evt_RawPayload e), whr_created_at = now\<rparr>)"

text \<open>The row of an event after a replay.\<close>

definition replayed_row :: "webhook_row \<Rightarrow> webhook_row \<Rightarrow> webhook_row" where
  "replayed_row r r' =
     (let st = effect_status (event_effect (whr_event_type r) (from_null (whr_email r)) (from_null (whr_reason r))) in
      r'\<lparr>whr_status := (if fst st = ''applied'' then ''replayed'' else fst st),
         whr_attempt_count := whr_attempt_count r + 1, whr_last_error := Some (snd st)\<rparr>)"

section \<open>What an event does\<close>

lemma classify_not_bounce: "classifyLegacyBounce t r \<noteq> ''bounce''"
  by (simp add: classifyLegacyBounce_def Let_def)

lemma applyWebhookEventTx_effect:
  assumes "has_workspace (evt_WorkspaceID e) d"
  shows "applyWebhookEventTx e now d =
    (Inr (effect_status (event_effect (evt_EventType e) (evt_Email e) (evt_Reason e))),
     effect_on (event_effect (evt_EventType e) (evt_Email e) (evt_Reason e)) (evt_WorkspaceID e) (evt_Email e) (evt_Reason e) d)"
proof -
  obtain t where t: "classifyLegacyBounce (evt_EventType e) (evt_Reason e) = t" "t \<noteq> ''bounce''"
    using classify_not_bounce by blast
  show ?thesis
  proof (cases "TrimSpace (evt_Email e) = []")
    case True
    then show ?thesis by (simp add: applyWebhookEventTx_def event_effect_def effect_status_def effect_on_def)
  next
    case False
    show ?thesis
      using False assms t(2)
      by (simp add: applyWebhookEventTx_def event_effect_def effect_status_def effect_on_def t(1)
          AddSuppression_def AddUnsubscribe_def)
  qed
qed

lemma find_identity_effect [simp]: "find_identity ws k (effect_on f ws' e r d) = find_identity ws k d"
  by (cases f) (simp_all add: effect_on_def find_identity_def)

lemma effect_frame [simp]:
  "db_webhook_events (effect_on f ws e r d) = db_webhook_events d" "db_webhook_seq (effect_on f ws e r d) = db_webhook_seq d"
  "db_messages (effect_on f ws e r d) = db_messages d" "db_attempts (effect_on f ws e r d) = db_attempts d"
  "db_message_seq (effect_on f ws e r d) = db_message_seq d" "db_smtp_accounts (effect_on f ws e r d) = db_smtp_accounts d"
  "db_policies (effect_on f ws e r d) = db_policies d" "db_metering (effect_on f ws e r d) = db_metering d"
  "db_domains (effect_on f ws e r d) = db_domains d"
  "db_workspaces (effect_on f ws e r d) = db_workspaces d" "has_workspace ws' (effect_on f ws e r d) = has_workspace ws' d"
  by (cases f; simp add: effect_on_def has_workspace_def)+

lemma bump_frame [simp]:
  "db_webhook_events (bump_seq d) = db_webhook_events d" "db_webhook_seq (bump_seq d) = db_webhook_seq d + 1"
  "db_messages (bump_seq d) = db_messages d" "db_attempts (bump_seq d) = db_attempts d"
  "db_message_seq (bump_seq d) = db_message_seq d" "db_smtp_accounts (bump_seq d) = db_smtp_accounts d"
  "db_suppressions (bump_seq d) = db_suppressions d" "db_unsubscribes (bump_seq d) = db_unsubscribes d"
  "db_workspaces (bump_seq d) = db_workspaces d" "has_workspace ws (bump_seq d) = has_workspace ws d" "find_identity ws k (bump_seq d) = find_identity ws k d"
  by (simp_all add: bump_seq_def has_workspace_def find_identity_def)

lemma update_events_frame [simp]:
  "db_webhook_seq (update_events p f d) = db_webhook_seq d"
  "db_messages (update_events p f d) = db_messages d" "db_attempts (update_events p f d) = db_attempts d"
  "db_message_seq (update_events p f d) = db_message_seq d" "db_smtp_accounts (update_events p f d) = db_smtp_accounts d"
  "db_suppressions (update_events p f d) = db_suppressions d" "db_unsubscribes (update_events p f d) = db_unsubscribes d"
  "db_policies (update_events p f d) = db_policies d" "db_metering (update_events p f d) = db_metering d"
  "db_domains (update_events p f d) = db_domains d" "db_workspaces (update_events p f d) = db_workspaces d"
  "has_workspace ws (update_events p f d) = has_workspace ws d"
  by (simp_all add: update_events_def has_workspace_def)

lemma from_nullable [simp]: "from_null (nullableString s) = (if TrimSpace s = [] then [] else s)"
  by (simp add: from_null_def nullableString_def)

lemma event_effect_nullable [simp]:
  "event_effect t (from_null (nullableString email)) (from_null (nullableString reason)) = event_effect t email reason"
  by (simp add: event_effect_def classifyLegacyBounce_def)

lemma ProcessWebhookEventAtomic_new:
  assumes inv: "webhook_inv d" and ws: "has_workspace (evt_WorkspaceID e) d"
    and fresh: "find_identity (evt_WorkspaceID e) (evt_IdentityKey e) d = None"
  shows "ProcessWebhookEventAtomic e now d =
    (let row = stored_event e (db_webhook_seq d + 1) now in
     (Inr (scanWebhookEvent row),
      (effect_on (event_effect (evt_EventType e) (evt_Email e) (evt_Reason e)) (evt_WorkspaceID e)
         (from_null (whr_email row)) (from_null (whr_reason row)) (bump_seq d))\<lparr>db_webhook_events := db_webhook_events d @ [row]\<rparr>))"
proof -
  have old: "map (\<lambda>r. if whr_id r = db_webhook_seq d + 1 then f r else r) (db_webhook_events d) = db_webhook_events d" for f
    using inv by (intro map_idI) (auto simp: webhook_inv_def)
  have eff: "effect_on f ws em rs (d1\<lparr>db_webhook_events := evs\<rparr>) = (effect_on f ws em rs d1)\<lparr>db_webhook_events := evs\<rparr>"
    for f ws em rs evs and d1 :: db
    by (cases f) (simp_all add: effect_on_def)
  have ws': "has_workspace (evt_WorkspaceID e) (d1\<lparr>db_webhook_events := evs\<rparr>) = has_workspace (evt_WorkspaceID e) d1"
    for d1 :: db and evs
    by (simp add: has_workspace_def)
  show ?thesis
    using ws fresh
    by (simp add: ProcessWebhookEventAtomic_def applyWebhookEventTx_effect ws' eff scanWebhookEvent_def stored_event_def
        update_events_def Let_def old from_null_def [of "Some _"] del: from_nullable split: prod.split)
qed

lemma ProcessWebhookEventAtomic_known:
  "find_identity (evt_WorkspaceID e) (evt_IdentityKey e) d = Some r \<Longrightarrow>
     ProcessWebhookEventAtomic e now d = (Inr (scanWebhookEvent r), bump_seq d)"
  by (simp add: ProcessWebhookEventAtomic_def)

lemma ProcessWebhookEventAtomic_no_workspace:
  "find_identity (evt_WorkspaceID e) (evt_IdentityKey e) d = None \<Longrightarrow> \<not> has_workspace (evt_WorkspaceID e) d \<Longrightarrow>
     ProcessWebhookEventAtomic e now d = (Inl fk_error, bump_seq d)"
  by (simp add: ProcessWebhookEventAtomic_def)

lemma find_identity_None:
  "find_identity ws k d = None \<longleftrightarrow> (ws, k) \<notin> event_key ` set (db_webhook_events d)"
  by (auto simp: find_identity_def find_None_iff event_key_def)

section \<open>The invariant of the event table\<close>

lemma effect_status_not_processing: "fst (effect_status f) \<noteq> ''processing''"
  by (cases f) (simp_all add: effect_status_def)

lemma webhook_inv_bump [keeps]: "webhook_inv d \<Longrightarrow> webhook_inv (bump_seq d)"
  by (fastforce simp: webhook_inv_def)

lemma webhook_inv_append [keeps]:
  assumes "webhook_inv d" and "whr_id row = db_webhook_seq d + 1" and "(whr_workspace_id row, whr_identity_key row) \<notin> event_key ` set (db_webhook_events d)"
    and "whr_status row \<noteq> ''processing''"
    and "has_workspace (whr_workspace_id row) d" and "db_workspaces d' = db_workspaces d"
    and "db_webhook_events d' = db_webhook_events d @ [row]" "db_webhook_seq d' = db_webhook_seq d + 1"
  shows "webhook_inv d'"
  using assms by (fastforce simp: webhook_inv_def event_key_def has_workspace_def)

lemma webhook_inv_update [keeps]:
  assumes "webhook_inv d" and "\<And>r. whr_id (f r) = whr_id r" "\<And>r. event_key (f r) = event_key r"
    and "\<And>r. whr_status (f r) \<noteq> ''processing''"
  shows "webhook_inv (update_events p f d)"
proof -
  let ?g = "\<lambda>r. if p r then f r else r"
  have g: "whr_id \<circ> ?g = whr_id" "event_key \<circ> ?g = event_key" "whr_id (?g r) = whr_id r"
    "whr_workspace_id (?g r) = whr_workspace_id r" for r
    using assms(2,3) by (auto simp: fun_eq_iff event_key_def)
  show ?thesis
    unfolding webhook_inv_def
  proof (intro conjI ballI)
    show "distinct (map whr_id (db_webhook_events (update_events p f d)))"
      "distinct (map event_key (db_webhook_events (update_events p f d)))"
      using assms(1) by (simp_all add: webhook_inv_def update_events_def g)
    fix r' assume "r' \<in> set (db_webhook_events (update_events p f d))"
    then obtain r where r: "r \<in> set (db_webhook_events d)" "r' = ?g r" by (auto simp: update_events_def simp del: if_image_distrib)
    then show "whr_id r' \<le> db_webhook_seq (update_events p f d)" "whr_status r' \<noteq> ''processing''"
      "has_workspace (whr_workspace_id r') (update_events p f d)"
      using assms(1,4) g(3,4) by (simp_all add: webhook_inv_def)
  qed
qed

lemma ProcessWebhookEventAtomic_inv [keeps]:
  assumes "webhook_inv d"
  shows "webhook_inv (snd (ProcessWebhookEventAtomic e now d))"
proof (cases "find_identity (evt_WorkspaceID e) (evt_IdentityKey e) d")
  case None
  show ?thesis
  proof (cases "has_workspace (evt_WorkspaceID e) d")
    case True
    then show ?thesis
      unfolding ProcessWebhookEventAtomic_new [OF assms True None] Let_def snd_conv
      by (intro webhook_inv_append [OF assms])
         (use None True in \<open>simp_all add: stored_event_def effect_status_not_processing find_identity_None Let_def\<close>)
  qed (use None assms in \<open>simp add: ProcessWebhookEventAtomic_no_workspace webhook_inv_bump\<close>)
qed (use assms in \<open>simp add: ProcessWebhookEventAtomic_known webhook_inv_bump\<close>)

lemma insert_webhook_event_inv [keeps]:
  assumes "webhook_inv d" and "evt_Status e \<noteq> ''processing''"
  shows "webhook_inv (snd (insert_webhook_event e now d))"
proof (cases "is_int32 (evt_AttemptCount e) \<and> find_identity (evt_WorkspaceID e) (evt_IdentityKey e) d = None \<and>
    has_workspace (evt_WorkspaceID e) d")
  case True
  then show ?thesis
    using assms(2) unfolding insert_webhook_event_def Let_def
    by (simp, intro webhook_inv_append [OF assms(1)]) (simp_all add: find_identity_None bump_seq_def)
next
  case False
  then have "snd (insert_webhook_event e now d) = d \<or> snd (insert_webhook_event e now d) = bump_seq d"
    by (auto simp: insert_webhook_event_def Let_def)
  then show ?thesis using assms(1) webhook_inv_bump by metis
qed

lemma UpdateWebhookEventReplayResult_inv [keeps]:
  "webhook_inv d \<Longrightarrow> status \<noteq> ''processing'' \<Longrightarrow> webhook_inv (snd (UpdateWebhookEventReplayResult i status n err now d))"
  by (simp add: UpdateWebhookEventReplayResult_def webhook_inv_update event_key_def)

lemma ReplayWebhookEventAtomic_cases:
  assumes inv: "webhook_inv d" and run: "ReplayWebhookEventAtomic locked ws i now d = (res, d')"
  obtains (failed) e where "res = Inl e" "d' = d"
    | (skipped) "res = Inr None" "d' = d"
        "\<forall>r \<in> set (db_webhook_events d). whr_workspace_id r = ws \<and> whr_id r = i \<and> whr_status r = ''dead_letter'' \<longrightarrow> locked i"
    | (claimed) r where "r \<in> set (db_webhook_events d)" "whr_workspace_id r = ws" "whr_id r = i" "whr_status r = ''dead_letter''"
        "\<not> locked i" "res = Inr (Some (scanWebhookEvent (replayed_row r r)))" "is_int32 (whr_attempt_count r + 1)"
        "d' = update_events (\<lambda>r'. whr_id r' = i) (replayed_row r)
           (effect_on (event_effect (whr_event_type r) (from_null (whr_email r)) (from_null (whr_reason r))) ws
              (from_null (whr_email r)) (from_null (whr_reason r)) d)"
proof (cases "find (\<lambda>r. whr_workspace_id r = ws \<and> whr_id r = i \<and> whr_status r = ''dead_letter'' \<and> \<not> locked (whr_id r))
             (db_webhook_events d)")
  case None
  then have "res = Inr None" "d' = d" using run by (simp_all add: ReplayWebhookEventAtomic_def)
  with None show ?thesis by (intro skipped) (auto simp: find_None_iff)
next
  case (Some r)
  then have r: "r \<in> set (db_webhook_events d)" "whr_workspace_id r = ws" "whr_id r = i" "whr_status r = ''dead_letter''" "\<not> locked i"
    by (auto simp: find_Some_iff in_set_conv_nth)
  then have "has_workspace (evt_WorkspaceID (scanWebhookEvent r)) d"
    using inv by (auto simp: webhook_inv_def scanWebhookEvent_def)
  note tx = applyWebhookEventTx_effect [OF this]
  show ?thesis
  proof (cases "is_int32 (whr_attempt_count r + 1)")
    case False
    with run Some show ?thesis
      by (cases "effect_status (event_effect (whr_event_type r) (from_null (whr_email r)) (from_null (whr_reason r)))")
         (intro failed [of range_error],
          simp_all add: ReplayWebhookEventAtomic_def tx Let_def, simp_all add: scanWebhookEvent_def)
  next
    case True
    with run Some r show ?thesis
      by (cases "effect_status (event_effect (whr_event_type r) (from_null (whr_email r)) (from_null (whr_reason r)))")
         (intro claimed [of r],
          simp_all add: ReplayWebhookEventAtomic_def tx Let_def replayed_row_def [abs_def],
          auto simp add: scanWebhookEvent_def from_null_def [of "Some _"])
  qed
qed

lemma replayed_status: "whr_status (replayed_row r r') \<noteq> ''processing''"
  by (simp add: replayed_row_def Let_def effect_status_not_processing)

lemma webhook_inv_effect [keeps]: "webhook_inv d \<Longrightarrow> webhook_inv (effect_on f ws e r d)"
  by (simp add: webhook_inv_def)

lemma ReplayWebhookEventAtomic_inv [keeps]:
  assumes inv: "webhook_inv d"
  shows "webhook_inv (snd (ReplayWebhookEventAtomic locked ws i now d))"
proof -
  obtain res d' where run: "ReplayWebhookEventAtomic locked ws i now d = (res, d')" by (metis surj_pair)
  from inv run have "webhook_inv d'"
  proof (cases rule: ReplayWebhookEventAtomic_cases)
    case (claimed r)
    then show ?thesis
      using inv by (auto intro!: webhook_inv_update webhook_inv_effect simp: replayed_status)
        (simp_all add: replayed_row_def event_key_def Let_def)
  qed (use inv in simp_all)
  with run show ?thesis by simp
qed

end
