(* ===== verification/Webhook_Service.thy ===== *)
theory Webhook_Service
  imports Smtp_Accounts Webhook_Store
begin

text \<open>
  The webhook routines of the message service (\<open>src/internal/service/message_service.go\<close>, from
  \<open>ProcessWebhookEvent\<close> on) over the world. SHA-256 is the parameter \<open>sha256\<close>; which rows other
  transactions hold locked during a replay is the parameter \<open>locked\<close>.
\<close>

section \<open>Definitions\<close>

definition classifyStoredWebhookBounce :: "string \<Rightarrow> string \<Rightarrow> string" where
  "classifyStoredWebhookBounce eventType reason =
     (if eventType \<noteq> ''bounce'' then eventType
      else let r = ToLower (TrimSpace reason) in
        if r \<in> {''hard_bounce'', ''permanent'', ''permanent/general'', ''permanent/suppressed''} then ''bounce_permanent''
        else if r \<in> {''soft_bounce'', ''transient'', ''temporary'', ''temporary/general'', ''transient/general''}
        then ''bounce_temporary'' else ''bounce_unclassified'')"

definition webhookIdentityKey :: "(string \<Rightarrow> string) \<Rightarrow> int \<Rightarrow> string \<Rightarrow> string \<Rightarrow> string \<Rightarrow> string \<Rightarrow> string \<Rightarrow> string" where
  "webhookIdentityKey sha256 workspaceID eventType email reason rawPayload providerIdentity =
     (let material = TrimSpace providerIdentity;
          material = (if material = []
            then Join [TrimSpace (ToLower eventType), TrimSpace (ToLower email), TrimSpace reason, rawPayload] [CHR 0x00]
            else material);
          material = FormatInt workspaceID @ [CHR 0x00] @ material
      in ''v1:'' @ EncodeToString (sha256 material))"

text \<open>The store's \<open>InsertWebhookEvent\<close>, two statements.\<close>

definition InsertWebhookEvent :: "(string \<Rightarrow> string) \<Rightarrow> WebhookEvent \<Rightarrow> WebhookEvent result io" where
  "InsertWebhookEvent sha256 e = do {
     let e = (if evt_IdentityKey e = [] then e\<lparr>evt_IdentityKey := storeWebhookIdentityKey sha256 e\<rparr> else e);
     r \<leftarrow> store (insert_webhook_event e);
     case r of
       Inl err \<Rightarrow> State_Monad.return (Inl err)
     | Inr (Some out) \<Rightarrow> State_Monad.return (Inr (out\<lparr>evt_IdentityKey := evt_IdentityKey e\<rparr>))
     | Inr None \<Rightarrow> do {
         r \<leftarrow> store (select_webhook_event (evt_WorkspaceID e) (evt_IdentityKey e));
         State_Monad.return (case r of
           Inl err \<Rightarrow> Inl err
         | Inr out \<Rightarrow> Inr (out\<lparr>evt_IdentityKey := evt_IdentityKey e\<rparr>)) }}"

definition apply_once :: "int \<Rightarrow> string \<Rightarrow> string \<Rightarrow> string \<Rightarrow> unit result io" where
  "apply_once workspaceID eventType email reason =
     (if eventType = ''bounce_permanent'' \<or> eventType = ''complaint'' then store (AddSuppression workspaceID email reason)
      else if eventType = ''unsubscribe'' then store (AddUnsubscribe workspaceID email reason)
      else State_Monad.return (Inl (ErrText (''unsupported webhook event type: '' @ eventType))))"

text \<open>The loop of \<open>applyWebhookEventWithRetry\<close>; the first argument counts the iterations that are left.\<close>

fun apply_attempts :: "nat \<Rightarrow> int \<Rightarrow> int \<Rightarrow> go_error option \<Rightarrow> int \<Rightarrow> string \<Rightarrow> string \<Rightarrow> string \<Rightarrow> (int \<times> go_error option) io" where
  "apply_attempts 0 maxAttempts attempt lastErr workspaceID eventType email reason = State_Monad.return (maxAttempts, lastErr)"
| "apply_attempts (Suc left) maxAttempts attempt lastErr workspaceID eventType email reason = do {
     r \<leftarrow> apply_once workspaceID eventType email reason;
     case r of
       Inr _ \<Rightarrow> State_Monad.return (attempt, None)
     | Inl e \<Rightarrow> do {
         _ \<leftarrow> (if attempt < maxAttempts then time_Sleep else State_Monad.return ());
         apply_attempts left maxAttempts (attempt + 1) (Some e) workspaceID eventType email reason }}"

definition applyWebhookEventWithRetry :: "MessageService \<Rightarrow> int \<Rightarrow> string \<Rightarrow> string \<Rightarrow> string \<Rightarrow> (int \<times> go_error option) io" where
  "applyWebhookEventWithRetry s workspaceID eventType email reason =
     (if eventType = ''bounce_temporary'' then State_Monad.return (1, None)
      else if eventType = ''bounce_unclassified'' \<or> eventType = ''bounce''
      then State_Monad.return (1, Some (ErrText ''unclassified bounce; recipient was not suppressed''))
      else apply_attempts (nat (svc_webhookApplyMaxAttempts s)) (svc_webhookApplyMaxAttempts s) 1 None
             workspaceID eventType email reason)"

definition new_event :: "int \<Rightarrow> string \<Rightarrow> string \<Rightarrow> string \<Rightarrow> string \<Rightarrow> WebhookEvent" where
  "new_event workspaceID eventType email reason rawPayload =
     \<lparr>evt_ID = 0, evt_WorkspaceID = workspaceID, evt_EventType = eventType, evt_IdentityKey = [], evt_Email = email,
      evt_Reason = reason, evt_Status = [], evt_AttemptCount = 0, evt_LastError = [], evt_RawPayload = rawPayload,
      evt_CreatedAt = zero_time\<rparr>"

text \<open>The type and the reason \<open>ProcessWebhookEvent\<close> settles on (lines 838 to 849).\<close>

definition settled_type :: "string \<Rightarrow> string \<Rightarrow> string" where
  "settled_type eventType reason = classifyStoredWebhookBounce (ToLower (TrimSpace eventType)) (TrimSpace reason)"

definition settled_reason :: "string \<Rightarrow> string \<Rightarrow> string" where
  "settled_reason eventType reason =
     (let t = settled_type eventType reason; reason = TrimSpace reason in
      if reason \<noteq> [] then reason
      else if t \<in> {''bounce_permanent'', ''bounce_temporary'', ''bounce_unclassified'', ''complaint''} then ''provider_'' @ t
      else if t = ''unsubscribe'' then ''provider_unsubscribe'' else reason)"

definition ProcessWebhookEvent :: "(string \<Rightarrow> string) \<Rightarrow> MessageService \<Rightarrow> int \<Rightarrow> string \<Rightarrow> string \<Rightarrow> string \<Rightarrow> string \<Rightarrow> string
    \<Rightarrow> WebhookEvent result io" where
  "ProcessWebhookEvent sha256 s workspaceID eventType email reason rawPayload identity =
     (let workspaceID = (if workspaceID = 0 then 1 else workspaceID);
          t = settled_type eventType reason;
          reason = settled_reason eventType reason;
          email = TrimSpace email;
          event = new_event workspaceID t email reason rawPayload
      in if svc_atomic_store s
         then store (ProcessWebhookEventAtomic (event\<lparr>evt_IdentityKey :=
                webhookIdentityKey sha256 workspaceID t email reason rawPayload identity\<rparr>))
         else do {
           (attempts, lastErr) \<leftarrow> applyWebhookEventWithRetry s workspaceID t email reason;
           case lastErr of
             None \<Rightarrow> InsertWebhookEvent sha256 (event\<lparr>evt_Status := ''applied'', evt_AttemptCount := attempts\<rparr>)
           | Some e \<Rightarrow> InsertWebhookEvent sha256 (event\<lparr>evt_Status := ''dead_letter'', evt_AttemptCount := attempts,
                 evt_LastError := Error_text e\<rparr>) })"

definition RecordWebhookDeadLetter :: "(string \<Rightarrow> string) \<Rightarrow> int \<Rightarrow> string \<Rightarrow> string \<Rightarrow> string \<Rightarrow> string \<Rightarrow> string \<Rightarrow> int
    \<Rightarrow> WebhookEvent result io" where
  "RecordWebhookDeadLetter sha256 workspaceID eventType email reason lastError rawPayload attemptCount =
     (let workspaceID = (if workspaceID = 0 then 1 else workspaceID);
          attemptCount = (if attemptCount < 1 then 1 else attemptCount);
          eventType = TrimSpace (ToLower eventType);
          eventType = (if eventType = [] then ''unknown'' else eventType)
      in InsertWebhookEvent sha256 ((new_event workspaceID eventType (TrimSpace (ToLower email)) (TrimSpace reason) rawPayload)
           \<lparr>evt_Status := ''dead_letter'', evt_AttemptCount := attemptCount, evt_LastError := TrimSpace lastError\<rparr>))"

definition WebhookLogs :: "int \<Rightarrow> int \<Rightarrow> string \<Rightarrow> go_time \<Rightarrow> go_time \<Rightarrow> WebhookEvent list result io" where
  "WebhookLogs workspaceID limit status from to =
     store (ListWebhookEvents workspaceID limit (TrimSpace (ToLower status)) from to)"

definition replay_outcome :: "int \<Rightarrow> string \<Rightarrow> int \<Rightarrow> string \<Rightarrow> WebhookReplayResult \<Rightarrow> WebhookReplayResult" where
  "replay_outcome i status attempts err out =
     out\<lparr>wrr_Outcomes := wrr_Outcomes out @
       [\<lparr>wro_EventID = i, wro_Status = status, wro_AttemptCount = attempts, wro_Error = err\<rparr>]\<rparr>"

definition replay_failed :: "int \<Rightarrow> int \<Rightarrow> string \<Rightarrow> WebhookReplayResult \<Rightarrow> WebhookReplayResult" where
  "replay_failed i attempts err out =
     replay_outcome i ''failed'' attempts err (out\<lparr>wrr_Failed := wrr_Failed out + 1\<rparr>)"

definition replay_done :: "int \<Rightarrow> int \<Rightarrow> WebhookReplayResult \<Rightarrow> WebhookReplayResult" where
  "replay_done i attempts out =
     replay_outcome i ''replayed'' attempts [] (out\<lparr>wrr_Replayed := wrr_Replayed out + 1\<rparr>)"

definition replay_skipped :: "int \<Rightarrow> int \<Rightarrow> WebhookReplayResult \<Rightarrow> WebhookReplayResult" where
  "replay_skipped i attempts out =
     replay_outcome i ''skipped'' attempts ''event is no longer available for replay'' (out\<lparr>wrr_Skipped := wrr_Skipped out + 1\<rparr>)"

fun replay_atomic :: "(int \<Rightarrow> bool) \<Rightarrow> int \<Rightarrow> WebhookEvent list \<Rightarrow> WebhookReplayResult \<Rightarrow> WebhookReplayResult result io" where
  "replay_atomic locked workspaceID [] out = State_Monad.return (Inr out)"
| "replay_atomic locked workspaceID (event # events) out = do {
     r \<leftarrow> store (ReplayWebhookEventAtomic locked workspaceID (evt_ID event));
     case r of
       Inl e \<Rightarrow> State_Monad.return (Inl e)
     | Inr None \<Rightarrow> replay_atomic locked workspaceID events (replay_skipped (evt_ID event) (evt_AttemptCount event) out)
     | Inr (Some updated) \<Rightarrow>
         replay_atomic locked workspaceID events
           (if evt_Status updated = ''replayed'' then replay_done (evt_ID event) (evt_AttemptCount updated) out
            else replay_failed (evt_ID event) (evt_AttemptCount updated) (evt_LastError updated) out) }"

definition empty_replay :: "int \<Rightarrow> string \<Rightarrow> WebhookEvent list \<Rightarrow> WebhookReplayResult" where
  "empty_replay workspaceID source events =
     \<lparr>wrr_WorkspaceID = workspaceID, wrr_Requested = int (length events), wrr_Replayed = 0, wrr_Failed = 0, wrr_Skipped = 0,
      wrr_ReplaySource = source, wrr_Outcomes = []\<rparr>"

definition replayWebhookDeadLettersAtomic :: "(int \<Rightarrow> bool) \<Rightarrow> int \<Rightarrow> string \<Rightarrow> WebhookEvent list \<Rightarrow> WebhookReplayResult result io" where
  "replayWebhookDeadLettersAtomic locked workspaceID source events =
     replay_atomic locked workspaceID events (empty_replay workspaceID source events)"

text \<open>The loop over the events for a store without the atomic methods.\<close>

fun replay_plain :: "MessageService \<Rightarrow> WebhookEvent list \<Rightarrow> WebhookReplayResult \<Rightarrow> WebhookReplayResult result io" where
  "replay_plain s [] out = State_Monad.return (Inr out)"
| "replay_plain s (event # events) out =
     (let t = classifyStoredWebhookBounce (ToLower (TrimSpace (evt_EventType event))) (evt_Reason event);
          email = TrimSpace (ToLower (evt_Email event));
          reason = TrimSpace (evt_Reason event)
      in if email = [] then do {
           let nextAttempts = evt_AttemptCount event + 1;
           r \<leftarrow> store (UpdateWebhookEventReplayResult (evt_ID event) ''dead_letter'' nextAttempts ''replay failed: missing email'');
           case r of
             Inl e \<Rightarrow> State_Monad.return (Inl e)
           | Inr _ \<Rightarrow> replay_plain s events (replay_failed (evt_ID event) nextAttempts ''replay failed: missing email'' out) }
         else do {
           (attempts, replayErr) \<leftarrow> applyWebhookEventWithRetry s (evt_WorkspaceID event) t email reason;
           let nextAttempts = evt_AttemptCount event + attempts;
           case replayErr of
             Some err \<Rightarrow> do {
               let lastError = ''replay failed: '' @ Error_text err;
               r \<leftarrow> store (UpdateWebhookEventReplayResult (evt_ID event) ''dead_letter'' nextAttempts lastError);
               case r of
                 Inl e \<Rightarrow> State_Monad.return (Inl e)
               | Inr _ \<Rightarrow> replay_plain s events (replay_failed (evt_ID event) nextAttempts lastError out) }
           | None \<Rightarrow> do {
               r \<leftarrow> store (UpdateWebhookEventReplayResult (evt_ID event) ''replayed'' nextAttempts []);
               case r of
                 Inl e \<Rightarrow> State_Monad.return (Inl e)
               | Inr _ \<Rightarrow> replay_plain s events (replay_done (evt_ID event) nextAttempts out) }})"

definition ReplayWebhookDeadLetters :: "(int \<Rightarrow> bool) \<Rightarrow> MessageService \<Rightarrow> int \<Rightarrow> int list \<Rightarrow> int \<Rightarrow> WebhookReplayResult result io" where
  "ReplayWebhookDeadLetters locked s workspaceID eventIDs limit = do {
     let workspaceID = (if workspaceID = 0 then 1 else workspaceID);
     let replayIDs = normalizePositiveIDs eventIDs;
     let limit = (if limit < 1 then 20 else limit);
     let limit = (if limit > 200 then 200 else limit);
     let source = (if length replayIDs > 0 then ''ids'' else ''latest'');
     r \<leftarrow> (if length replayIDs > 0 then store (ListWebhookDeadLettersByID workspaceID replayIDs)
           else store (ListWebhookDeadLetters workspaceID limit));
     case r of
       Inl e \<Rightarrow> State_Monad.return (Inl e)
     | Inr events \<Rightarrow>
         if svc_atomic_store s then replayWebhookDeadLettersAtomic locked workspaceID source events
         else replay_plain s events (empty_replay workspaceID source events) }"

end
