(* ===== verification/Webhook_Delivery.thy ===== *)
theory Webhook_Delivery
  imports Webhook_Service
begin

text \<open>
  Deliveries of webhook events: what an identity key names, that an event takes effect exactly once
  however often it is delivered, that the event table stays consistent with the recipient lists,
  and that an acknowledged complaint or unsubscription stops the sender.
\<close>

section \<open>Definitions\<close>

definition identity_material :: "string \<Rightarrow> string \<Rightarrow> string \<Rightarrow> string \<Rightarrow> string \<Rightarrow> string" where
  "identity_material eventType email reason rawPayload providerIdentity =
     (if TrimSpace providerIdentity \<noteq> [] then TrimSpace providerIdentity
      else Join [ToLower (TrimSpace eventType), ToLower (TrimSpace email), TrimSpace reason, rawPayload] [CHR 0x00])"

text \<open>A provider that delivers an event again and again.\<close>

fun redeliver :: "nat \<Rightarrow> 'a io \<Rightarrow> 'a list io" where
  "redeliver 0 m = State_Monad.return []"
| "redeliver (Suc n) m = do { r \<leftarrow> m; rs \<leftarrow> redeliver n m; State_Monad.return (r # rs) }"

text \<open>The event the service hands to the store.\<close>

definition settled_event :: "(string \<Rightarrow> string) \<Rightarrow> int \<Rightarrow> string \<Rightarrow> string \<Rightarrow> string \<Rightarrow> string \<Rightarrow> string \<Rightarrow> WebhookEvent" where
  "settled_event sha256 ws eventType email reason rawPayload identity =
     (let ws = (if ws = 0 then 1 else ws); t = settled_type eventType reason; reason' = settled_reason eventType reason
      in (new_event ws t (TrimSpace email) reason' rawPayload)
           \<lparr>evt_IdentityKey := webhookIdentityKey sha256 ws t (TrimSpace email) reason' rawPayload identity\<rparr>)"

definition effect_of :: "WebhookEvent \<Rightarrow> effect" where
  "effect_of e = event_effect (evt_EventType e) (evt_Email e) (evt_Reason e)"

text \<open>From \<open>d\<close> to \<open>d'\<close> the event was recorded once and its effect is there.\<close>

definition took_effect :: "WebhookEvent \<Rightarrow> webhook_row \<Rightarrow> db \<Rightarrow> db \<Rightarrow> bool" where
  "took_effect e row d d' \<longleftrightarrow>
     (\<exists>t. row = stored_event e (db_webhook_seq d + 1) t) \<and>
     db_webhook_events d' = db_webhook_events d @ [row] \<and>
     (let d1 = effect_on (effect_of e) (evt_WorkspaceID e) (from_null (whr_email row)) (from_null (whr_reason row)) d
      in db_suppressions d' = db_suppressions d1 \<and> db_unsubscribes d' = db_unsubscribes d1)"

definition row_effect :: "webhook_row \<Rightarrow> effect" where
  "row_effect r = event_effect (whr_event_type r) (from_null (whr_email r)) (from_null (whr_reason r))"

definition row_address :: "webhook_row \<Rightarrow> int \<times> string" where
  "row_address r = (whr_workspace_id r, normalizeEmail (from_null (whr_email r)))"

text \<open>An event that counts as applied has its recipient on the list it belongs on.\<close>

definition lists_cover :: "db \<Rightarrow> bool" where
  "lists_cover d \<longleftrightarrow>
     (\<forall>r \<in> set (db_webhook_events d). whr_status r = ''applied'' \<or> whr_status r = ''replayed'' \<longrightarrow>
        (row_effect r = Suppress \<longrightarrow> db_suppressions d (row_address r) \<noteq> None) \<and>
        (row_effect r = Unsubscribe \<longrightarrow> db_unsubscribes d (row_address r) \<noteq> None))"

definition events_ok :: "shared \<Rightarrow> bool" where
  "events_ok sh \<longleftrightarrow> webhook_inv (sh_db sh) \<and> lists_cover (sh_db sh)"

definition keeps_events :: "shared \<Rightarrow> shared \<Rightarrow> bool" where
  "keeps_events sh sh' \<longleftrightarrow> (events_ok sh \<longrightarrow> events_ok sh')"

definition demo_events :: "world \<Rightarrow> WebhookEvent result list \<times> world" where
  "demo_events w = run_state (redeliver 2 (ProcessWebhookEvent rev demo_service 1 ''complaint'' ''B@example.org'' [] ''{}'' [])) w"

section \<open>Identity keys\<close>

lemma webhookIdentityKey_alt:
  "webhookIdentityKey sha256 ws t e r p i =
     ''v1:'' @ EncodeToString (sha256 (FormatInt ws @ CHR 0x00 # identity_material t e r p i))"
  by (simp add: webhookIdentityKey_def identity_material_def Let_def TrimSpace_ToLower)

lemma EncodeToString_inject: "EncodeToString s = EncodeToString t \<longleftrightarrow> s = t"
  by (metis DecodeString_EncodeToString option.inject)

lemma NUL_not_FormatInt: "CHR 0x00 \<notin> set (FormatInt i)"
  using plain_FormatInt [of i] by (auto simp: list_all_iff plain_char_def)



section \<open>Deliveries\<close>

lemma ProcessWebhookEvent_atomic:
  "svc_atomic_store s \<Longrightarrow> ProcessWebhookEvent sha256 s ws t email reason raw i =
     store (ProcessWebhookEventAtomic (settled_event sha256 ws t email reason raw i))"
  by (simp add: ProcessWebhookEvent_def settled_event_def Let_def)

lemma deliver_known:
  assumes "alone w" and "find_identity (evt_WorkspaceID e) (evt_IdentityKey e) (sh_db (w_shared w)) = Some row"
    and "run_state (store (ProcessWebhookEventAtomic e)) w = (r, w')"
  shows "alone w' \<and> (sh_db (w_shared w') = sh_db (w_shared w) \<or> sh_db (w_shared w') = bump_seq (sh_db (w_shared w))) \<and>
    (r = Inr (scanWebhookEvent row) \<or> (\<exists>err. r = Inl err))"
  using assms(3)
  by (cases rule: store_run) (use assms(1,2) in \<open>auto simp: ProcessWebhookEventAtomic_known upd_db_def\<close>)

lemma deliver_fresh:
  assumes "alone w" and inv: "webhook_inv (sh_db (w_shared w))" "has_workspace (evt_WorkspaceID e) (sh_db (w_shared w))"
    and new: "find_identity (evt_WorkspaceID e) (evt_IdentityKey e) (sh_db (w_shared w)) = None"
    and run: "run_state (store (ProcessWebhookEventAtomic e)) w = (r, w')"
  obtains (missed) err where "r = Inl err" "w' = idle w"
    | (hit) row where "alone w'" "took_effect e row (sh_db (w_shared w)) (sh_db (w_shared w'))"
        "r = Inr (scanWebhookEvent row) \<or> (\<exists>err. r = Inl err)"
        "find_identity (evt_WorkspaceID e) (evt_IdentityKey e) (sh_db (w_shared w')) = Some row"
  using run
proof (cases rule: store_run)
  case (refused err)
  then show ?thesis by (rule missed)
next
  case ran
  let ?d = "sh_db (w_shared w)" and ?now = "w_clock w (w_step w)"
  let ?row = "stored_event e (db_webhook_seq ?d + 1) ?now"
  note out = ProcessWebhookEventAtomic_new [OF inv new, of ?now]
  have d': "sh_db (w_shared w') =
      (effect_on (effect_of e) (evt_WorkspaceID e) (from_null (whr_email ?row)) (from_null (whr_reason ?row)) (bump_seq ?d))
        \<lparr>db_webhook_events := db_webhook_events ?d @ [?row]\<rparr>"
    using ran(1) assms(1) out by (simp add: upd_db_def effect_of_def Let_def)
  show ?thesis
  proof (rule hit)
    show "alone w'" using ran(1) assms(1) by simp
    show "took_effect e ?row ?d (sh_db (w_shared w'))"
      unfolding took_effect_def d' by (cases "effect_of e") (auto simp: effect_on_def Let_def)
    show "r = Inr (scanWebhookEvent ?row) \<or> (\<exists>err. r = Inl err)" using ran(2) assms(1) out by (simp add: Let_def)
    have "find_identity (evt_WorkspaceID e) (evt_IdentityKey e) ?d = None" by (rule new)
    then show "find_identity (evt_WorkspaceID e) (evt_IdentityKey e) (sh_db (w_shared w')) = Some ?row"
      unfolding d' by (simp add: find_identity_def find_append stored_event_def Let_def)
  qed
qed

lemma redeliver_known:
  assumes "alone w" and "find_identity (evt_WorkspaceID e) (evt_IdentityKey e) (sh_db (w_shared w)) = Some row"
    and "run_state (redeliver n (store (ProcessWebhookEventAtomic e))) w = (rs, w')"
  shows "db_webhook_events (sh_db (w_shared w')) = db_webhook_events (sh_db (w_shared w)) \<and>
    db_suppressions (sh_db (w_shared w')) = db_suppressions (sh_db (w_shared w)) \<and>
    db_unsubscribes (sh_db (w_shared w')) = db_unsubscribes (sh_db (w_shared w)) \<and>
    (\<forall>ev. Inr ev \<in> set rs \<longrightarrow> ev = scanWebhookEvent row)"
  using assms
proof (induction n arbitrary: w rs)
  case (Suc n)
  obtain r w1 where one: "run_state (store (ProcessWebhookEventAtomic e)) w = (r, w1)" by (metis surj_pair)
  obtain rs' where rest: "run_state (redeliver n (store (ProcessWebhookEventAtomic e))) w1 = (rs', w')" "rs = r # rs'"
    using Suc.prems(3) one by (auto split: prod.splits)
  from deliver_known [OF Suc.prems(1,2) one] have k: "alone w1"
    "find_identity (evt_WorkspaceID e) (evt_IdentityKey e) (sh_db (w_shared w1)) = Some row"
    "db_webhook_events (sh_db (w_shared w1)) = db_webhook_events (sh_db (w_shared w))"
    "db_suppressions (sh_db (w_shared w1)) = db_suppressions (sh_db (w_shared w))"
    "db_unsubscribes (sh_db (w_shared w1)) = db_unsubscribes (sh_db (w_shared w))"
    "r = Inr (scanWebhookEvent row) \<or> (\<exists>err. r = Inl err)"
    using Suc.prems(2) by auto
  show ?case using Suc.IH [OF k(1,2) rest(1)] k rest(2) by auto
qed simp

text \<open>
  C6 However often a provider delivers an event and whichever of the calls are refused or lose
  their answer: as soon as one delivery was answered, the event is recorded exactly once, the
  recipient lists are as after exactly one application of it, and every answer carries the one
  recorded event.
\<close>

theorem webhook_exactly_once:
  assumes al: "alone w" and atomic: "svc_atomic_store s" and inv: "webhook_inv (sh_db (w_shared w))"
    and e: "e = settled_event sha256 ws eventType email reason rawPayload identity"
    and ws: "has_workspace (evt_WorkspaceID e) (sh_db (w_shared w))"
    and new: "find_identity (evt_WorkspaceID e) (evt_IdentityKey e) (sh_db (w_shared w)) = None"
    and run: "run_state (redeliver n (ProcessWebhookEvent sha256 s ws eventType email reason rawPayload identity)) w = (rs, w')"
    and ok: "Inr ev \<in> set rs"
  shows "\<exists>row. took_effect e row (sh_db (w_shared w)) (sh_db (w_shared w')) \<and>
    (\<forall>ev'. Inr ev' \<in> set rs \<longrightarrow> ev' = scanWebhookEvent row)"
  using al inv ws new run ok unfolding ProcessWebhookEvent_atomic [OF atomic] e [symmetric]
proof (induction n arbitrary: w rs)
  case (Suc n)
  obtain r w1 where one: "run_state (store (ProcessWebhookEventAtomic e)) w = (r, w1)" by (metis surj_pair)
  obtain rs' where rest: "run_state (redeliver n (store (ProcessWebhookEventAtomic e))) w1 = (rs', w')" "rs = r # rs'"
    using Suc.prems(5) one by (auto split: prod.splits)
  from Suc.prems(1-4) one show ?case
  proof (cases rule: deliver_fresh)
    case (missed err)
    then have "sh_db (w_shared w1) = sh_db (w_shared w)" "alone w1" using Suc.prems(1) by simp_all
    then show ?thesis
      using Suc.IH [OF _ _ _ _ rest(1)] Suc.prems(2-4,6) rest(2) missed(1) by auto
  next
    case (hit row)
    with redeliver_known [OF hit(1,4) rest(1)] rest(2) show ?thesis
      by (intro exI [of _ row]) (auto simp: took_effect_def Let_def)
  qed
qed simp

section \<open>Applied events are covered by the lists\<close>

interpretation events: shared_relation keeps_events
  by unfold_locales (simp_all add: keeps_events_def)

lemma effect_on_grows:
  "db_suppressions d k \<noteq> None \<Longrightarrow> db_suppressions (effect_on f ws e r d) k \<noteq> None"
  "db_unsubscribes d k \<noteq> None \<Longrightarrow> db_unsubscribes (effect_on f ws e r d) k \<noteq> None"
  by (cases f; simp add: effect_on_def)+

lemma lists_cover_bump: "lists_cover d \<Longrightarrow> lists_cover (bump_seq d)"
  by (simp add: lists_cover_def)

lemma lists_cover_append:
  assumes "lists_cover d"
    and "\<And>k. db_suppressions d k \<noteq> None \<Longrightarrow> db_suppressions d' k \<noteq> None"
    and "\<And>k. db_unsubscribes d k \<noteq> None \<Longrightarrow> db_unsubscribes d' k \<noteq> None"
    and "row_effect row = Suppress \<Longrightarrow> whr_status row \<noteq> ''dead_letter'' \<Longrightarrow> db_suppressions d' (row_address row) \<noteq> None"
    and "row_effect row = Unsubscribe \<Longrightarrow> whr_status row \<noteq> ''dead_letter'' \<Longrightarrow> db_unsubscribes d' (row_address row) \<noteq> None"
    and "db_webhook_events d' = db_webhook_events d @ [row]"
  shows "lists_cover d'"
  unfolding lists_cover_def
proof (intro ballI impI)
  fix r assume r: "r \<in> set (db_webhook_events d')" "whr_status r = ''applied'' \<or> whr_status r = ''replayed''"
  show "(row_effect r = Suppress \<longrightarrow> db_suppressions d' (row_address r) \<noteq> None) \<and>
        (row_effect r = Unsubscribe \<longrightarrow> db_unsubscribes d' (row_address r) \<noteq> None)"
  proof (cases "r \<in> set (db_webhook_events d)")
    case True
    with r(2) assms(1-3) show ?thesis unfolding lists_cover_def by blast
  next
    case False
    then have "r = row" using r(1) assms(6) by simp
    moreover from this r(2) have "whr_status row \<noteq> ''dead_letter''" by auto
    ultimately show ?thesis using assms(4,5) by blast
  qed
qed

lemma ProcessWebhookEventAtomic_cover:
  assumes inv: "webhook_inv d" and cov: "lists_cover d"
  shows "lists_cover (snd (ProcessWebhookEventAtomic e now d))"
proof (cases "find_identity (evt_WorkspaceID e) (evt_IdentityKey e) d")
  case None
  show ?thesis
  proof (cases "has_workspace (evt_WorkspaceID e) d")
    case True
    let ?row = "stored_event e (db_webhook_seq d + 1) now"
    have eff: "row_effect ?row = event_effect (evt_EventType e) (evt_Email e) (evt_Reason e)"
      using event_effect_nullable [of "evt_EventType e" "evt_Email e" "evt_Reason e"]
      by (simp add: row_effect_def stored_event_def Let_def del: event_effect_nullable from_nullable)
    have ws: "row_address ?row = (evt_WorkspaceID e, normalizeEmail (from_null (whr_email ?row)))"
      by (simp add: row_address_def stored_event_def Let_def)
    show ?thesis
      unfolding ProcessWebhookEventAtomic_new [OF inv True None] Let_def snd_conv eff [symmetric]
    proof (rule lists_cover_append [OF cov])
      let ?d = "effect_on (row_effect ?row) (evt_WorkspaceID e) (from_null (whr_email ?row)) (from_null (whr_reason ?row)) (bump_seq d)"
      show "db_webhook_events (?d\<lparr>db_webhook_events := db_webhook_events d @ [?row]\<rparr>) = db_webhook_events d @ [?row]" by simp
      show "db_suppressions (?d\<lparr>db_webhook_events := db_webhook_events d @ [?row]\<rparr>) k \<noteq> None" if "db_suppressions d k \<noteq> None" for k
        using that effect_on_grows(1) [of "bump_seq d" k] by simp
      show "db_unsubscribes (?d\<lparr>db_webhook_events := db_webhook_events d @ [?row]\<rparr>) k \<noteq> None" if "db_unsubscribes d k \<noteq> None" for k
        using that effect_on_grows(2) [of "bump_seq d" k] by simp
    qed (simp_all add: ws, simp_all add: effect_on_def)
  qed (use None cov in \<open>simp add: ProcessWebhookEventAtomic_no_workspace lists_cover_bump\<close>)
qed (use cov in \<open>simp add: ProcessWebhookEventAtomic_known lists_cover_bump\<close>)

lemma insert_dead_letter_cover:
  assumes cov: "lists_cover d" and st: "evt_Status e = ''dead_letter''"
  shows "lists_cover (snd (insert_webhook_event e now d))"
proof (cases "is_int32 (evt_AttemptCount e) \<and> find_identity (evt_WorkspaceID e) (evt_IdentityKey e) d = None \<and>
    has_workspace (evt_WorkspaceID e) d")
  case True
  then show ?thesis
    using st unfolding insert_webhook_event_def Let_def
    by (simp, intro lists_cover_append [OF cov]) simp_all
next
  case False
  then have "snd (insert_webhook_event e now d) = d \<or> snd (insert_webhook_event e now d) = bump_seq d"
    by (auto simp: insert_webhook_event_def Let_def)
  then show ?thesis using cov lists_cover_bump by metis
qed

lemma replayed_row_simps [simp]:
  "row_effect (replayed_row r r') = row_effect r'" "row_address (replayed_row r r') = row_address r'"
  "whr_id (replayed_row r r') = whr_id r'" "whr_workspace_id (replayed_row r r') = whr_workspace_id r'"
  "event_key (replayed_row r r') = event_key r'"
  by (simp_all add: replayed_row_def row_effect_def row_address_def event_key_def Let_def)

text \<open>With unique ids, a replay rewrites the row it claimed and no other.\<close>

lemma update_claimed:
  assumes "webhook_inv d" and "r \<in> set (db_webhook_events d)" and "whr_id r = i"
  shows "db_webhook_events (update_events (\<lambda>r'. whr_id r' = i) f (effect_on g ws e rs d)) =
    map (\<lambda>r'. if r' = r then f r else r') (db_webhook_events d)"
proof -
  have "whr_id r' = i \<longleftrightarrow> r' = r" if "r' \<in> set (db_webhook_events d)" for r'
    using assms that by (metis webhook_inv_def distinct_map inj_on_def)
  then show ?thesis by (simp add: update_events_def)
qed

lemma ReplayWebhookEventAtomic_cover:
  assumes inv: "webhook_inv d" and cov: "lists_cover d"
  shows "lists_cover (snd (ReplayWebhookEventAtomic locked ws i now d))"
proof -
  obtain res d' where run: "ReplayWebhookEventAtomic locked ws i now d = (res, d')" by (metis surj_pair)
  from inv run have "lists_cover d'"
  proof (cases rule: ReplayWebhookEventAtomic_cases)
    case (claimed r)
    let ?d = "effect_on (row_effect r) ws (from_null (whr_email r)) (from_null (whr_reason r)) d"
    have rows: "db_webhook_events d' = map (\<lambda>r'. if r' = r then replayed_row r r else r') (db_webhook_events d)"
      unfolding claimed(8) by (rule update_claimed [OF inv claimed(1,3)])
    have lists: "db_suppressions d' = db_suppressions ?d" "db_unsubscribes d' = db_unsubscribes ?d"
      by (simp_all add: claimed(8) row_effect_def)
    show ?thesis
      unfolding lists_cover_def
    proof (intro ballI impI)
      fix x assume x: "x \<in> set (db_webhook_events d')" "whr_status x = ''applied'' \<or> whr_status x = ''replayed''"
      then consider "x \<in> set (db_webhook_events d)" | "x = replayed_row r r" unfolding rows by (auto split: if_splits)
      then show "(row_effect x = Suppress \<longrightarrow> db_suppressions d' (row_address x) \<noteq> None) \<and>
        (row_effect x = Unsubscribe \<longrightarrow> db_unsubscribes d' (row_address x) \<noteq> None)"
      proof cases
        case 1
        with x(2) cov have "(row_effect x = Suppress \<longrightarrow> db_suppressions d (row_address x) \<noteq> None) \<and>
            (row_effect x = Unsubscribe \<longrightarrow> db_unsubscribes d (row_address x) \<noteq> None)" unfolding lists_cover_def by metis
        then show ?thesis unfolding lists using effect_on_grows by blast
      next
        case 2
        then show ?thesis using claimed(2) by (simp add: lists) (simp add: row_address_def effect_on_def)
      qed
    qed
  qed (use cov in simp_all)
  with run show ?thesis by simp
qed

lemma events_store:
  assumes "\<And>t d. webhook_inv d \<Longrightarrow> lists_cover d \<Longrightarrow> webhook_inv (snd (op t d)) \<and> lists_cover (snd (op t d))"
  shows "state_io_rel (moves keeps_events) (store op)"
  by (rule events.moves_store) (use assms in \<open>simp add: keeps_events_def events_ok_def\<close>)

lemma events_calls:
  "state_io_rel (moves keeps_events) (store (ProcessWebhookEventAtomic e))"
  "state_io_rel (moves keeps_events) (store (ReplayWebhookEventAtomic locked ws i))"
  "state_io_rel (moves keeps_events) (store (select_webhook_event ws k))"
  "state_io_rel (moves keeps_events) (store (ListWebhookDeadLetters ws n))"
  "state_io_rel (moves keeps_events) (store (ListWebhookDeadLettersByID ws ids))"
  by (rule events_store; simp add: ProcessWebhookEventAtomic_inv ProcessWebhookEventAtomic_cover ReplayWebhookEventAtomic_inv
      ReplayWebhookEventAtomic_cover select_webhook_event_def ListWebhookDeadLetters_def ListWebhookEvents_def
      ListWebhookDeadLettersByID_def Let_def split: option.split)+

lemma events_insert:
  "evt_Status e = ''dead_letter'' \<Longrightarrow> state_io_rel (moves keeps_events) (store (insert_webhook_event e))"
  by (rule events_store) (simp add: insert_webhook_event_inv insert_dead_letter_cover)

lemma events_record: "state_io_rel (moves keeps_events) (RecordWebhookDeadLetter sha256 ws t email reason err raw n)"
  unfolding RecordWebhookDeadLetter_def InsertWebhookEvent_def
  by (intro events.world.within events_calls events_insert) simp_all

lemma events_replay_atomic: "state_io_rel (moves keeps_events) (replay_atomic locked ws evs out)"
  by (induction evs arbitrary: out) (simp_all, (intro events.world.within events_calls | assumption)+)

lemma events_replay:
  "svc_atomic_store s \<Longrightarrow> state_io_rel (moves keeps_events) (ReplayWebhookDeadLetters locked s ws ids limit)"
  unfolding ReplayWebhookDeadLetters_def replayWebhookDeadLettersAtomic_def
  by (intro events.world.within events_calls events_replay_atomic) simp

text \<open>
  C18 The event table stays consistent, for every schedule of faults and next to other processes
  that keep it so: ids and identities are unique, no event is left half processed, and every
  event that counts as applied or replayed has its recipient on the list it belongs on.
\<close>

theorem webhook_tables_kept:
  assumes "svc_atomic_store s" and "others keeps_events w" and "events_ok (w_shared w)"
  shows "events_ok (w_shared (snd (run_state (ProcessWebhookEvent sha256 s ws t email reason raw i) w))) \<and>
    events_ok (w_shared (snd (run_state (RecordWebhookDeadLetter sha256 ws t email reason err raw n) w))) \<and>
    events_ok (w_shared (snd (run_state (ReplayWebhookDeadLetters locked s ws ids limit) w)))"
proof -
  have keeps: "moves keeps_events w w' \<Longrightarrow> events_ok (w_shared w')" for w'
    using assms(2,3) by (simp add: moves_def keeps_events_def)
  have "state_io_rel (moves keeps_events) (ProcessWebhookEvent sha256 s ws t email reason raw i)"
    unfolding ProcessWebhookEvent_atomic [OF assms(1)] by (rule events_calls)
  then show ?thesis
    using events_record events_replay [OF assms(1)]
    by (intro conjI keeps) (simp_all add: state_io_rel_def)
qed

text \<open>The hypotheses hold for a fresh installation.\<close>

lemma demo_events_ok: "events_ok (w_shared (demo_world (demo_db st) rel))" "others keeps_events (demo_world d rel)"
  by (simp_all add: events_ok_def demo_world_def demo_db_def empty_db_def webhook_inv_def lists_cover_def others_def keeps_events_def)

lemma demo_atomic: "svc_atomic_store demo_service"
  by (simp add: demo_service_def NewMessageService_def Let_def)

theorem webhook_tables_kept_witness:
  "events_ok (w_shared (snd (run_state (ProcessWebhookEvent rev demo_service 1 ''complaint'' ''B@example.org'' [] ''{}'' [])
     (demo_world (demo_db ''queued'') demo_relay))))"
  by (rule webhook_tables_kept [OF demo_atomic demo_events_ok(2,1), THEN conjunct1])

text \<open>The hypotheses hold when the answer to the first delivery is lost.\<close>

theorem webhook_exactly_once_witness:
  "let w = (demo_world (demo_db ''queued'') demo_relay)\<lparr>w_fault := (\<lambda>n. if n = 0 then Unacknowledged (ErrDriver ''timeout'') else Executed)\<rparr>
   in map isl (fst (demo_events w)) = [True, False] \<and> length (db_webhook_events (sh_db (w_shared (snd (demo_events w))))) = 1 \<and>
      db_suppressions (sh_db (w_shared (snd (demo_events w)))) (1, ''b@example.org'') = Some ''provider_complaint''"
proof -
  let ?w = "(demo_world (demo_db ''queued'') demo_relay)\<lparr>w_fault := (\<lambda>n. if n = 0 then Unacknowledged (ErrDriver ''timeout'') else Executed)\<rparr>"
  let ?e = "settled_event rev 1 ''complaint'' ''B@example.org'' [] ''{}'' []"
  have len: "map isl (fst (demo_events ?w)) = [True, False]" by code_simp
  then obtain ev where ok: "Inr ev \<in> set (fst (demo_events ?w))"
    by (cases "fst (demo_events ?w)"; cases "tl (fst (demo_events ?w))"; cases "hd (tl (fst (demo_events ?w)))") auto
  have pre: "alone ?w" "webhook_inv (sh_db (w_shared ?w))" "db_webhook_events (sh_db (w_shared ?w)) = []"
    using demo_events_ok(1) [of "''queued''" demo_relay]
    by (simp_all add: events_ok_def alone_def demo_world_def demo_db_def empty_db_def)
  have ws: "has_workspace (evt_WorkspaceID ?e) (sh_db (w_shared ?w))" by code_simp
  have new: "find_identity (evt_WorkspaceID ?e) (evt_IdentityKey ?e) (sh_db (w_shared ?w)) = None"
    using pre(3) by (simp add: find_identity_def)
  obtain row where took: "took_effect ?e row (sh_db (w_shared ?w)) (sh_db (w_shared (snd (demo_events ?w))))"
    using webhook_exactly_once [OF pre(1) demo_atomic pre(2) refl ws new _ ok, of 2 "snd (demo_events ?w)"]
    by (auto simp: demo_events_def)
  have "db_suppressions (sh_db (w_shared (snd (demo_events ?w)))) (1, ''b@example.org'') = Some ''provider_complaint''" by code_simp
  with len took pre(3) show ?thesis unfolding Let_def took_effect_def by (intro conjI) simp_all
qed

section \<open>From an event to the sender\<close>

text \<open>
  C15 A complaint, a permanent bounce or an unsubscription that the service acknowledged as applied
  reaches the sender: from then on \<open>ProcessOne\<close> puts nothing on the wire for a message of that
  workspace to that recipient, in whatever case or with whatever blanks the address is written,
  under any faults and next to any processes that take nobody off the lists.
\<close>

theorem acknowledged_event_stops_sends:
  assumes al: "alone w" and atomic: "svc_atomic_store s" and ok: "events_ok (w_shared w)"
    and run: "run_state (ProcessWebhookEvent sha256 s ws t email reason raw i) w = (Inr ev, w1)"
    and st: "evt_Status ev = ''applied'' \<or> evt_Status ev = ''replayed''"
    and eff: "effect_of ev = Suppress \<or> effect_of ev = Unsubscribe"
    and later: "grows (w_shared w1) (w_shared w2)" "others grows w2"
    and msg: "find_message j (sh_db (w_shared w2)) = Some m" "msg_WorkspaceID m = evt_WorkspaceID ev"
      "normalizeEmail (msg_ToEmail m) = normalizeEmail (evt_Email ev)"
    and run2: "run_state (ProcessOne s' j) w2 = (r, w')"
  shows "w_wire w' = w_wire w2"
proof -
  let ?e = "settled_event sha256 ws t email reason raw i"
  have go: "run_state (store (ProcessWebhookEventAtomic ?e)) w = (Inr ev, w1)"
    using run by (simp add: ProcessWebhookEvent_atomic [OF atomic])
  have inv: "webhook_inv (sh_db (w_shared w))" using ok by (simp add: events_ok_def)
  have "\<exists>row \<in> set (db_webhook_events (sh_db (w_shared w1))). ev = scanWebhookEvent row"
  proof (cases "find_identity (evt_WorkspaceID ?e) (evt_IdentityKey ?e) (sh_db (w_shared w))")
    case (Some row)
    then have "row \<in> set (db_webhook_events (sh_db (w_shared w)))"
      by (auto simp: find_identity_def find_Some_iff in_set_conv_nth)
    with deliver_known [OF al Some go] show ?thesis by auto
  next
    case None
    have "has_workspace (evt_WorkspaceID ?e) (sh_db (w_shared w))"
      using store_ok(1) [OF go] al None by (auto simp: ProcessWebhookEventAtomic_def split: if_splits)
    from al inv this None go show ?thesis by (cases rule: deliver_fresh) (auto simp: took_effect_def)
  qed
  then obtain row where row: "row \<in> set (db_webhook_events (sh_db (w_shared w1)))" "ev = scanWebhookEvent row" by blast
  have "moves keeps_events w w1" by (rule state_io_relD [OF events_calls(1) go])
  then have "lists_cover (sh_db (w_shared w1))"
    using ok al by (simp add: moves_def keeps_events_def others_def alone_def events_ok_def)
  with row st eff have "listed (evt_WorkspaceID ev) (evt_Email ev) (sh_db (w_shared w1))"
    by (auto simp: lists_cover_def listed_def effect_of_def row_effect_def row_address_def scanWebhookEvent_def)
  then have "listed (msg_WorkspaceID m) (msg_ToEmail m) (sh_db (w_shared w2))"
    using later(1) msg(2,3) unfolding listed_def grows_def by (metis domIff subsetD)
  from listed_silent [OF later(2) msg(1) this run2] show ?thesis .
qed

text \<open>The hypotheses hold for a complaint by the recipient of the queued message.\<close>

theorem acknowledged_event_stops_sends_witness:
  "let w = demo_world (demo_db ''queued'') demo_relay;
       w1 = snd (run_state (ProcessWebhookEvent rev demo_service 1 ''complaint'' ''B@example.org '' [] ''{}'' []) w)
   in w_wire (snd (run_state (ProcessOne demo_service 1) w1)) = w_wire w1"
proof -
  let ?w = "demo_world (demo_db ''queued'') demo_relay"
  let ?run = "run_state (ProcessWebhookEvent rev demo_service 1 ''complaint'' ''B@example.org '' [] ''{}'' []) ?w"
  obtain ev where ev: "fst ?run = Inr ev" "evt_Status ev = ''applied''" "effect_of ev = Suppress" "evt_WorkspaceID ev = 1"
    "normalizeEmail (evt_Email ev) = ''b@example.org''"
  proof -
    have "case fst ?run of Inl _ \<Rightarrow> False | Inr ev \<Rightarrow> evt_Status ev = ''applied'' \<and> effect_of ev = Suppress \<and> evt_WorkspaceID ev = 1 \<and>
        normalizeEmail (evt_Email ev) = ''b@example.org''" by code_simp
    then show thesis using that by (cases "fst ?run") auto
  qed
  have al: "alone ?w" by (simp add: alone_def demo_world_def)
  have run: "?run = (Inr ev, snd ?run)" using ev(1) by (metis prod.collapse)
  have "silent ?w (snd ?run)"
    unfolding ProcessWebhookEvent_atomic [OF demo_atomic] by (rule state_io_relD [OF silent_calls(1) prod.collapse [symmetric]])
  then have oth: "others grows (snd ?run)"
    using al by (simp add: silent_def same_env_def others_def alone_def grows.refl)
  have msg: "find_message 1 (sh_db (w_shared (snd ?run))) = Some (demo_message ''queued'')" by code_simp
  have to: "msg_WorkspaceID (demo_message ''queued'') = evt_WorkspaceID ev"
    "normalizeEmail (msg_ToEmail (demo_message ''queued'')) = normalizeEmail (evt_Email ev)"
    unfolding ev(4,5) by code_simp+
  show ?thesis
    unfolding Let_def
    by (rule acknowledged_event_stops_sends [OF al demo_atomic demo_events_ok(1) run disjI1 [OF ev(2)] disjI1 [OF ev(3)]
        grows.refl oth msg to prod.collapse [symmetric]])
qed

end
