(* ===== verification/Webhook_Replay.thy ===== *)
theory Webhook_Replay
  imports Webhook_Delivery
begin

text \<open>
  Replays of dead letters: what a replay may touch, that its result accounts for every event, and
  the bounded retries of a store without transactions.
\<close>

section \<open>Definitions\<close>

text \<open>
  What a replay in a workspace may do: rewrite status, attempt count and last error of dead letters
  of the workspace, and put on the lists the recipients of those whose class says so.
\<close>

definition may_replay :: "int \<Rightarrow> webhook_row \<Rightarrow> bool" where
  "may_replay ws r \<longleftrightarrow> whr_workspace_id r = ws \<and> whr_status r = ''dead_letter''"

definition replay_row_ok :: "int \<Rightarrow> webhook_row \<Rightarrow> webhook_row \<Rightarrow> bool" where
  "replay_row_ok ws r r' \<longleftrightarrow>
     r' = r \<or>
     may_replay ws r \<and>
     (\<exists>st n err. (st = ''replayed'' \<or> st = ''dead_letter'') \<and>
        r' = r\<lparr>whr_status := st, whr_attempt_count := n, whr_last_error := err\<rparr>)"

definition replay_confined :: "int \<Rightarrow> shared \<Rightarrow> shared \<Rightarrow> bool" where
  "replay_confined ws sh sh' \<longleftrightarrow>
     (let d = sh_db sh; d' = sh_db sh' in
      list_all2 (replay_row_ok ws) (db_webhook_events d) (db_webhook_events d') \<and>
      (\<forall>k. db_suppressions d' k \<noteq> db_suppressions d k \<longrightarrow>
         (\<exists>r \<in> set (db_webhook_events d). may_replay ws r \<and> row_effect r = Suppress \<and> row_address r = k)) \<and>
      (\<forall>k. db_unsubscribes d' k \<noteq> db_unsubscribes d k \<longrightarrow>
         (\<exists>r \<in> set (db_webhook_events d). may_replay ws r \<and> row_effect r = Unsubscribe \<and> row_address r = k)) \<and>
      db_messages d' = db_messages d \<and> db_attempts d' = db_attempts d \<and> db_smtp_accounts d' = db_smtp_accounts d \<and>
      db_policies d' = db_policies d \<and> db_metering d' = db_metering d \<and> db_domains d' = db_domains d \<and>
      db_workspaces d' = db_workspaces d \<and> sh_queue sh' = sh_queue sh)"

text \<open>The relation holds of a replay in a consistent table; an inconsistent one is left unconstrained.\<close>

definition replay_step :: "int \<Rightarrow> shared \<Rightarrow> shared \<Rightarrow> bool" where
  "replay_step ws sh sh' \<longleftrightarrow> keeps_events sh sh' \<and> (events_ok sh \<longrightarrow> replay_confined ws sh sh')"

definition tally :: "string \<Rightarrow> WebhookReplayResult \<Rightarrow> int" where
  "tally st out = int (length (filter (\<lambda>x. wro_Status x = st) (wrr_Outcomes out)))"

definition tallied :: "WebhookReplayResult \<Rightarrow> bool" where
  "tallied out \<longleftrightarrow> wrr_Replayed out = tally ''replayed'' out \<and> wrr_Failed out = tally ''failed'' out \<and>
     wrr_Skipped out = tally ''skipped'' out \<and>
     int (length (wrr_Outcomes out)) = wrr_Replayed out + wrr_Failed out + wrr_Skipped out"

definition outcome_ids :: "WebhookReplayResult \<Rightarrow> int list" where
  "outcome_ids out = map wro_EventID (wrr_Outcomes out)"

text \<open>The result of a replay over the listed events, with a result in hand.\<close>

definition accounts_for :: "WebhookEvent list \<Rightarrow> WebhookReplayResult \<Rightarrow> WebhookReplayResult result \<Rightarrow> world \<Rightarrow> bool" where
  "accounts_for evs out r w \<longleftrightarrow>
     (case r of Inl _ \<Rightarrow> True
      | Inr out' \<Rightarrow> tallied out' \<and> outcome_ids out' = outcome_ids out @ map evt_ID evs \<and>
        wrr_Requested out' = wrr_Requested out \<and> wrr_WorkspaceID out' = wrr_WorkspaceID out)"

definition demo_letter :: "int \<Rightarrow> string \<Rightarrow> string \<Rightarrow> webhook_row" where
  "demo_letter i email reason =
     \<lparr>whr_id = i, whr_workspace_id = 1, whr_event_type = ''bounce'', whr_identity_key = FormatInt i, whr_email = Some email,
      whr_reason = Some reason, whr_status = ''dead_letter'', whr_attempt_count = 1, whr_last_error = Some [],
      whr_raw_payload = Some [], whr_created_at = i\<rparr>"

definition letters_world :: world where
  "letters_world = demo_world ((demo_db ''sent'')\<lparr>db_webhook_events :=
     [demo_letter 1 ''a@example.org'' ''permanent'', demo_letter 2 ''b@example.org'' ''mailbox full''], db_webhook_seq := 2\<rparr>) demo_relay"

section \<open>Replays\<close>

lemma replay_row_refl: "replay_row_ok ws r r"
  by (simp add: replay_row_ok_def)

lemma replay_row_trans: "replay_row_ok ws r r' \<Longrightarrow> replay_row_ok ws r' r'' \<Longrightarrow> replay_row_ok ws r r''"
  unfolding replay_row_ok_def by (elim disjE conjE exE; clarsimp simp: may_replay_def; fastforce)

lemma replay_row_back:
  assumes "list_all2 (replay_row_ok ws) rs rs'" and "r' \<in> set rs'" and "may_replay ws r'"
  shows "\<exists>r \<in> set rs. may_replay ws r \<and> row_effect r = row_effect r' \<and> row_address r = row_address r'"
proof -
  obtain n where n: "n < length rs'" "r' = rs' ! n" using assms(2) by (metis in_set_conv_nth)
  then have "n < length rs" "replay_row_ok ws (rs ! n) r'" using assms(1) by (auto simp: list_all2_conv_all_nth)
  then show ?thesis
    using assms(3) by (intro bexI [of _ "rs ! n"]) (auto simp: replay_row_ok_def row_effect_def row_address_def)
qed

interpretation replay: shared_relation "replay_confined ws" for ws
proof unfold_locales
  show "replay_confined ws sh sh" for sh
    by (simp add: replay_confined_def list_all2_refl replay_row_refl)
  show "replay_confined ws sh sh''" if 1: "replay_confined ws sh sh'" and 2: "replay_confined ws sh' sh''" for sh sh' sh''
  proof -
    let ?rs = "db_webhook_events (sh_db sh)" and ?rs' = "db_webhook_events (sh_db sh')" and ?rs'' = "db_webhook_events (sh_db sh'')"
    have rows: "list_all2 (replay_row_ok ws) ?rs ?rs'" "list_all2 (replay_row_ok ws) ?rs' ?rs''"
      using 1 2 by (simp_all add: replay_confined_def Let_def)
    have origin: "\<exists>r \<in> set ?rs. may_replay ws r \<and> row_effect r = f \<and> row_address r = k"
      if "\<exists>r \<in> set ?rs'. may_replay ws r \<and> row_effect r = f \<and> row_address r = k" for f k
      using that replay_row_back [OF rows(1)] by metis
    have "list_all2 (replay_row_ok ws) ?rs ?rs''"
      by (rule list_all2_trans [OF _ rows]) (rule replay_row_trans)
    moreover have "\<exists>r \<in> set ?rs. may_replay ws r \<and> row_effect r = Suppress \<and> row_address r = k"
      if "db_suppressions (sh_db sh'') k \<noteq> db_suppressions (sh_db sh) k" for k
    proof (cases "db_suppressions (sh_db sh') k = db_suppressions (sh_db sh) k")
      case True
      with that 2 show ?thesis by (cases k; intro origin; simp add: replay_confined_def Let_def)
    next
      case False
      with 1 show ?thesis by (cases k; simp add: replay_confined_def Let_def)
    qed
    moreover have "\<exists>r \<in> set ?rs. may_replay ws r \<and> row_effect r = Unsubscribe \<and> row_address r = k"
      if "db_unsubscribes (sh_db sh'') k \<noteq> db_unsubscribes (sh_db sh) k" for k
    proof (cases "db_unsubscribes (sh_db sh') k = db_unsubscribes (sh_db sh) k")
      case True
      with that 2 show ?thesis by (cases k; intro origin; simp add: replay_confined_def Let_def)
    next
      case False
      with 1 show ?thesis by (cases k; simp add: replay_confined_def Let_def)
    qed
    ultimately show ?thesis
      using 1 2 by (simp add: replay_confined_def Let_def)
  qed
qed

lemma effect_on_changes:
  "db_suppressions (effect_on f ws e r d) k \<noteq> db_suppressions d k \<Longrightarrow> f = Suppress \<and> k = (ws, normalizeEmail e)"
  "db_unsubscribes (effect_on f ws e r d) k \<noteq> db_unsubscribes d k \<Longrightarrow> f = Unsubscribe \<and> k = (ws, normalizeEmail e)"
  by (cases f; simp add: effect_on_def split: if_splits)+

interpretation replay_step: shared_relation "replay_step ws" for ws
  by unfold_locales
     (auto simp: replay_step_def keeps_events_def replay.refl intro: replay.trans)

lemma replay_event_confined:
  assumes "events_ok sh"
  shows "replay_confined ws sh (sh\<lparr>sh_db := snd (ReplayWebhookEventAtomic locked ws i now (sh_db sh))\<rparr>)"
proof -
  obtain res d' where run: "ReplayWebhookEventAtomic locked ws i now (sh_db sh) = (res, d')" by (metis surj_pair)
  have inv: "webhook_inv (sh_db sh)" using assms by (simp add: events_ok_def)
  from inv run have "replay_confined ws sh (sh\<lparr>sh_db := d'\<rparr>)"
  proof (cases rule: ReplayWebhookEventAtomic_cases)
    case (claimed r)
    have ok: "may_replay ws r" using claimed by (simp add: may_replay_def)
    have rows: "db_webhook_events d' = map (\<lambda>r'. if r' = r then replayed_row r r else r') (db_webhook_events (sh_db sh))"
      unfolding claimed(8) by (rule update_claimed [OF inv claimed(1,3)])
    have row: "replay_row_ok ws r (replayed_row r r)"
      using ok unfolding replay_row_ok_def replayed_row_def
      by (cases "event_effect (whr_event_type r) (from_null (whr_email r)) (from_null (whr_reason r))")
         (auto simp: effect_status_def Let_def)
    have all: "list_all2 (replay_row_ok ws) (db_webhook_events (sh_db sh)) (db_webhook_events d')"
      unfolding rows list.rel_map by (rule list.rel_refl_strong) (simp add: row replay_row_refl)
    have lists: "db_suppressions d' k \<noteq> db_suppressions (sh_db sh) k \<Longrightarrow> row_effect r = Suppress \<and> row_address r = k"
      "db_unsubscribes d' k \<noteq> db_unsubscribes (sh_db sh) k \<Longrightarrow> row_effect r = Unsubscribe \<and> row_address r = k" for k
      using claimed(2) effect_on_changes [of "row_effect r" ws "from_null (whr_email r)" "from_null (whr_reason r)" "sh_db sh" k]
      by (auto simp: claimed(8) row_address_def row_effect_def [symmetric])
    have "db_messages d' = db_messages (sh_db sh)" "db_attempts d' = db_attempts (sh_db sh)"
      "db_smtp_accounts d' = db_smtp_accounts (sh_db sh)" "db_policies d' = db_policies (sh_db sh)"
      "db_metering d' = db_metering (sh_db sh)" "db_domains d' = db_domains (sh_db sh)" "db_workspaces d' = db_workspaces (sh_db sh)"
      by (simp_all add: claimed(8))
    with all lists ok claimed(1) show ?thesis unfolding replay_confined_def Let_def by auto
  qed (simp_all add: replay.refl)
  with run show ?thesis by simp
qed

lemma replay_calls:
  "state_io_rel (moves (replay_step ws)) (store (ReplayWebhookEventAtomic locked ws i))"
  "state_io_rel (moves (replay_step ws)) (store (ListWebhookDeadLetters ws' n))"
  "state_io_rel (moves (replay_step ws)) (store (ListWebhookDeadLettersByID ws' ids))"
proof -
  show "state_io_rel (moves (replay_step ws)) (store (ReplayWebhookEventAtomic locked ws i))"
    by (rule replay_step.moves_store)
       (simp add: replay_step_def replay_event_confined, simp add: keeps_events_def events_ok_def
          ReplayWebhookEventAtomic_inv ReplayWebhookEventAtomic_cover)
qed (rule replay_step.moves_store,
     simp add: ListWebhookDeadLetters_def ListWebhookEvents_def ListWebhookDeadLettersByID_def Let_def replay_step.refl)+

lemma replay_atomic_step: "state_io_rel (moves (replay_step ws)) (replay_atomic locked ws evs out)"
  by (induction evs arbitrary: out) (simp_all, (intro replay_step.world.within replay_calls | assumption)+)

lemma ReplayWebhookDeadLetters_step:
  "svc_atomic_store s \<Longrightarrow> state_io_rel (moves (replay_step (if ws = 0 then 1 else ws))) (ReplayWebhookDeadLetters locked s ws ids limit)"
  unfolding ReplayWebhookDeadLetters_def replayWebhookDeadLettersAtomic_def
  by (intro replay_step.world.within) (simp_all add: replay_calls replay_atomic_step)

lemma silent_once: "state_io_rel silent (apply_once ws t email reason)"
  unfolding apply_once_def by (intro silent.within silent_calls)

lemma silent_apply: "state_io_rel silent (applyWebhookEventWithRetry s ws t email reason)"
proof -
  have "state_io_rel silent (apply_attempts n mx a le ws t email reason)" for n mx a le
    by (induction n arbitrary: a le)
       (simp_all only: apply_attempts.simps, (intro silent.within silent_calls silent_once | assumption)+)
  then show ?thesis unfolding applyWebhookEventWithRetry_def by (intro silent.within)
qed

lemma silent_replay: "state_io_rel silent (ReplayWebhookDeadLetters locked s ws ids limit)"
proof -
  have atomic: "state_io_rel silent (replay_atomic locked ws evs out)" for ws evs out
    by (induction evs arbitrary: out) (simp_all, (intro silent.within silent_calls | assumption)+)
  have plain: "state_io_rel silent (replay_plain s evs out)" for evs out
    by (induction evs arbitrary: out)
       (simp_all only: replay_plain.simps, (intro silent.within silent_calls silent_apply | assumption)+)
  show ?thesis
    unfolding ReplayWebhookDeadLetters_def replayWebhookDeadLettersAtomic_def
    by (intro silent.within silent_calls atomic plain)
qed

lemma replay_within_workspace:
  assumes al: "alone w" and atomic: "svc_atomic_store s" and ok: "events_ok (w_shared w)"
    and run: "run_state (ReplayWebhookDeadLetters locked s ws ids limit) w = (r, w')"
  shows "replay_confined (if ws = 0 then 1 else ws) (w_shared w) (w_shared w') \<and> w_wire w' = w_wire w"
proof
  have "moves (replay_step (if ws = 0 then 1 else ws)) w w'"
    by (rule state_io_relD [OF ReplayWebhookDeadLetters_step [OF atomic] run])
  moreover have "others (replay_step (if ws = 0 then 1 else ws)) w"
    using al by (simp add: others_def alone_def replay_step.refl)
  ultimately show "replay_confined (if ws = 0 then 1 else ws) (w_shared w) (w_shared w')"
    using ok unfolding moves_def replay_step_def by blast
  show "w_wire w' = w_wire w" by (rule silentD [OF silent_replay run])
qed

text \<open>
  C17 A replay, whatever calls fail, touches only dead letters of its workspace, of which it changes
  status (to replayed or dead letter), attempt count and last error; it puts on a list only
  recipients of such events that belong on it, so a temporary or unclassified bounce never becomes
  a suppression; it changes no message, attempt, account, policy, domain or queue entry and sends nothing.
\<close>

theorem replay_stays_confined:
  assumes al: "alone w" and atomic: "svc_atomic_store s" and ok: "events_ok (w_shared w)"
    and run: "run_state (ReplayWebhookDeadLetters locked s ws ids limit) w = (r, w')"
  shows "replay_confined (if ws = 0 then 1 else ws) (w_shared w) (w_shared w') \<and> w_wire w' = w_wire w"
  by (rule replay_within_workspace [OF assms])

lemma tallied_outcomes:
  assumes "tallied out"
  shows "tallied (replay_failed i n err out)" "tallied (replay_done i n out)" "tallied (replay_skipped i n out)"
  using assms by (simp_all add: tallied_def tally_def replay_failed_def replay_done_def replay_skipped_def replay_outcome_def)

lemma outcome_frames [simp]:
  "wrr_Requested (replay_failed i n err out) = wrr_Requested out" "wrr_Requested (replay_done i n out) = wrr_Requested out"
  "wrr_Requested (replay_skipped i n out) = wrr_Requested out"
  "wrr_WorkspaceID (replay_failed i n err out) = wrr_WorkspaceID out" "wrr_WorkspaceID (replay_done i n out) = wrr_WorkspaceID out"
  "wrr_WorkspaceID (replay_skipped i n out) = wrr_WorkspaceID out"
  "outcome_ids (replay_failed i n err out) = outcome_ids out @ [i]" "outcome_ids (replay_done i n out) = outcome_ids out @ [i]"
  "outcome_ids (replay_skipped i n out) = outcome_ids out @ [i]"
  by (simp_all add: replay_failed_def replay_done_def replay_skipped_def replay_outcome_def outcome_ids_def)

lemma accounts_cons:
  assumes "\<And>out1. tallied out1 \<Longrightarrow> triple (\<lambda>w. True) (f out1) (accounts_for evs out1)" and "tallied out1"
    and "outcome_ids out1 = outcome_ids out @ [evt_ID ev]"
    and "wrr_Requested out1 = wrr_Requested out" "wrr_WorkspaceID out1 = wrr_WorkspaceID out"
  shows "triple (\<lambda>w. True) (f out1) (accounts_for (ev # evs) out)"
proof (rule triple_post)
  show "triple (\<lambda>w. True) (f out1) (accounts_for evs out1)" by (rule assms(1) [OF assms(2)])
  show "accounts_for evs out1 r w \<Longrightarrow> accounts_for (ev # evs) out r w" for r w
    using assms(3-5) by (cases r) (simp_all add: accounts_for_def)
qed

lemma accounts_loop:
  assumes "\<And>out1. tallied out1 \<Longrightarrow> triple (\<lambda>w. True) (f out1) (accounts_for evs out1)" and "tallied out"
  shows "triple (\<lambda>w. True) (f (replay_failed (evt_ID ev) n err out)) (accounts_for (ev # evs) out)"
    "triple (\<lambda>w. True) (f (replay_done (evt_ID ev) n out)) (accounts_for (ev # evs) out)"
    "triple (\<lambda>w. True) (f (replay_skipped (evt_ID ev) n out)) (accounts_for (ev # evs) out)"
proof -
  note cons = accounts_cons [of f evs, OF assms(1)]
  show "triple (\<lambda>w. True) (f (replay_failed (evt_ID ev) n err out)) (accounts_for (ev # evs) out)"
    by (rule cons) (simp_all add: tallied_outcomes assms(2))
  show "triple (\<lambda>w. True) (f (replay_done (evt_ID ev) n out)) (accounts_for (ev # evs) out)"
    by (rule cons) (simp_all add: tallied_outcomes assms(2))
  show "triple (\<lambda>w. True) (f (replay_skipped (evt_ID ev) n out)) (accounts_for (ev # evs) out)"
    by (rule cons) (simp_all add: tallied_outcomes assms(2))
qed

lemma accounts_error: "triple (\<lambda>w. True) (State_Monad.return (Inl e)) (accounts_for evs out)"
  by (rule triple_return) (simp add: accounts_for_def)

lemma triple_any: "triple (\<lambda>w. True) m (\<lambda>r w. True)"
  by (simp add: triple_def split: prod.split)

lemma replay_atomic_accounts: "tallied out \<Longrightarrow> triple (\<lambda>w. True) (replay_atomic locked ws evs out) (accounts_for evs out)"
proof (induction evs arbitrary: out)
  case Nil
  then show ?case by (simp add: triple_return accounts_for_def)
next
  case (Cons ev evs)
  note loop = accounts_loop [of "replay_atomic locked ws evs", OF Cons.IH Cons.prems]
  show ?case
    unfolding replay_atomic.simps
    by (rule triple_bind [OF triple_any], rule triple_sum)
       (auto intro: accounts_error loop split: option.split)
qed

lemma replay_plain_accounts: "tallied out \<Longrightarrow> triple (\<lambda>w. True) (replay_plain s evs out) (accounts_for evs out)"
proof (induction evs arbitrary: out)
  case Nil
  then show ?case by (simp add: triple_return accounts_for_def)
next
  case (Cons ev evs)
  note loop = accounts_loop [of "replay_plain s evs", OF Cons.IH Cons.prems]
  show ?case
    unfolding replay_plain.simps Let_def
    by (intro triple_if triple_bind [OF triple_any] triple_sum triple_prod accounts_error loop)
       (auto intro!: triple_bind [OF triple_any] triple_sum accounts_error loop split: option.split)
qed

lemma normalize_ids_pos: "i \<in> set (normalize_ids seen ids) \<Longrightarrow> 0 < i"
  by (induction ids arbitrary: seen) (auto split: if_splits)

lemma ListWebhookDeadLetters_bound:
  assumes "n \<le> 200"
  shows "case fst (ListWebhookDeadLetters ws n t d) of Inl e \<Rightarrow> True | Inr evs \<Rightarrow> length evs \<le> 200"
  using assms by (auto simp: ListWebhookDeadLetters_def ListWebhookEvents_def clamp_limit_def Let_def min_def)

text \<open>
  A replay that returns a result accounts for every event it listed: one outcome each, in order,
  and the counts of replayed, failed and skipped events are those of the outcomes and add up to the
  number requested; without ids it takes at most 200. This holds for both kinds of store.
\<close>

theorem replay_accounts:
  assumes run: "run_state (ReplayWebhookDeadLetters locked s ws ids limit) w = (Inr out, w')"
  shows "tallied out \<and> wrr_Requested out = int (length (wrr_Outcomes out)) \<and>
    (normalizePositiveIDs ids = [] \<longrightarrow> wrr_Requested out \<le> 200)"
proof -
  let ?ws = "if ws = 0 then 1 else ws" and ?limit = "if limit < 1 then 20 else if limit > 200 then 200 else limit"
  let ?list = "if length (normalizePositiveIDs ids) > 0 then store (ListWebhookDeadLettersByID ?ws (normalizePositiveIDs ids))
     else store (ListWebhookDeadLetters ?ws ?limit)"
  let ?source = "if length (normalizePositiveIDs ids) > 0 then ''ids'' else ''latest''"
  obtain r1 w1 where list: "run_state ?list w = (r1, w1)" by (metis surj_pair)
  have lim: "(if (if limit < 1 then 20 else limit) > 200 then 200 else if limit < 1 then 20 else limit) = ?limit" by simp
  obtain evs where evs: "r1 = Inr evs"
    "run_state (if svc_atomic_store s then replayWebhookDeadLettersAtomic locked ?ws ?source evs
       else replay_plain s evs (empty_replay ?ws ?source evs)) w1 = (Inr out, w')"
    using run list unfolding ReplayWebhookDeadLetters_def Let_def lim run_state_bind by (cases r1) simp_all
  have t: "tallied (empty_replay ?ws ?source evs)" by (simp add: tallied_def tally_def empty_replay_def)
  have "accounts_for evs (empty_replay ?ws ?source evs) (Inr out) w'"
  proof (cases "svc_atomic_store s")
    case True
    with evs(2) have "run_state (replay_atomic locked ?ws evs (empty_replay ?ws ?source evs)) w1 = (Inr out, w')"
      by (simp add: replayWebhookDeadLettersAtomic_def)
    then show ?thesis by (rule tripleD [OF replay_atomic_accounts [OF t] TrueI])
  next
    case False
    with evs(2) have "run_state (replay_plain s evs (empty_replay ?ws ?source evs)) w1 = (Inr out, w')" by simp
    then show ?thesis by (rule tripleD [OF replay_plain_accounts [OF t] TrueI])
  qed
  then have out: "tallied out" "outcome_ids out = map evt_ID evs" "wrr_Requested out = int (length evs)"
    by (simp_all add: accounts_for_def empty_replay_def outcome_ids_def)
  have len: "length (wrr_Outcomes out) = length evs" using arg_cong [OF out(2), of length] by (simp add: outcome_ids_def)
  have "length evs \<le> 200" if "normalizePositiveIDs ids = []"
  proof -
    have "fst (ListWebhookDeadLetters ?ws ?limit (w_clock w (w_step w)) (sh_db (interfered w))) = Inr evs"
      using list evs(1) that by (intro store_ok(1)) simp
    with ListWebhookDeadLetters_bound [of ?limit ?ws "w_clock w (w_step w)" "sh_db (interfered w)"] show ?thesis by simp
  qed
  then show ?thesis using out len by simp
qed

lemma letters_ok: "events_ok (w_shared letters_world)"
proof -
  have "event_key (demo_letter 1 a r) \<noteq> event_key (demo_letter 2 b r')" for a b r r'
    using FormatInt_inject [of 1 2] by (simp add: event_key_def demo_letter_def is_int64_def min_int64_def max_int64_def)
  then show ?thesis
    by (simp add: events_ok_def letters_world_def demo_world_def demo_db_def webhook_inv_def lists_cover_def has_workspace_def)
       (simp add: demo_letter_def)
qed

text \<open>The hypotheses hold for two legacy bounces, one permanent and one unclassified.\<close>

theorem replay_stays_confined_witness:
  "let run = run_state (ReplayWebhookDeadLetters (\<lambda>i. False) demo_service 1 [] 0) letters_world
   in replay_confined 1 (w_shared letters_world) (w_shared (snd run)) \<and>
      dom (db_suppressions (sh_db (w_shared (snd run)))) = {(1, ''a@example.org'')}"
proof -
  let ?run = "run_state (ReplayWebhookDeadLetters (\<lambda>i. False) demo_service 1 [] 0) letters_world"
  have "alone letters_world" by (simp add: letters_world_def alone_def demo_world_def)
  moreover have "?run = (fst ?run, snd ?run)" by simp
  ultimately have conf: "replay_confined 1 (w_shared letters_world) (w_shared (snd ?run))"
    using replay_stays_confined [OF _ demo_atomic letters_ok] by fastforce
  have in1: "db_suppressions (sh_db (w_shared (snd ?run))) (1, ''a@example.org'') \<noteq> None" by code_simp
  have start: "db_suppressions (sh_db (w_shared letters_world)) k = None" for k
    by (simp add: letters_world_def demo_world_def demo_db_def empty_db_def)
  have rows: "\<forall>r \<in> set (db_webhook_events (sh_db (w_shared letters_world))). row_effect r = Suppress \<longrightarrow> row_address r = (1, ''a@example.org'')"
    by code_simp
  have uniq: "k = (1, ''a@example.org'')" if "db_suppressions (sh_db (w_shared (snd ?run))) k \<noteq> None" for k
  proof -
    from that start have "db_suppressions (sh_db (w_shared (snd ?run))) k \<noteq> db_suppressions (sh_db (w_shared letters_world)) k" by simp
    with conf obtain r where "r \<in> set (db_webhook_events (sh_db (w_shared letters_world)))" "row_effect r = Suppress" "row_address r = k"
      unfolding replay_confined_def Let_def by metis
    with rows show ?thesis by metis
  qed
  have "dom (db_suppressions (sh_db (w_shared (snd ?run)))) = {(1, ''a@example.org'')}"
  proof (rule equalityI)
    show "dom (db_suppressions (sh_db (w_shared (snd ?run)))) \<subseteq> {(1, ''a@example.org'')}"
      using uniq by (intro subsetI) (simp only: domIff singleton_iff)
    show "{(1, ''a@example.org'')} \<subseteq> dom (db_suppressions (sh_db (w_shared (snd ?run))))"
      using in1 by (simp only: domIff insert_subset empty_subsetI simp_thms)
  qed
  with conf show ?thesis unfolding Let_def by (rule conjI)
qed

text \<open>The hypothesis holds for those two, one replayed and one failed.\<close>

theorem replay_accounts_witness:
  "let run = run_state (ReplayWebhookDeadLetters (\<lambda>i. False) demo_service 1 [] 0) letters_world
   in case fst run of Inl _ \<Rightarrow> False | Inr out \<Rightarrow> tallied out \<and> wrr_Replayed out = 1 \<and> wrr_Requested out \<le> 200"
proof -
  let ?run = "run_state (ReplayWebhookDeadLetters (\<lambda>i. False) demo_service 1 [] 0) letters_world"
  have "case fst ?run of Inl _ \<Rightarrow> False | Inr out \<Rightarrow> wrr_Replayed out = 1" by code_simp
  then obtain out where out: "fst ?run = Inr out" "wrr_Replayed out = 1" by (cases "fst ?run") auto
  have "?run = (Inr out, snd ?run)" using out(1) by (metis prod.collapse)
  from replay_accounts [OF this] have "tallied out" "wrr_Requested out \<le> 200"
    by (simp_all add: normalizePositiveIDs_def)
  with out show ?thesis by (simp add: Let_def)
qed

section \<open>Retries of a store without transactions\<close>

lemma apply_once_listed:
  assumes "run_state (apply_once ws t email reason) w = (Inr u, w')"
  shows "listed ws email (sh_db (w_shared w'))"
proof -
  consider "run_state (store (AddSuppression ws email reason)) w = (Inr u, w')"
    | "run_state (store (AddUnsubscribe ws email reason)) w = (Inr u, w')"
    using assms by (auto simp: apply_once_def split: if_splits)
  then show ?thesis
  proof cases
    case 1
    from store_ok [OF this] show ?thesis by (auto simp: AddSuppression_def upd_db_def listed_def split: if_splits)
  next
    case 2
    from store_ok [OF this] show ?thesis by (auto simp: AddUnsubscribe_def upd_db_def listed_def split: if_splits)
  qed
qed

lemma apply_attempts_run:
  assumes "int left + a = mx + 1" and "1 \<le> a" and "left = 0 \<Longrightarrow> le \<noteq> None"
    and "run_state (apply_attempts left mx a le ws t email reason) w = ((n, err), w')"
  shows "n \<le> mx \<and> (err = None \<longrightarrow> a \<le> n \<and> listed ws email (sh_db (w_shared w'))) \<and> (err \<noteq> None \<longrightarrow> n = mx)"
  using assms
proof (induction left arbitrary: a le w)
  case (Suc left)
  obtain r w1 where once: "run_state (apply_once ws t email reason) w = (r, w1)" by (metis surj_pair)
  show ?case
  proof (cases r)
    case (Inr u)
    with Suc.prems once have "n = a" "err = None" "w' = w1" by auto
    with Suc.prems(1) apply_once_listed [OF once [unfolded Inr]] show ?thesis by simp
  next
    case (Inl e)
    obtain w2 where "run_state (apply_attempts left mx (a + 1) (Some e) ws t email reason) w2 = ((n, err), w')"
      using Suc.prems(4) once Inl by (auto split: prod.splits)
    from Suc.IH [OF _ _ _ this] Suc.prems(1,2) show ?thesis by auto
  qed
qed (use assms in auto)

text \<open>
  C37 With a store that has no transactions, applying an event is tried at least once and at most
  the configured number of times: an error is reported only after the last try, and no error only
  if the bounce was temporary or the recipient is now on a list.
\<close>

theorem apply_retry_bounded:
  assumes "1 \<le> svc_webhookApplyMaxAttempts s"
    and run: "run_state (applyWebhookEventWithRetry s ws t email reason) w = ((n, err), w')"
  shows "1 \<le> n \<and> n \<le> svc_webhookApplyMaxAttempts s \<and>
    (err = None \<longrightarrow> t = ''bounce_temporary'' \<or> listed ws email (sh_db (w_shared w'))) \<and>
    (err \<noteq> None \<longrightarrow> n = svc_webhookApplyMaxAttempts s \<or> t = ''bounce_unclassified'' \<or> t = ''bounce'')"
proof (cases "t = ''bounce_temporary'' \<or> t = ''bounce_unclassified'' \<or> t = ''bounce''")
  case True
  with run assms(1) show ?thesis by (auto simp: applyWebhookEventWithRetry_def)
next
  case False
  with run have "run_state (apply_attempts (nat (svc_webhookApplyMaxAttempts s)) (svc_webhookApplyMaxAttempts s) 1 None
      ws t email reason) w = ((n, err), w')" by (simp add: applyWebhookEventWithRetry_def)
  from apply_attempts_run [OF _ _ _ this] assms(1) show ?thesis by (cases "err = None") auto
qed

text \<open>The hypotheses hold when the first call is refused and the second is not.\<close>

theorem apply_retry_bounded_witness:
  "let w = (demo_world (demo_db ''sent'') demo_relay)\<lparr>w_fault := (\<lambda>n. if n = 0 then Refused (ErrDriver ''down'') else Executed)\<rparr>;
       run = run_state (applyWebhookEventWithRetry demo_service 1 ''complaint'' ''b@example.org'' ''spam'') w
   in fst run = (2, None) \<and> listed 1 ''b@example.org'' (sh_db (w_shared (snd run)))"
proof -
  let ?w = "(demo_world (demo_db ''sent'') demo_relay)\<lparr>w_fault := (\<lambda>n. if n = 0 then Refused (ErrDriver ''down'') else Executed)\<rparr>"
  let ?run = "run_state (applyWebhookEventWithRetry demo_service 1 ''complaint'' ''b@example.org'' ''spam'') ?w"
  have res: "fst ?run = (2, None)" by code_simp
  then have "?run = ((2, None), snd ?run)" by (metis prod.collapse)
  moreover have "1 \<le> svc_webhookApplyMaxAttempts demo_service" by code_simp
  ultimately have "listed 1 ''b@example.org'' (sh_db (w_shared (snd ?run)))"
    using apply_retry_bounded [of demo_service 1 "''complaint''" "''b@example.org''" "''spam''" ?w 2 None "snd ?run"] by simp
  with res show ?thesis unfolding Let_def by (rule conjI)
qed

end
