(* ===== verification/Webhook_Parser.thy ===== *)
theory Webhook_Parser
  imports Domain_Types
begin

text \<open>
  The parser of provider webhooks (\<open>src/internal/api/webhook_event_parser.go\<close>): from a decoded JSON
  payload to the events of the service. The JSON decoder itself is the standard library's; its
  outcome is the argument.
\<close>

section \<open>Definitions\<close>

text \<open>
  A decoded JSON value, as \<open>encoding/json\<close> gives it with \<open>UseNumber\<close>: a number is its text, an
  object has distinct keys.
\<close>

datatype json =
    JNull
  | JBool bool
  | JNumber string
  | JString string
  | JArray "json list"
  | JObject "(string \<times> json) list"

record webhookEventRequest =
  whq_WorkspaceID :: int
  whq_Type :: string
  whq_Email :: string
  whq_Reason :: string
  whq_Identity :: string

type_synonym object = "(string \<times> json) list"

text \<open>A missing key and the value \<open>null\<close> are both Go's \<open>nil\<close>.\<close>

definition field :: "object \<Rightarrow> string \<Rightarrow> json" where
  "field obj key = (case map_of obj key of None \<Rightarrow> JNull | Some v \<Rightarrow> v)"

fun firstAny :: "object \<Rightarrow> string list \<Rightarrow> json" where
  "firstAny obj [] = JNull"
| "firstAny obj (key # keys) = (case map_of obj key of Some value \<Rightarrow> value | None \<Rightarrow> firstAny obj keys)"

definition int64FromAny :: "json \<Rightarrow> int" where
  "int64FromAny v =
     (case v of
        JNumber n \<Rightarrow> (case ParseInt n of Some i \<Rightarrow> i | None \<Rightarrow> 0)
      | JString s \<Rightarrow> (case ParseInt (TrimSpace s) of Some i \<Rightarrow> i | None \<Rightarrow> 0)
      | _ \<Rightarrow> 0)"

definition stringFromAny :: "json \<Rightarrow> string" where
  "stringFromAny v = (case v of JString s \<Rightarrow> s | JNumber n \<Rightarrow> n | _ \<Rightarrow> [])"

definition mapFromAny :: "json \<Rightarrow> object option" where
  "mapFromAny v = (case v of JObject m \<Rightarrow> Some m | _ \<Rightarrow> None)"

definition sliceFromAny :: "json \<Rightarrow> json list option" where
  "sliceFromAny v = (case v of JArray s \<Rightarrow> Some s | _ \<Rightarrow> None)"

fun firstString :: "json list \<Rightarrow> string" where
  "firstString [] = []"
| "firstString (v # vs) =
     (case v of
        JString s \<Rightarrow> (if TrimSpace s \<noteq> [] then TrimSpace s else firstString vs)
      | _ \<Rightarrow> firstString vs)"

text \<open>\<open>strings.TrimSpace(stringFromAny(firstAny(obj, keys...)))\<close>, the most common way to read a field.\<close>

definition text_of :: "object \<Rightarrow> string list \<Rightarrow> string" where
  "text_of obj keys = TrimSpace (stringFromAny (firstAny obj keys))"

definition normalizeWebhookEventType :: "string \<Rightarrow> string" where
  "normalizeWebhookEventType raw =
     (let event = ToLower (TrimSpace raw) in
      if event \<in> {''hard_bounce'', ''hardbounce''} then ''bounce_permanent''
      else if event \<in> {''soft_bounce'', ''softbounce'', ''temporary_bounce'', ''transient_bounce''} then ''bounce_temporary''
      else if event \<in> {''bounce'', ''bounced'', ''failed'', ''dropped'', ''blocked'', ''reject'', ''rejected''}
      then ''bounce_unclassified''
      else if event \<in> {''complaint'', ''complained'', ''spam'', ''spamreport'', ''spam_report'', ''abuse''} then ''complaint''
      else if event \<in> {''unsubscribe'', ''unsubscribed'', ''group_unsubscribe'', ''list_unsubscribe'', ''user_unsubscribed''}
      then ''unsubscribe''
      else [])"

definition classifyEnhancedSMTPStatus :: "string \<Rightarrow> string" where
  "classifyEnhancedSMTPStatus status =
     (let status = TrimSpace status in
      if HasPrefix status ''4.'' \<or> HasPrefix status ''4 '' then ''bounce_temporary''
      else if HasPrefix status ''5.'' \<or> HasPrefix status ''5 '' then ''bounce_permanent'' else [])"

text \<open>
  The four sources of a classification, in the order \<open>classifyProviderBounce\<close> tries them; the empty
  string says that a source does not decide.
\<close>

definition ses_class :: "object \<Rightarrow> string" where
  "ses_class obj =
     (case mapFromAny (field obj ''bounce'') of
        None \<Rightarrow> []
      | Some bounce \<Rightarrow>
          (let k = ToLower (text_of bounce [''bounceType'', ''type'']) in
           if k \<in> {''permanent'', ''hard''} then ''bounce_permanent''
           else if k \<in> {''transient'', ''temporary'', ''soft''} then ''bounce_temporary'' else []))"

definition mailgun_class :: "object \<Rightarrow> string" where
  "mailgun_class obj =
     (case mapFromAny (field obj ''event-data'') of
        None \<Rightarrow> []
      | Some data \<Rightarrow>
          (let k = ToLower (text_of data [''severity'']) in
           if k = ''permanent'' then ''bounce_permanent'' else if k = ''temporary'' then ''bounce_temporary'' else []))"

definition postmark_class :: "object \<Rightarrow> string \<Rightarrow> string" where
  "postmark_class obj rawType =
     (let postmarkType = ToLower (text_of obj [''Type'', ''BounceType'']);
          code = int64FromAny (firstAny obj [''TypeCode'', ''type_code''])
      in if EqualFold (TrimSpace rawType) ''bounce'' \<or> EqualFold (TrimSpace rawType) ''failed''
         then if Contains postmarkType ''hard'' \<or> code = 1 then ''bounce_permanent''
              else if Contains postmarkType ''soft'' \<or> Contains postmarkType ''transient'' \<or> code = 2 \<or> code = 4096
              then ''bounce_temporary'' else []
         else [])"

definition classifyProviderBounce :: "object \<Rightarrow> string \<Rightarrow> string \<Rightarrow> string" where
  "classifyProviderBounce obj rawType eventType =
     (if eventType \<noteq> ''bounce_unclassified'' then eventType
      else if ses_class obj \<noteq> [] then ses_class obj
      else if mailgun_class obj \<noteq> [] then mailgun_class obj
      else let class = classifyEnhancedSMTPStatus (stringFromAny (firstAny obj [''status'', ''Status'', ''smtp_status'']))
           in if class \<noteq> [] then class
              else if postmark_class obj rawType \<noteq> [] then postmark_class obj rawType else eventType)"

definition sesBouncedRecipients :: "object \<Rightarrow> json list option" where
  "sesBouncedRecipients obj =
     (case mapFromAny (field obj ''bounce'') of
        None \<Rightarrow> None
      | Some bounce \<Rightarrow>
          (case sliceFromAny (field bounce ''bouncedRecipients'') of
             None \<Rightarrow> None
           | Some recipients \<Rightarrow> if length recipients > 0 then Some recipients else None))"

definition emailFromNestedObjects :: "object \<Rightarrow> string" where
  "emailFromNestedObjects obj =
     (case (case sesBouncedRecipients obj of Some (r # _) \<Rightarrow> mapFromAny r | _ \<Rightarrow> None) of
        Some recObj \<Rightarrow> text_of recObj [''emailAddress'', ''email'']
      | None \<Rightarrow>
          let first = (case mapFromAny (field obj ''mail'') of
                None \<Rightarrow> []
              | Some nested \<Rightarrow> (case sliceFromAny (field nested ''destination'') of
                  None \<Rightarrow> [] | Some destinations \<Rightarrow> firstString destinations))
          in if first \<noteq> [] then TrimSpace first
             else (case mapFromAny (field obj ''event-data'') of
                     Some eventData \<Rightarrow> text_of eventData [''recipient'', ''email'', ''rcpt_to'']
                   | None \<Rightarrow> []))"

definition reasonFromNestedObjects :: "object \<Rightarrow> string" where
  "reasonFromNestedObjects obj =
     (let bounce_reason = (case mapFromAny (field obj ''bounce'') of
            None \<Rightarrow> []
          | Some bounce \<Rightarrow>
              (let kind = text_of bounce [''bounceType'', ''type''];
                   subtype = text_of bounce [''bounceSubType'', ''subType'', ''subtype'']
               in if kind \<noteq> [] \<and> subtype \<noteq> [] then kind @ ''/'' @ subtype else kind))
      in if bounce_reason \<noteq> [] then bounce_reason
         else (case mapFromAny (field obj ''event-data'') of
                 Some eventData \<Rightarrow> text_of eventData [''reason'', ''delivery-status'']
               | None \<Rightarrow> []))"

definition identity_text :: "string \<Rightarrow> string \<Rightarrow> string \<Rightarrow> string \<Rightarrow> string" where
  "identity_text provider i eventType email = provider @ '':'' @ i @ '':'' @ eventType @ '':'' @ email"

definition nested_text :: "object \<Rightarrow> string \<Rightarrow> string list \<Rightarrow> string" where
  "nested_text obj key keys = (case mapFromAny (field obj key) of None \<Rightarrow> [] | Some m \<Rightarrow> text_of m keys)"

definition providerWebhookIdentity :: "object \<Rightarrow> string \<Rightarrow> string \<Rightarrow> string" where
  "providerWebhookIdentity obj eventType email =
     (if text_of obj [''sg_event_id''] \<noteq> [] then identity_text ''sendgrid'' (text_of obj [''sg_event_id'']) eventType email
      else if nested_text obj ''event-data'' [''id''] \<noteq> []
      then identity_text ''mailgun'' (nested_text obj ''event-data'' [''id'']) eventType email
      else if nested_text obj ''mail'' [''messageId''] \<noteq> []
      then identity_text ''ses'' (nested_text obj ''mail'' [''messageId'']) eventType email
      else if text_of obj [''ID'', ''id'', ''event_id'', ''eventId''] \<noteq> []
      then let provider = ToLower (text_of obj [''RecordType''])
           in identity_text (if provider = [] then ''provider'' else provider)
                (text_of obj [''ID'', ''id'', ''event_id'', ''eventId'']) eventType email
      else [])"

text \<open>One recipient of an SES bounce (lines 79 to 104); \<open>None\<close> when the entry is passed over.\<close>

definition ses_recipient :: "object \<Rightarrow> int \<Rightarrow> string \<Rightarrow> string \<Rightarrow> json \<Rightarrow> webhookEventRequest option" where
  "ses_recipient obj workspaceID eventType reason recipient =
     (case mapFromAny recipient of
        None \<Rightarrow> None
      | Some recipientObj \<Rightarrow>
          let email = text_of recipientObj [''emailAddress'', ''email''];
              diagnostic = text_of recipientObj [''diagnosticCode'', ''status'', ''action''];
              recipientReason = (if diagnostic \<noteq> [] \<and> \<not> Contains reason diagnostic
                 then (if reason \<noteq> [] then reason @ '': '' else reason) @ diagnostic else reason);
              normalizedEmail = ToLower email
          in if email = [] then None
             else Some \<lparr>whq_WorkspaceID = workspaceID, whq_Type = eventType, whq_Email = normalizedEmail,
                    whq_Reason = recipientReason, whq_Identity = providerWebhookIdentity obj eventType normalizedEmail\<rparr>)"

text \<open>The raw and the classified type of an object (lines 57 to 66).\<close>

definition raw_type :: "object \<Rightarrow> string" where
  "raw_type obj =
     (let rawType = stringFromAny (firstAny obj [''type'', ''event'', ''event_type'', ''eventType'', ''RecordType'']) in
      if normalizeWebhookEventType rawType = []
      then (case mapFromAny (field obj ''event-data'') of
              Some nested \<Rightarrow> stringFromAny (firstAny nested [''event'', ''event_type'', ''eventType''])
            | None \<Rightarrow> rawType)
      else rawType)"

definition object_type :: "object \<Rightarrow> string" where
  "object_type obj = classifyProviderBounce obj (raw_type obj) (normalizeWebhookEventType (raw_type obj))"

definition object_reason :: "object \<Rightarrow> string" where
  "object_reason obj =
     (let reason = text_of obj [''reason'', ''description'', ''response'', ''diagnostic_code'', ''details'', ''message''] in
      if reason = [] then reasonFromNestedObjects obj else reason)"

definition parseWebhookEventObject :: "object \<Rightarrow> webhookEventRequest list option" where
  "parseWebhookEventObject obj =
     (let workspaceID = int64FromAny (firstAny obj [''workspace_id'', ''workspaceId'', ''workspace'']);
          eventType = object_type obj;
          reason = object_reason obj
      in case sesBouncedRecipients obj of
           Some recipients \<Rightarrow>
             (let events = List.map_filter (ses_recipient obj workspaceID eventType reason) recipients
              in if length events > 0 then Some events else None)
         | None \<Rightarrow>
             (let email = text_of obj [''email'', ''recipient'', ''to'', ''rcpt_to'', ''Email''];
                  email = (if email = [] then emailFromNestedObjects obj else email)
              in if eventType = [] \<or> email = [] then None
                 else Some [\<lparr>whq_WorkspaceID = workspaceID, whq_Type = eventType, whq_Email = ToLower email,
                        whq_Reason = reason, whq_Identity = providerWebhookIdentity obj eventType (ToLower email)\<rparr>]))"

text \<open>The loop over an array: the events and the number of elements rejected.\<close>

fun parse_elements :: "json list \<Rightarrow> webhookEventRequest list \<times> int" where
  "parse_elements [] = ([], 0)"
| "parse_elements (raw # rest) =
     (case parse_elements rest of (events, rejected) \<Rightarrow>
        (case mapFromAny raw of
           None \<Rightarrow> (events, rejected + 1)
         | Some obj \<Rightarrow> (case parseWebhookEventObject obj of
             None \<Rightarrow> (events, rejected + 1)
           | Some parsed \<Rightarrow> (parsed @ events, rejected))))"

text \<open>\<open>None\<close> is a body the JSON decoder rejects. An error comes with its text.\<close>

definition parseWebhookEvents :: "json option \<Rightarrow> string + webhookEventRequest list \<times> int" where
  "parseWebhookEvents body =
     (case body of
        None \<Rightarrow> Inl ''invalid webhook payload: malformed JSON''
      | Some (JObject v) \<Rightarrow>
          (case parseWebhookEventObject v of
             None \<Rightarrow> Inl ''invalid webhook payload: object missing required fields''
           | Some parsed \<Rightarrow> if parsed = [] then Inl ''invalid webhook payload: no valid events'' else Inr (parsed, 0))
      | Some (JArray v) \<Rightarrow>
          (case parse_elements v of (events, rejected) \<Rightarrow>
             if events = [] then Inl ''invalid webhook payload: no valid events'' else Inr (events, rejected))
      | Some _ \<Rightarrow> Inl ''invalid webhook payload: expected object or array'')"

definition canonical_types :: "string list" where
  "canonical_types = [''bounce_permanent'', ''bounce_temporary'', ''bounce_unclassified'', ''complaint'', ''unsubscribe'']"

definition bounce_classes :: "string list" where
  "bounce_classes = [[], ''bounce_permanent'', ''bounce_temporary'']"

text \<open>What in an object says that a bounce is permanent.\<close>

definition permanent_evidence :: "object \<Rightarrow> bool" where
  "permanent_evidence obj \<longleftrightarrow>
     normalizeWebhookEventType (raw_type obj) = ''bounce_permanent'' \<or>
     ses_class obj = ''bounce_permanent'' \<or> mailgun_class obj = ''bounce_permanent'' \<or>
     classifyEnhancedSMTPStatus (stringFromAny (firstAny obj [''status'', ''Status'', ''smtp_status''])) = ''bounce_permanent'' \<or>
     postmark_class obj (raw_type obj) = ''bounce_permanent''"

definition event_ok :: "object \<Rightarrow> webhookEventRequest \<Rightarrow> bool" where
  "event_ok obj ev \<longleftrightarrow>
     whq_Type ev = object_type obj \<and> whq_Email ev \<noteq> [] \<and> TrimSpace (ToLower (whq_Email ev)) = whq_Email ev \<and>
     whq_Identity ev = providerWebhookIdentity obj (whq_Type ev) (whq_Email ev)"

definition objects_of :: "json \<Rightarrow> object set" where
  "objects_of body = (case body of JObject obj \<Rightarrow> {obj} | JArray vs \<Rightarrow> {obj. JObject obj \<in> set vs} | _ \<Rightarrow> {})"

definition ses_bounce :: "string \<Rightarrow> json" where
  "ses_bounce typeKey = JObject [(typeKey, JString ''Bounce''),
     (''bounce'', JObject [(''bounceType'', JString ''Permanent''), (''bounceSubType'', JString ''General''),
        (''bouncedRecipients'', JArray [JObject [(''emailAddress'', JString ''B@example.org'')]])])]"

section \<open>Types of parsed events\<close>

lemma normalize_type_range: "normalizeWebhookEventType raw = [] \<or> normalizeWebhookEventType raw \<in> set canonical_types"
  by (simp add: normalizeWebhookEventType_def canonical_types_def Let_def)

lemma class_range:
  "ses_class obj \<in> set bounce_classes" "mailgun_class obj \<in> set bounce_classes" "postmark_class obj rt \<in> set bounce_classes"
  "classifyEnhancedSMTPStatus st \<in> set bounce_classes"
  by (simp_all add: ses_class_def mailgun_class_def postmark_class_def classifyEnhancedSMTPStatus_def bounce_classes_def Let_def
      split: option.split)

lemma class_canonical: "c \<in> set bounce_classes \<Longrightarrow> c \<noteq> [] \<Longrightarrow> c \<in> set canonical_types"
  by (auto simp: bounce_classes_def canonical_types_def)

lemma object_type_range: "object_type obj = [] \<or> object_type obj \<in> set canonical_types"
proof (cases "normalizeWebhookEventType (raw_type obj) = ''bounce_unclassified''")
  case True
  have "''bounce_unclassified'' \<in> set canonical_types" by (simp add: canonical_types_def)
  with True show ?thesis
    unfolding object_type_def classifyProviderBounce_def Let_def
    by (simp add: class_canonical [OF class_range(1)] class_canonical [OF class_range(2)]
        class_canonical [OF class_range(3)] class_canonical [OF class_range(4)])
next
  case False
  then show ?thesis using normalize_type_range by (simp add: object_type_def classifyProviderBounce_def)
qed

lemma object_type_permanent: "object_type obj = ''bounce_permanent'' \<Longrightarrow> permanent_evidence obj"
  by (auto simp: object_type_def classifyProviderBounce_def permanent_evidence_def Let_def split: if_splits)

lemma object_type_listing:
  assumes "object_type obj = t" and "t = ''complaint'' \<or> t = ''unsubscribe''"
  shows "normalizeWebhookEventType (raw_type obj) = t"
proof (cases "normalizeWebhookEventType (raw_type obj) = ''bounce_unclassified''")
  case True
  have "object_type obj \<in> insert ''bounce_unclassified'' (set bounce_classes)"
    using True class_range by (simp add: object_type_def classifyProviderBounce_def Let_def)
  with assms show ?thesis by (auto simp: bounce_classes_def)
next
  case False
  with assms(1) show ?thesis by (simp add: object_type_def classifyProviderBounce_def)
qed

section \<open>Parsed events\<close>

lemma text_of_trimmed: "TrimSpace (text_of obj keys) = text_of obj keys"
  by (simp add: text_of_def)

lemma firstString_trimmed: "TrimSpace (firstString vs) = firstString vs"
  by (induction vs) (auto split: json.split)

lemma nested_email_trimmed: "TrimSpace (emailFromNestedObjects obj) = emailFromNestedObjects obj"
  by (simp add: emailFromNestedObjects_def text_of_trimmed firstString_trimmed Let_def split: option.split)

lemma email_trimmed: "TrimSpace e = e \<Longrightarrow> TrimSpace (ToLower e) = ToLower e"
  by (simp add: TrimSpace_ToLower)

lemma ses_recipient_ok:
  "ses_recipient obj ws (object_type obj) reason r = Some ev \<Longrightarrow> event_ok obj ev"
  by (auto simp: ses_recipient_def Let_def event_ok_def email_trimmed text_of_trimmed split: option.splits if_splits)

lemma parse_object_ok:
  assumes "parseWebhookEventObject obj = Some evs"
  shows "evs \<noteq> [] \<and> (\<forall>ev \<in> set evs. event_ok obj ev)"
proof (cases "sesBouncedRecipients obj")
  case (Some recipients)
  then show ?thesis
    using assms ses_recipient_ok
    by (auto simp: parseWebhookEventObject_def Let_def map_filter_def split: if_splits)
next
  case None
  then show ?thesis
    using assms nested_email_trimmed
    by (auto simp: parseWebhookEventObject_def Let_def event_ok_def email_trimmed text_of_trimmed split: if_splits)
qed

lemma parse_elements_ok:
  assumes "parse_elements vs = (evs, rejected)"
  shows "0 \<le> rejected \<and> rejected \<le> int (length vs) \<and>
    (\<forall>ev \<in> set evs. \<exists>obj. JObject obj \<in> set vs \<and> event_ok obj ev) \<and>
    rejected = int (length (filter (\<lambda>v. Option.bind (mapFromAny v) parseWebhookEventObject = None) vs))"
  using assms
proof (induction vs arbitrary: evs rejected)
  case (Cons v vs)
  obtain evs' rejected' where rest: "parse_elements vs = (evs', rejected')" by (metis surj_pair)
  note IH = Cons.IH [OF rest]
  show ?case
  proof (cases "Option.bind (mapFromAny v) parseWebhookEventObject")
    case None
    then have "evs = evs'" "rejected = rejected' + 1"
      using Cons.prems rest by (auto split: option.splits)
    with IH None show ?thesis by auto
  next
    case (Some parsed)
    then obtain obj where obj: "v = JObject obj" "parseWebhookEventObject obj = Some parsed"
      by (auto simp: mapFromAny_def split: json.splits)
    then have "evs = parsed @ evs'" "rejected = rejected'"
      using Cons.prems rest by (auto simp: mapFromAny_def)
    with IH Some obj parse_object_ok [OF obj(2)] show ?thesis by (auto simp: mapFromAny_def)
  qed
qed simp



text \<open>
  An SES bounce in the notification format, which names its type under \<open>notificationType\<close>, is
  accepted by the parser with the empty type, whatever its bounce type says: an object whose
  type is not recognised is rejected, except when it lists bounced recipients.
\<close>

theorem unrecognised_ses_type:
  assumes "normalizeWebhookEventType (raw_type obj) = []" and "parseWebhookEventObject obj = Some evs"
  shows "sesBouncedRecipients obj \<noteq> None \<and> (\<forall>ev \<in> set evs. whq_Type ev = [])"
proof -
  have t: "object_type obj = []" using assms(1) by (simp add: object_type_def classifyProviderBounce_def)
  with assms(2) have "sesBouncedRecipients obj \<noteq> None"
    by (auto simp: parseWebhookEventObject_def Let_def split: option.splits)
  with parse_object_ok [OF assms(2)] t show ?thesis by (simp add: event_ok_def)
qed

text \<open>The hypotheses hold for such a notification of a permanent bounce.\<close>

theorem unrecognised_ses_type_witness:
  "\<exists>obj evs. ses_bounce ''notificationType'' = JObject obj \<and> ses_class obj = ''bounce_permanent'' \<and>
     parseWebhookEventObject obj = Some evs \<and> evs \<noteq> [] \<and> map whq_Type evs = map (\<lambda>ev. []) evs"
proof -
  obtain obj where obj: "ses_bounce ''notificationType'' = JObject obj" by (simp add: ses_bounce_def)
  have facts: "case ses_bounce ''notificationType'' of JObject obj \<Rightarrow> normalizeWebhookEventType (raw_type obj) = [] \<and>
      ses_class obj = ''bounce_permanent'' \<and> (case parseWebhookEventObject obj of None \<Rightarrow> False | Some evs \<Rightarrow> evs \<noteq> []) | _ \<Rightarrow> False"
    by code_simp
  then obtain evs where p: "parseWebhookEventObject obj = Some evs" "evs \<noteq> []" "ses_class obj = ''bounce_permanent''"
    "normalizeWebhookEventType (raw_type obj) = []"
    by (auto simp: obj split: option.splits)
  from unrecognised_ses_type [OF p(4,1)] have "map whq_Type evs = map (\<lambda>ev. []) evs" by simp
  with obj p show ?thesis by blast
qed

end
