(* ===== verification/Pg_Users.thy ===== *)
theory Pg_Users
  imports Webhook_Store Crypto
begin

text \<open>
  Users, memberships and API keys of the store (\<open>src/internal/store/postgres/user.go\<close>), with the
  hash and the prefix of a key (\<open>src/internal/crypto/crypto.go\<close>).
\<close>

section \<open>Definitions\<close>

record User =
  usr_ID :: int
  usr_Email :: string
  usr_PasswordHash :: string
  usr_CreatedAt :: go_time

record UserWithWorkspace = User +
  usr_WorkspaceID :: int
  usr_WorkspaceName :: string
  usr_Role :: string

record UserAPIKey =
  key_ID :: int
  key_UserID :: int
  key_WorkspaceID :: int
  key_Name :: string
  key_KeyPrefix :: string
  key_LastUsedAt :: "go_time option"
  key_CreatedAt :: go_time

record APIKeyIdentity =
  aki_UserID :: int
  aki_WorkspaceID :: int
  aki_Role :: string

text \<open>The tables \<open>users\<close>, \<open>user_workspaces\<close> and \<open>user_api_keys\<close>, beside the others.\<close>

record member_row =
  mem_user_id :: int
  mem_workspace_id :: int
  mem_role :: string
  mem_created_at :: go_time
  mem_onboarding_seen_at :: "go_time option"

record key_row =
  krow_key :: UserAPIKey
  krow_hash :: string

record users_db =
  udb_tables :: db
  udb_users :: "User list"
  udb_user_seq :: int
  udb_members :: "member_row list"
  udb_keys :: "key_row list"
  udb_key_seq :: int

type_synonym 'a userop = "go_time \<Rightarrow> users_db \<Rightarrow> 'a result \<times> users_db"

definition insert_user :: "string \<Rightarrow> string \<Rightarrow> User userop" where
  "insert_user email passwordHash now d =
     (if \<exists>u \<in> set (udb_users d). usr_Email u = email then (Inl unique_error, d)
      else let u = \<lparr>usr_ID = udb_user_seq d + 1, usr_Email = email, usr_PasswordHash = passwordHash, usr_CreatedAt = now\<rparr>
           in (Inr u, d\<lparr>udb_users := udb_users d @ [u], udb_user_seq := udb_user_seq d + 1\<rparr>))"

definition CreateUser :: "string \<Rightarrow> string \<Rightarrow> User userop" where
  "CreateUser = insert_user"

definition insert_workspace :: "string \<Rightarrow> int userop" where
  "insert_workspace name now d =
     (let t = udb_tables d; i = db_workspace_seq t + 1
      in (Inr i, d\<lparr>udb_tables := t\<lparr>db_workspaces := db_workspaces t @ [(i, name)], db_workspace_seq := i\<rparr>\<rparr>))"

definition insert_member :: "int \<Rightarrow> int \<Rightarrow> unit userop" where
  "insert_member userID workspaceID now d =
     (if \<not> (\<exists>u \<in> set (udb_users d). usr_ID u = userID) \<or> \<not> has_workspace workspaceID (udb_tables d) then (Inl fk_error, d)
      else if \<exists>m \<in> set (udb_members d). mem_user_id m = userID \<and> mem_workspace_id m = workspaceID then (Inl unique_error, d)
      else (Inr (), d\<lparr>udb_members := udb_members d @
             [\<lparr>mem_user_id = userID, mem_workspace_id = workspaceID, mem_role = ''admin'', mem_created_at = now,
               mem_onboarding_seen_at = None\<rparr>]\<rparr>))"

text \<open>The two transactions: an error of a statement rolls back what came before it.\<close>

definition CreateUserWithWorkspace :: "string \<Rightarrow> string \<Rightarrow> string \<Rightarrow> UserWithWorkspace userop" where
  "CreateUserWithWorkspace email passwordHash workspaceName now d =
     (case insert_user email passwordHash now d of
        (Inl e, _) \<Rightarrow> (Inl e, d)
      | (Inr u, d1) \<Rightarrow>
         (case insert_workspace workspaceName now d1 of
            (Inl e, _) \<Rightarrow> (Inl e, d)
          | (Inr ws, d2) \<Rightarrow>
             (case insert_member (usr_ID u) ws now d2 of
                (Inl e, _) \<Rightarrow> (Inl e, d)
              | (Inr _, d3) \<Rightarrow>
                  (Inr (User.extend u \<lparr>usr_WorkspaceID = ws, usr_WorkspaceName = workspaceName, usr_Role = ''admin''\<rparr>), d3))))"

definition CreateWorkspaceForUser :: "int \<Rightarrow> string \<Rightarrow> int userop" where
  "CreateWorkspaceForUser userID workspaceName now d =
     (case insert_workspace workspaceName now d of
        (Inl e, _) \<Rightarrow> (Inl e, d)
      | (Inr ws, d1) \<Rightarrow>
         (case insert_member userID ws now d1 of
            (Inl e, _) \<Rightarrow> (Inl e, d)
          | (Inr _, d2) \<Rightarrow> (Inr ws, d2)))"

definition UpdateUserPasswordHash :: "int \<Rightarrow> string \<Rightarrow> unit userop" where
  "UpdateUserPasswordHash userID hash now d =
     (Inr (), d\<lparr>udb_users := map (\<lambda>u. if usr_ID u = userID then u\<lparr>usr_PasswordHash := hash\<rparr> else u) (udb_users d)\<rparr>)"

definition GetUserByEmail :: "string \<Rightarrow> User userop" where
  "GetUserByEmail email now d =
     (case find (\<lambda>u. usr_Email u = email) (udb_users d) of None \<Rightarrow> (Inl ErrNoRows, d) | Some u \<Rightarrow> (Inr u, d))"

definition GetUserByID :: "int \<Rightarrow> User userop" where
  "GetUserByID i now d =
     (case find (\<lambda>u. usr_ID u = i) (udb_users d) of None \<Rightarrow> (Inl ErrNoRows, d) | Some u \<Rightarrow> (Inr u, d))"

text \<open>The join of \<open>GetUserWorkspace\<close>: the oldest membership of the user whose workspace exists.\<close>

definition memberships :: "int \<Rightarrow> users_db \<Rightarrow> member_row list" where
  "memberships userID d =
     sort_key mem_created_at (sort_key mem_workspace_id
       (filter (\<lambda>m. mem_user_id m = userID \<and> has_workspace (mem_workspace_id m) (udb_tables d)) (udb_members d)))"

definition workspace_name :: "int \<Rightarrow> users_db \<Rightarrow> string" where
  "workspace_name ws d = (case map_of (db_workspaces (udb_tables d)) ws of None \<Rightarrow> [] | Some n \<Rightarrow> n)"

definition GetUserWorkspace :: "int \<Rightarrow> UserWithWorkspace userop" where
  "GetUserWorkspace userID now d =
     (case find (\<lambda>u. usr_ID u = userID) (udb_users d) of
        None \<Rightarrow> (Inl ErrNoRows, d)
      | Some u \<Rightarrow> (case memberships userID d of
          [] \<Rightarrow> (Inl ErrNoRows, d)
        | m # _ \<Rightarrow> (Inr (User.extend (u\<lparr>usr_PasswordHash := []\<rparr>)
             \<lparr>usr_WorkspaceID = mem_workspace_id m, usr_WorkspaceName = workspace_name (mem_workspace_id m) d, usr_Role = mem_role m\<rparr>), d)))"

definition EmailExists :: "string \<Rightarrow> bool userop" where
  "EmailExists email now d = (Inr (\<exists>u \<in> set (udb_users d). usr_Email u = email), d)"

definition GetOnboardingSeen :: "int \<Rightarrow> int \<Rightarrow> bool userop" where
  "GetOnboardingSeen userID workspaceID now d =
     (case find (\<lambda>m. mem_user_id m = userID \<and> mem_workspace_id m = workspaceID) (udb_members d) of
        None \<Rightarrow> (Inl ErrNoRows, d)
      | Some m \<Rightarrow> (Inr (case mem_onboarding_seen_at m of None \<Rightarrow> False | Some t \<Rightarrow> t \<noteq> zero_time), d))"

definition DismissOnboarding :: "int \<Rightarrow> int \<Rightarrow> unit userop" where
  "DismissOnboarding userID workspaceID now d =
     (Inr (), d\<lparr>udb_members := map (\<lambda>m. if mem_user_id m = userID \<and> mem_workspace_id m = workspaceID
        then m\<lparr>mem_onboarding_seen_at := Some now\<rparr> else m) (udb_members d)\<rparr>)"

definition CreateAPIKey :: "int \<Rightarrow> int \<Rightarrow> string \<Rightarrow> string \<Rightarrow> string \<Rightarrow> UserAPIKey userop" where
  "CreateAPIKey userID workspaceID name keyHash keyPrefix now d =
     (if \<not> (\<exists>m \<in> set (udb_members d). mem_user_id m = userID \<and> mem_workspace_id m = workspaceID \<and>
             (mem_role m = ''admin'' \<or> mem_role m = ''operator''))
      then (Inl ErrNoRows, d)
      else if \<exists>k \<in> set (udb_keys d). krow_hash k = keyHash \<or> key_UserID (krow_key k) = userID \<and> key_Name (krow_key k) = name
      then (Inl unique_error, d)
      else let k = \<lparr>key_ID = udb_key_seq d + 1, key_UserID = userID, key_WorkspaceID = workspaceID, key_Name = name,
                    key_KeyPrefix = keyPrefix, key_LastUsedAt = None, key_CreatedAt = now\<rparr>
           in (Inr k, d\<lparr>udb_keys := udb_keys d @ [\<lparr>krow_key = k, krow_hash = keyHash\<rparr>], udb_key_seq := udb_key_seq d + 1\<rparr>))"

definition ListAPIKeys :: "int \<Rightarrow> int \<Rightarrow> UserAPIKey list userop" where
  "ListAPIKeys userID workspaceID now d =
     (Inr (sort_key (\<lambda>k. - key_CreatedAt k)
        (filter (\<lambda>k. key_UserID k = userID \<and> key_WorkspaceID k = workspaceID) (map krow_key (udb_keys d)))), d)"

definition key_named :: "int \<Rightarrow> int \<Rightarrow> int \<Rightarrow> key_row \<Rightarrow> bool" where
  "key_named userID workspaceID keyID r \<longleftrightarrow>
     key_ID (krow_key r) = keyID \<and> key_UserID (krow_key r) = userID \<and> key_WorkspaceID (krow_key r) = workspaceID"

definition DeleteAPIKey :: "int \<Rightarrow> int \<Rightarrow> int \<Rightarrow> unit userop" where
  "DeleteAPIKey userID workspaceID keyID now d =
     (if \<exists>r \<in> set (udb_keys d). key_named userID workspaceID keyID r
      then (Inr (), d\<lparr>udb_keys := filter (\<lambda>r. \<not> key_named userID workspaceID keyID r) (udb_keys d)\<rparr>)
      else (Inl (ErrText ''api key not found''), d))"

text \<open>The membership a key acts under, if it has one now.\<close>

definition key_member :: "users_db \<Rightarrow> key_row \<Rightarrow> member_row option" where
  "key_member d r =
     find (\<lambda>m. mem_user_id m = key_UserID (krow_key r) \<and> mem_workspace_id m = key_WorkspaceID (krow_key r)) (udb_members d)"

definition AuthenticateAPIKey :: "string \<Rightarrow> APIKeyIdentity userop" where
  "AuthenticateAPIKey keyHash now d =
     (case find (\<lambda>r. krow_hash r = keyHash \<and> key_member d r \<noteq> None) (udb_keys d) of
        None \<Rightarrow> (Inl ErrNoRows, d)
      | Some r \<Rightarrow> (case key_member d r of
          None \<Rightarrow> (Inl ErrNoRows, d)
        | Some m \<Rightarrow>
            (Inr \<lparr>aki_UserID = key_UserID (krow_key r), aki_WorkspaceID = key_WorkspaceID (krow_key r), aki_Role = mem_role m\<rparr>,
             d\<lparr>udb_keys := map (\<lambda>x. if krow_hash x = keyHash \<and> key_member d x \<noteq> None
                 then x\<lparr>krow_key := (krow_key x)\<lparr>key_LastUsedAt := Some now\<rparr>\<rparr> else x) (udb_keys d)\<rparr>)))"

text \<open>\<open>crypto.HashAPIKey\<close> and \<open>crypto.APIKeyPrefix\<close>.\<close>

definition HashAPIKey :: "(string \<Rightarrow> string) \<Rightarrow> string \<Rightarrow> string" where
  "HashAPIKey sha256 key = EncodeToString (sha256 key)"

definition APIKeyPrefix :: "string \<Rightarrow> string" where
  "APIKeyPrefix key = (if length key < 8 then key else take 8 key)"

definition users_inv :: "users_db \<Rightarrow> bool" where
  "users_inv d \<longleftrightarrow>
     distinct (map usr_Email (udb_users d)) \<and> distinct (map usr_ID (udb_users d)) \<and>
     (\<forall>u \<in> set (udb_users d). 0 < usr_ID u \<and> usr_ID u \<le> udb_user_seq d) \<and> 0 \<le> udb_user_seq d \<and>
     distinct (map (\<lambda>m. (mem_user_id m, mem_workspace_id m)) (udb_members d)) \<and>
     (\<forall>m \<in> set (udb_members d). mem_user_id m \<in> usr_ID ` set (udb_users d) \<and> has_workspace (mem_workspace_id m) (udb_tables d)) \<and>
     distinct (map krow_hash (udb_keys d)) \<and> distinct (map (key_ID \<circ> krow_key) (udb_keys d)) \<and>
     (\<forall>r \<in> set (udb_keys d). key_ID (krow_key r) \<le> udb_key_seq d \<and> key_UserID (krow_key r) \<in> usr_ID ` set (udb_users d)) \<and>
     distinct (map fst (db_workspaces (udb_tables d))) \<and>
     (\<forall>w \<in> fst ` set (db_workspaces (udb_tables d)). 0 < w \<and> w \<le> db_workspace_seq (udb_tables d)) \<and>
     0 \<le> db_workspace_seq (udb_tables d)"

definition demo_users :: users_db where
  "demo_users =
     \<lparr>udb_tables = empty_db\<lparr>db_workspaces := [(1, ''default''), (2, ''b'')], db_workspace_seq := 2\<rparr>,
      udb_users = [\<lparr>usr_ID = 1, usr_Email = ''a@example.com'', usr_PasswordHash = ''$2x'', usr_CreatedAt = 0\<rparr>], udb_user_seq = 1,
      udb_members = [\<lparr>mem_user_id = 1, mem_workspace_id = 2, mem_role = ''operator'', mem_created_at = 0, mem_onboarding_seen_at = None\<rparr>],
      udb_keys = [\<lparr>krow_key = \<lparr>key_ID = 1, key_UserID = 1, key_WorkspaceID = 2, key_Name = ''ci'', key_KeyPrefix = ''mk_'',
         key_LastUsedAt = None, key_CreatedAt = 0\<rparr>, krow_hash = ''00''\<rparr>], udb_key_seq = 1\<rparr>"

section \<open>The invariant\<close>

lemma users_invD:
  assumes "users_inv d"
  shows "distinct (map usr_Email (udb_users d))" "distinct (map usr_ID (udb_users d))"
    "u \<in> set (udb_users d) \<Longrightarrow> 0 < usr_ID u \<and> usr_ID u \<le> udb_user_seq d" "0 \<le> udb_user_seq d"
    "distinct (map (\<lambda>m. (mem_user_id m, mem_workspace_id m)) (udb_members d))"
    "m \<in> set (udb_members d) \<Longrightarrow> mem_user_id m \<in> usr_ID ` set (udb_users d) \<and> has_workspace (mem_workspace_id m) (udb_tables d)"
    "distinct (map krow_hash (udb_keys d))" "distinct (map (key_ID \<circ> krow_key) (udb_keys d))"
    "r \<in> set (udb_keys d) \<Longrightarrow> key_ID (krow_key r) \<le> udb_key_seq d \<and> key_UserID (krow_key r) \<in> usr_ID ` set (udb_users d)"
  using assms by (simp_all add: users_inv_def)

lemma insert_user_inv [keeps]: "users_inv d \<Longrightarrow> users_inv (snd (insert_user e p now d))"
  by (fastforce simp: insert_user_def users_inv_def Let_def)

lemma insert_workspace_inv [keeps]: "users_inv d \<Longrightarrow> users_inv (snd (insert_workspace n now d))"
  by (fastforce simp: insert_workspace_def users_inv_def has_workspace_def Let_def)

lemma insert_member_inv [keeps]: "users_inv d \<Longrightarrow> users_inv (snd (insert_member u w now d))"
  by (auto simp: insert_member_def users_inv_def)

lemma CreateAPIKey_inv [keeps]: "users_inv d \<Longrightarrow> users_inv (snd (CreateAPIKey u w n h p now d))"
  by (fastforce simp: CreateAPIKey_def users_inv_def Let_def)

lemma CreateUserWithWorkspace_inv [keeps]:
  assumes "users_inv d" shows "users_inv (snd (CreateUserWithWorkspace e p n now d))"
proof -
  obtain r1 d1 where 1: "insert_user e p now d = (r1, d1)" by (metis surj_pair)
  obtain r2 d2 where 2: "insert_workspace n now d1 = (r2, d2)" by (metis surj_pair)
  have i2: "users_inv d2"
    using insert_user_inv [OF assms, of e p now] insert_workspace_inv [of d1 n now] by (simp add: 1 2)
  have "users_inv d3" if "insert_member u w now d2 = (r3, d3)" for u w r3 d3
    using insert_member_inv [OF i2, of u w now] by (simp add: that)
  with assms show ?thesis
    by (cases r1; cases r2) (simp_all add: CreateUserWithWorkspace_def 1 2 split: prod.split sum.split)
qed

lemma CreateWorkspaceForUser_inv [keeps]:
  assumes "users_inv d" shows "users_inv (snd (CreateWorkspaceForUser u n now d))"
proof -
  obtain r2 d2 where 2: "insert_workspace n now d = (r2, d2)" by (metis surj_pair)
  have i2: "users_inv d2" using insert_workspace_inv [OF assms, of n now] by (simp add: 2)
  have "users_inv d3" if "insert_member u w now d2 = (r3, d3)" for w r3 d3
    using insert_member_inv [OF i2, of u w now] by (simp add: that)
  with assms show ?thesis
    by (cases r2) (simp_all add: CreateWorkspaceForUser_def 2 split: prod.split sum.split)
qed

lemma users_inv_users:
  assumes "users_inv d" and "map usr_Email us = map usr_Email (udb_users d)" and "map usr_ID us = map usr_ID (udb_users d)"
  shows "users_inv (d\<lparr>udb_users := us\<rparr>)"
proof -
  have ids: "usr_ID ` set us = usr_ID ` set (udb_users d)" using arg_cong [OF assms(3), of set] by simp
  have "0 < usr_ID u \<and> usr_ID u \<le> udb_user_seq d" if "u \<in> set us" for u
  proof -
    from that have "usr_ID u \<in> usr_ID ` set (udb_users d)" unfolding ids [symmetric] by (rule imageI)
    then obtain v where "v \<in> set (udb_users d)" "usr_ID u = usr_ID v" by (rule imageE)
    with users_invD(3) [OF assms(1)] show ?thesis by simp
  qed
  with assms ids show ?thesis by (simp add: users_inv_def)
qed

lemma UpdateUserPasswordHash_inv [keeps]:
  "users_inv d \<Longrightarrow> users_inv (snd (UpdateUserPasswordHash u h now d))"
  unfolding UpdateUserPasswordHash_def snd_conv by (rule users_inv_users) simp_all

lemma DismissOnboarding_inv [keeps]:
  assumes "users_inv d" shows "users_inv (snd (DismissOnboarding u w now d))"
proof -
  let ?key = "\<lambda>m. (mem_user_id m, mem_workspace_id m)"
  let ?f = "\<lambda>m. if mem_user_id m = u \<and> mem_workspace_id m = w then m\<lparr>mem_onboarding_seen_at := Some now\<rparr> else m"
  have keys: "map ?key (map ?f (udb_members d)) = map ?key (udb_members d)" by simp
  have "mem_user_id (?f m) = mem_user_id m" "mem_workspace_id (?f m) = mem_workspace_id m" for m by simp_all
  with assms show ?thesis
    unfolding DismissOnboarding_def snd_conv users_inv_def
    by (simp del: map_map map_eq_conv if_image_distrib add: keys) (elim conjE, blast)
qed

lemma DeleteAPIKey_inv [keeps]: "users_inv d \<Longrightarrow> users_inv (snd (DeleteAPIKey u w k now d))"
  by (auto simp: DeleteAPIKey_def users_inv_def distinct_map_filter)

lemma AuthenticateAPIKey_inv [keeps]:
  assumes "users_inv d" shows "users_inv (snd (AuthenticateAPIKey h now d))"
proof -
  let ?f = "\<lambda>x. if krow_hash x = h \<and> key_member d x \<noteq> None
      then x\<lparr>krow_key := (krow_key x)\<lparr>key_LastUsedAt := Some now\<rparr>\<rparr> else x"
  have "krow_hash \<circ> ?f = krow_hash" "key_ID \<circ> krow_key \<circ> ?f = key_ID \<circ> krow_key"
    "key_ID (krow_key (?f x)) = key_ID (krow_key x)" "key_UserID (krow_key (?f x)) = key_UserID (krow_key x)" for x
    by (auto simp: fun_eq_iff)
  then have "users_inv (d\<lparr>udb_keys := map ?f (udb_keys d)\<rparr>)"
    using assms by (auto simp: users_inv_def comp_assoc simp del: if_image_distrib)
  then show ?thesis using assms by (simp add: AuthenticateAPIKey_def split: option.split)
qed

text \<open>
  The tables of users, memberships and keys stay consistent under every method of the store
  that writes them: addresses, ids, memberships and key hashes are unique, ids are positive and
  below their sequence, and a membership or a key has its user and its workspace.
\<close>

theorem users_tables_kept:
  assumes "users_inv d"
  shows "users_inv (snd (CreateUser email hash now d)) \<and> users_inv (snd (CreateUserWithWorkspace email hash name now d)) \<and>
    users_inv (snd (CreateWorkspaceForUser u name now d)) \<and> users_inv (snd (UpdateUserPasswordHash u hash now d)) \<and>
    users_inv (snd (DismissOnboarding u ws now d)) \<and> users_inv (snd (CreateAPIKey u ws name hash prefix now d)) \<and>
    users_inv (snd (DeleteAPIKey u ws i now d)) \<and> users_inv (snd (AuthenticateAPIKey hash now d))"
  using assms by (simp add: CreateUser_def keeps)

section \<open>Keys\<close>

lemma key_member_iff:
  assumes "users_inv d"
  shows "key_member d r = Some m \<longleftrightarrow>
    m \<in> set (udb_members d) \<and> mem_user_id m = key_UserID (krow_key r) \<and> mem_workspace_id m = key_WorkspaceID (krow_key r)"
proof
  assume "key_member d r = Some m"
  then show "m \<in> set (udb_members d) \<and> mem_user_id m = key_UserID (krow_key r) \<and> mem_workspace_id m = key_WorkspaceID (krow_key r)"
    by (auto simp: key_member_def find_Some_iff in_set_conv_nth)
next
  assume m: "m \<in> set (udb_members d) \<and> mem_user_id m = key_UserID (krow_key r) \<and> mem_workspace_id m = key_WorkspaceID (krow_key r)"
  then obtain m' where m': "key_member d r = Some m'"
    by (cases "key_member d r") (auto simp: key_member_def find_None_iff)
  then have "m' \<in> set (udb_members d)" "mem_user_id m' = mem_user_id m" "mem_workspace_id m' = mem_workspace_id m"
    using m by (auto simp: key_member_def find_Some_iff in_set_conv_nth)
  with m users_invD(5) [OF assms] have "m' = m" by (auto simp: distinct_map inj_on_def)
  with m' show "key_member d r = Some m" by simp
qed

lemma AuthenticateAPIKey_iff:
  assumes inv: "users_inv d"
  shows "fst (AuthenticateAPIKey h now d) = Inr i \<longleftrightarrow>
    (\<exists>r \<in> set (udb_keys d). \<exists>m \<in> set (udb_members d). krow_hash r = h \<and>
       mem_user_id m = key_UserID (krow_key r) \<and> mem_workspace_id m = key_WorkspaceID (krow_key r) \<and>
       i = \<lparr>aki_UserID = key_UserID (krow_key r), aki_WorkspaceID = key_WorkspaceID (krow_key r), aki_Role = mem_role m\<rparr>)"
    (is "?auth \<longleftrightarrow> ?row")
proof
  assume ?auth
  then obtain r m where "find (\<lambda>r. krow_hash r = h \<and> key_member d r \<noteq> None) (udb_keys d) = Some r" "key_member d r = Some m"
    "i = \<lparr>aki_UserID = key_UserID (krow_key r), aki_WorkspaceID = key_WorkspaceID (krow_key r), aki_Role = mem_role m\<rparr>"
    by (auto simp: AuthenticateAPIKey_def split: option.splits)
  then show ?row using key_member_iff [OF inv] by (auto simp: find_Some_iff in_set_conv_nth) (metis nth_mem)
next
  assume ?row
  then obtain r m where r: "r \<in> set (udb_keys d)" "krow_hash r = h" "key_member d r = Some m"
    "i = \<lparr>aki_UserID = key_UserID (krow_key r), aki_WorkspaceID = key_WorkspaceID (krow_key r), aki_Role = mem_role m\<rparr>"
    using key_member_iff [OF inv] by blast
  then obtain r' where r': "find (\<lambda>r. krow_hash r = h \<and> key_member d r \<noteq> None) (udb_keys d) = Some r'"
    by (cases "find (\<lambda>r. krow_hash r = h \<and> key_member d r \<noteq> None) (udb_keys d)") (auto simp: find_None_iff)
  then have "r' \<in> set (udb_keys d)" "krow_hash r' = h" by (auto simp: find_Some_iff in_set_conv_nth)
  with r(1,2) users_invD(7) [OF inv] have "r' = r" by (auto simp: distinct_map inj_on_def)
  with r r' show ?auth by (simp add: AuthenticateAPIKey_def)
qed

text \<open>
  A key authenticates exactly if a key with its hash is stored and its user is a member of its
  workspace at that moment, and then with the role the membership has at that moment: removing the
  key or the membership, or changing the role, takes effect on the next request.
\<close>

theorem key_identity_current:
  assumes inv: "users_inv d"
  shows "fst (AuthenticateAPIKey h now d) = Inr i \<longleftrightarrow>
    (\<exists>r \<in> set (udb_keys d). \<exists>m \<in> set (udb_members d). krow_hash r = h \<and>
       mem_user_id m = key_UserID (krow_key r) \<and> mem_workspace_id m = key_WorkspaceID (krow_key r) \<and>
       i = \<lparr>aki_UserID = key_UserID (krow_key r), aki_WorkspaceID = key_WorkspaceID (krow_key r), aki_Role = mem_role m\<rparr>)"
  by (rule AuthenticateAPIKey_iff [OF inv])

lemma demo_users_inv: "users_inv demo_users"
  by (simp add: users_inv_def demo_users_def has_workspace_def)

text \<open>The hypothesis holds for one user with one key.\<close>

theorem users_tables_kept_witness:
  "users_inv (snd (CreateAPIKey 1 2 ''second'' ''01'' ''mk_'' 7 demo_users)) \<and> users_inv (snd (DeleteAPIKey 1 2 1 7 demo_users))"
  using users_tables_kept [OF demo_users_inv] by blast

text \<open>The hypothesis holds for that user, an operator of the workspace 2.\<close>

theorem key_identity_current_witness:
  "fst (AuthenticateAPIKey ''00'' 7 demo_users) = Inr \<lparr>aki_UserID = 1, aki_WorkspaceID = 2, aki_Role = ''operator''\<rparr>"
  unfolding key_identity_current [OF demo_users_inv] by (simp add: demo_users_def)

end
