(* ===== verification/Access.thy ===== *)
theory Access
  imports Pg_Users
begin

text \<open>
  Access to the HTTP API: sessions (\<open>src/internal/auth/session.go\<close>), principals, roles and
  workspaces (\<open>src/internal/auth/apikey.go\<close>, the guards of \<open>src/internal/auth/handlers.go\<close>,
  \<open>src/internal/api/access.go\<close>), and the guards of the routes (\<open>Register\<close> in
  \<open>src/internal/api/http.go\<close>). SHA-256, the verdict of the cross-origin check and the fates of the
  calls to Redis and PostgreSQL are parameters.
\<close>

section \<open>Definitions\<close>

text \<open>A session: the fields of its hash, and when Redis drops it.\<close>

record session =
  ses_user_id :: string
  ses_expires_at :: string
  ses_gone_at :: "go_time option"

type_synonym sessions = "string \<rightharpoonup> session"

definition ErrSessionNotFound :: go_error where
  "ErrSessionNotFound = ErrText ''session not found''"

definition ErrSessionExpired :: go_error where
  "ErrSessionExpired = ErrText ''session expired''"

definition Unix :: "go_time \<Rightarrow> int" where
  "Unix t = t div Second"

definition session_live :: "go_time \<Rightarrow> session \<Rightarrow> bool" where
  "session_live now s \<longleftrightarrow> (case ses_gone_at s of None \<Rightarrow> True | Some t \<Rightarrow> now < t)"

text \<open>\<open>HSET\<close> keeps the time to live of a key that is still there.\<close>

definition HSet_session :: "string \<Rightarrow> int \<Rightarrow> int \<Rightarrow> go_time \<Rightarrow> sessions \<Rightarrow> sessions" where
  "HSet_session key userID expiresAt now ss =
     ss(key \<mapsto> \<lparr>ses_user_id = FormatInt userID, ses_expires_at = FormatInt expiresAt,
        ses_gone_at = (case ss key of Some old \<Rightarrow> if session_live now old then ses_gone_at old else None | None \<Rightarrow> None)\<rparr>)"

definition Expire_session :: "string \<Rightarrow> duration \<Rightarrow> go_time \<Rightarrow> sessions \<Rightarrow> sessions" where
  "Expire_session key ttl now ss =
     (case ss key of None \<Rightarrow> ss | Some s \<Rightarrow> ss(key \<mapsto> s\<lparr>ses_gone_at := Some (now + ttl)\<rparr>))"

text \<open>
  \<open>SessionStore\<close>: the fates of the Redis commands are arguments; a random id is given by the
  outcome of \<open>generateSessionID\<close>.
\<close>

definition generateSessionID :: "string result \<Rightarrow> string result" where
  "generateSessionID random = (case random of Inl e \<Rightarrow> Inl e | Inr b \<Rightarrow> Inr (EncodeToString b))"

definition session_Create :: "string result \<Rightarrow> fault \<Rightarrow> fault \<Rightarrow> int \<Rightarrow> duration \<Rightarrow> go_time \<Rightarrow> sessions \<Rightarrow> string result \<times> sessions" where
  "session_Create random hset expire userID ttl now ss =
     (case generateSessionID random of
        Inl e \<Rightarrow> (Inl e, ss)
      | Inr sessionID \<Rightarrow>
         (let key = ''session:'' @ sessionID;
              expiresAt = Unix (now + ttl);
              ss1 = HSet_session key userID expiresAt now ss
          in case hset of
               Refused e \<Rightarrow> (Inl e, ss)
             | Unacknowledged e \<Rightarrow> (Inl e, ss1)
             | Executed \<Rightarrow> (case expire of
                 Refused e \<Rightarrow> (Inl e, ss1)
               | Unacknowledged e \<Rightarrow> (Inl e, Expire_session key ttl now ss1)
               | Executed \<Rightarrow> (Inr sessionID, Expire_session key ttl now ss1))))"

definition session_Delete :: "fault \<Rightarrow> string \<Rightarrow> sessions \<Rightarrow> unit result \<times> sessions" where
  "session_Delete f sessionID ss =
     (case f of
        Refused e \<Rightarrow> (Inl e, ss)
      | Unacknowledged e \<Rightarrow> (Inl e, ss(''session:'' @ sessionID := None))
      | Executed \<Rightarrow> (Inr (), ss(''session:'' @ sessionID := None)))"

definition session_Get :: "fault \<Rightarrow> fault \<Rightarrow> string \<Rightarrow> go_time \<Rightarrow> sessions \<Rightarrow> int result \<times> sessions" where
  "session_Get hmget del sessionID now ss =
     (case hmget of
        Refused e \<Rightarrow> (Inl e, ss)
      | Unacknowledged e \<Rightarrow> (Inl e, ss)
      | Executed \<Rightarrow>
         (case ss (''session:'' @ sessionID) of
            None \<Rightarrow> (Inl ErrSessionNotFound, ss)
          | Some s \<Rightarrow>
             if \<not> session_live now s then (Inl ErrSessionNotFound, ss)
             else (case ParseInt (ses_user_id s) of
                None \<Rightarrow> (Inl ErrSessionNotFound, ss)
              | Some userID \<Rightarrow>
                 (case ParseInt (ses_expires_at s) of
                    Some expiresAt \<Rightarrow>
                      if Unix now > expiresAt then (Inl ErrSessionExpired, snd (session_Delete del sessionID ss))
                      else (Inr userID, ss)
                  | None \<Rightarrow> (Inr userID, ss)))))"

record Principal =
  pr_UserID :: int
  pr_WorkspaceID :: int
  pr_Role :: string
  pr_Global :: bool

definition validRole :: "string \<Rightarrow> bool" where
  "validRole role \<longleftrightarrow> role = ''admin'' \<or> role = ''operator'' \<or> role = ''viewer''"

text \<open>The context of a request holds a principal or none; the zero principal stands for none.\<close>

definition PrincipalFromContext :: "Principal option \<Rightarrow> Principal \<times> bool" where
  "PrincipalFromContext ctx =
     (case ctx of
        None \<Rightarrow> (\<lparr>pr_UserID = 0, pr_WorkspaceID = 0, pr_Role = [], pr_Global = False\<rparr>, False)
      | Some p \<Rightarrow> (p, validRole (pr_Role p) \<and> (pr_Global p \<or> (pr_UserID p > 0 \<and> pr_WorkspaceID p > 0))))"

definition RoleFromContext :: "Principal option \<Rightarrow> string \<times> bool" where
  "RoleFromContext ctx = (case PrincipalFromContext ctx of (p, ok) \<Rightarrow> (pr_Role p, ok))"

definition UserIDFromContext :: "Principal option \<Rightarrow> int \<times> bool" where
  "UserIDFromContext ctx = (case PrincipalFromContext ctx of (p, ok) \<Rightarrow> (pr_UserID p, ok \<and> \<not> pr_Global p))"

definition WorkspaceIDFromContext :: "Principal option \<Rightarrow> int \<times> bool" where
  "WorkspaceIDFromContext ctx = (case PrincipalFromContext ctx of (p, ok) \<Rightarrow> (pr_WorkspaceID p, ok \<and> \<not> pr_Global p))"

datatype workspace_error = ErrUnauthenticated | ErrForbidden | ErrInvalidWorkspace

definition Workspace :: "Principal option \<Rightarrow> int \<Rightarrow> workspace_error + int" where
  "Workspace ctx requested =
     (case PrincipalFromContext ctx of (p, ok) \<Rightarrow>
        if \<not> ok then Inl ErrUnauthenticated
        else if requested < 0 then Inl ErrInvalidWorkspace
        else if pr_Global p then Inr (if requested = 0 then 1 else requested)
        else if requested = 0 then Inr (pr_WorkspaceID p)
        else if requested \<noteq> pr_WorkspaceID p then Inl ErrForbidden
        else Inr requested)"

text \<open>A rejected request is answered with a status and a message.\<close>

type_synonym rejection = "int \<times> string"

definition resolveWorkspace :: "Principal option \<Rightarrow> int \<Rightarrow> rejection + int" where
  "resolveWorkspace ctx requested =
     (case Workspace ctx requested of
        Inr i \<Rightarrow> Inr i
      | Inl ErrUnauthenticated \<Rightarrow> Inl (401, ''unauthorized'')
      | Inl ErrInvalidWorkspace \<Rightarrow> Inl (400, ''invalid workspace_id'')
      | Inl ErrForbidden \<Rightarrow> Inl (403, ''forbidden''))"

text \<open>The values of the query parameter \<open>workspace_id\<close>, in order.\<close>

definition parseInt64Query :: "string list \<Rightarrow> int \<Rightarrow> int option" where
  "parseInt64Query values fallback =
     (let raw = TrimSpace (case values of [] \<Rightarrow> [] | v # _ \<Rightarrow> v) in if raw = [] then Some fallback else ParseInt raw)"

definition workspaceFromQuery :: "Principal option \<Rightarrow> string list \<Rightarrow> rejection + int" where
  "workspaceFromQuery ctx values =
     (if length values > 1 then Inl (400, ''invalid workspace_id'')
      else case parseInt64Query values 0 of
             None \<Rightarrow> Inl (400, ''invalid workspace_id'')
           | Some i \<Rightarrow> resolveWorkspace ctx i)"

definition RequireRole :: "string list \<Rightarrow> Principal option \<Rightarrow> rejection + Principal option" where
  "RequireRole allowed ctx =
     (case RoleFromContext ctx of (role, ok) \<Rightarrow>
        if \<not> ok then Inl (401, ''unauthorized'')
        else if role \<in> set allowed then Inr ctx
        else Inl (403, ''forbidden''))"

text \<open>What the guards read of a request; \<open>None\<close> for a missing header or cookie.\<close>

record request =
  req_key :: "string option"
  req_cookie :: "string option"
  req_same_origin :: bool

definition resolveRole :: "string \<Rightarrow> string \<Rightarrow> string \<Rightarrow> string option" where
  "resolveRole provided adminKey operatorKey =
     (if provided = [] then None
      else if adminKey \<noteq> [] \<and> provided = adminKey then Some ''admin''
      else if operatorKey \<noteq> [] \<and> provided = operatorKey then Some ''operator''
      else None)"

text \<open>A call of the store of users, with its fate.\<close>

definition user_call :: "fault \<Rightarrow> 'a userop \<Rightarrow> 'a userop" where
  "user_call f op now d =
     (case f of
        Refused e \<Rightarrow> (Inl e, d)
      | Unacknowledged e \<Rightarrow> (Inl e, snd (op now d))
      | Executed \<Rightarrow> op now d)"

text \<open>The guards' surroundings: the keys of the instance, SHA-256, and the fates of the calls.\<close>

record guard_env =
  env_admin :: string
  env_operator :: string
  env_sha256 :: "string \<Rightarrow> string"
  env_store :: fault
  env_hmget :: fault
  env_del :: fault

definition APIKeyMiddleware :: "guard_env \<Rightarrow> bool \<Rightarrow> request \<Rightarrow> go_time \<Rightarrow> users_db \<Rightarrow> (rejection + Principal option) \<times> users_db" where
  "APIKeyMiddleware env hasStore r now d =
     (let got = TrimSpace (case req_key r of None \<Rightarrow> [] | Some k \<Rightarrow> k) in
      case resolveRole got (env_admin env) (env_operator env) of
        Some role \<Rightarrow> (Inr (Some \<lparr>pr_UserID = 0, pr_WorkspaceID = 0, pr_Role = role, pr_Global = True\<rparr>), d)
      | None \<Rightarrow>
         if got = [] \<or> \<not> hasStore then (Inl (401, ''unauthorized''), d)
         else (case user_call (env_store env) (AuthenticateAPIKey (HashAPIKey (env_sha256 env) got)) now d of
            (Inl e, d') \<Rightarrow>
              (Inl (if e = ErrNoRows then (401, ''unauthorized'') else (500, ''authentication unavailable'')), d')
          | (Inr identity, d') \<Rightarrow>
             (let ctx = Some \<lparr>pr_UserID = aki_UserID identity, pr_WorkspaceID = aki_WorkspaceID identity,
                        pr_Role = aki_Role identity, pr_Global = False\<rparr>
              in if \<not> snd (PrincipalFromContext ctx) then (Inl (401, ''unauthorized''), d') else (Inr ctx, d'))))"

definition RequireAuth :: "guard_env \<Rightarrow> request \<Rightarrow> go_time \<Rightarrow> users_db \<Rightarrow> sessions \<Rightarrow> (rejection + Principal option) \<times> sessions" where
  "RequireAuth env r now d ss =
     (if \<not> req_same_origin r then (Inl (403, ''cross-origin request rejected''), ss)
      else case req_cookie r of
        None \<Rightarrow> (Inl (401, ''unauthorized''), ss)
      | Some sessionID \<Rightarrow>
         (case session_Get (env_hmget env) (env_del env) sessionID now ss of
            (Inl e, ss') \<Rightarrow>
              (Inl (if e = ErrSessionExpired then (401, ''session_expired'')
                    else if e = ErrSessionNotFound then (401, ''unauthorized'') else (500, ''session error'')), ss')
          | (Inr userID, ss') \<Rightarrow>
             (case fst (user_call (env_store env) (GetUserWorkspace userID) now d) of
                Inl e \<Rightarrow> (Inl (401, ''workspace not found''), ss')
              | Inr u \<Rightarrow>
                 (let ctx = Some \<lparr>pr_UserID = userID, pr_WorkspaceID = usr_WorkspaceID u, pr_Role = usr_Role u, pr_Global = False\<rparr>
                  in if \<not> snd (PrincipalFromContext ctx) then (Inl (403, ''forbidden''), ss') else (Inr ctx, ss')))))"

definition RequireCredentials :: "guard_env \<Rightarrow> request \<Rightarrow> go_time \<Rightarrow> users_db \<Rightarrow> sessions
    \<Rightarrow> (rejection + Principal option) \<times> users_db \<times> sessions" where
  "RequireCredentials env r now d ss =
     (if req_key r \<noteq> None
      then (case APIKeyMiddleware env True r now d of (res, d') \<Rightarrow> (res, d', ss))
      else (case RequireAuth env r now d ss of (res, ss') \<Rightarrow> (res, d, ss')))"

text \<open>
  The routes of \<open>Register\<close> with the roles they require, and whether they are pages of the user
  interface, which take sessions only. \<open>/v1/webhooks/events\<close> has no guard; it checks a signature.
\<close>

datatype route_kind = Api | Ui

definition routes :: "(string \<times> route_kind \<times> string list) list" where
  "routes =
     (let a = [''admin'']; ao = [''admin'', ''operator'']; aov = [''admin'', ''operator'', ''viewer''] in
      [(''/v1/messages'', Api, ao), (''/v1/suppressions'', Api, a), (''/v1/unsubscribes'', Api, a),
       (''/v1/smtp-accounts'', Api, a), (''/v1/smtp-accounts/activate'', Api, a), (''/v1/smtp-accounts/list'', Api, aov),
       (''/v1/domains/readiness'', Api, ao), (''/v1/smtp-accounts/validate'', Api, a), (''/v1/messages/timeline'', Api, aov),
       (''/v1/ops/onboarding-checklist'', Api, aov), (''/v1/incidents/bundle'', Api, aov), (''/v1/messages/logs'', Api, aov),
       (''/v1/messages/retry'', Api, ao), (''/v1/webhooks/logs'', Api, aov), (''/v1/webhooks/replay'', Api, ao),
       (''/v1/workspaces/policy'', Api, aov), (''/v1/analytics/summary'', Api, aov), (''/v1/analytics/export.csv'', Api, aov),
       (''/v1/billing/metering'', Api, aov), (''/ui/policy'', Ui, aov), (''/ui/logs'', Ui, aov), (''/ui'', Ui, aov),
       (''/ui/onboarding'', Ui, aov), (''/ui/incidents'', Ui, aov)])"

text \<open>
  The guards of a route when the instance has users (\<open>hasAuth\<close>) and when it has only its two
  keys; pages then take those keys, and no viewers.
\<close>

definition guard :: "bool \<Rightarrow> guard_env \<Rightarrow> route_kind \<Rightarrow> string list \<Rightarrow> request \<Rightarrow> go_time \<Rightarrow> users_db \<Rightarrow> sessions
    \<Rightarrow> rejection + Principal option" where
  "guard hasAuth env kind roles r now d ss =
     (let roles = (if \<not> hasAuth \<and> kind = Ui then [''admin'', ''operator''] else roles);
          res = (if \<not> hasAuth then fst (APIKeyMiddleware env False r now d)
                 else if kind = Ui then fst (RequireAuth env r now d ss)
                 else fst (RequireCredentials env r now d ss))
      in case res of Inl e \<Rightarrow> Inl e | Inr ctx \<Rightarrow> RequireRole roles ctx)"

definition authorize :: "bool \<Rightarrow> guard_env \<Rightarrow> string \<Rightarrow> request \<Rightarrow> go_time \<Rightarrow> users_db \<Rightarrow> sessions \<Rightarrow> rejection + Principal option" where
  "authorize hasAuth env path r now d ss =
     (case map_of routes path of
        None \<Rightarrow> Inl (404, ''404 page not found'')
      | Some (kind, roles) \<Rightarrow> guard hasAuth env kind roles r now d ss)"

definition presented :: "request \<Rightarrow> string" where
  "presented r = TrimSpace (case req_key r of None \<Rightarrow> [] | Some k \<Rightarrow> k)"

text \<open>A holder of one of the two keys of the instance.\<close>

definition instance_key :: "guard_env \<Rightarrow> request \<Rightarrow> Principal \<Rightarrow> bool" where
  "instance_key env r p \<longleftrightarrow>
     pr_Global p \<and> presented r \<noteq> [] \<and>
     (pr_Role p = ''admin'' \<and> presented r = env_admin env \<or> pr_Role p = ''operator'' \<and> presented r = env_operator env)"

text \<open>A member of a workspace, with the role of the membership.\<close>

definition member :: "users_db \<Rightarrow> Principal \<Rightarrow> bool" where
  "member d p \<longleftrightarrow>
     \<not> pr_Global p \<and>
     (\<exists>m \<in> set (udb_members d). mem_user_id m = pr_UserID p \<and> mem_workspace_id m = pr_WorkspaceID p \<and> mem_role m = pr_Role p)"

definition key_holder :: "guard_env \<Rightarrow> request \<Rightarrow> users_db \<Rightarrow> Principal \<Rightarrow> bool" where
  "key_holder env r d p \<longleftrightarrow>
     member d p \<and> (\<exists>k \<in> set (udb_keys d). krow_hash k = HashAPIKey (env_sha256 env) (presented r) \<and>
        key_UserID (krow_key k) = pr_UserID p \<and> key_WorkspaceID (krow_key k) = pr_WorkspaceID p)"

definition session_holder :: "request \<Rightarrow> go_time \<Rightarrow> users_db \<Rightarrow> sessions \<Rightarrow> Principal \<Rightarrow> bool" where
  "session_holder r now d ss p \<longleftrightarrow>
     member d p \<and> req_same_origin r \<and>
     (\<exists>c s. req_cookie r = Some c \<and> ss (''session:'' @ c) = Some s \<and> session_live now s \<and>
        ParseInt (ses_user_id s) = Some (pr_UserID p) \<and>
        (\<forall>x. ParseInt (ses_expires_at s) = Some x \<longrightarrow> Unix now \<le> x))"

definition demo_env :: guard_env where
  "demo_env = \<lparr>env_admin = ''root'', env_operator = [], env_sha256 = (\<lambda>k. [CHR 0x00]), env_store = Executed,
     env_hmget = Executed, env_del = Executed\<rparr>"

definition demo_request :: request where
  "demo_request = \<lparr>req_key = Some '' mk_x '', req_cookie = None, req_same_origin = True\<rparr>"

text \<open>Routes that change something, of which the policy route changes things for admins only.\<close>

definition writing_routes :: "string list" where
  "writing_routes = [''/v1/messages'', ''/v1/suppressions'', ''/v1/unsubscribes'', ''/v1/smtp-accounts'', ''/v1/smtp-accounts/activate'',
     ''/v1/smtp-accounts/validate'', ''/v1/domains/readiness'', ''/v1/messages/retry'', ''/v1/webhooks/replay'']"

section \<open>Sessions\<close>

lemma Unix_mono: "t \<le> t' \<Longrightarrow> Unix t \<le> Unix t'"
  by (simp add: Unix_def zdiv_mono1 time_units)

text \<open>
  A session that was opened for a user is accepted until its time is up, if Redis answers; and
  no session, whatever commands of its creation were refused or lost their answer and whether or
  not Redis dropped it, is accepted in a second after that of its expiry.
\<close>

theorem session_lifetime:
  assumes create: "session_Create (Inr b) hset expire userID ttl t0 ss = (res, ss1)"
    and fresh: "ss (''session:'' @ EncodeToString b) = None" and u: "is_int64 userID" and e: "is_int64 (Unix (t0 + ttl))"
  shows "(res = Inr (EncodeToString b) \<and> t < t0 + ttl \<longrightarrow> session_Get Executed del (EncodeToString b) t ss1 = (Inr userID, ss1)) \<and>
    (Unix t > Unix (t0 + ttl) \<longrightarrow> (\<exists>err. fst (session_Get hmget del (EncodeToString b) t ss1) = Inl err))"
proof -
  let ?key = "''session:'' @ EncodeToString b"
  have shape: "ss1 ?key = None \<or> (\<exists>g. ss1 ?key = Some \<lparr>ses_user_id = FormatInt userID, ses_expires_at = FormatInt (Unix (t0 + ttl)), ses_gone_at = g\<rparr>)"
    using create fresh
    by (auto simp: session_Create_def generateSessionID_def HSet_session_def Expire_session_def Let_def split: fault.splits)
  have ok: "ss1 ?key = Some \<lparr>ses_user_id = FormatInt userID, ses_expires_at = FormatInt (Unix (t0 + ttl)), ses_gone_at = Some (t0 + ttl)\<rparr>"
    if "res = Inr (EncodeToString b)"
    using create fresh that
    by (auto simp: session_Create_def generateSessionID_def HSet_session_def Expire_session_def Let_def split: fault.splits)
  have 1: "session_Get Executed del (EncodeToString b) t ss1 = (Inr userID, ss1)" if "res = Inr (EncodeToString b)" "t < t0 + ttl"
    using ok [OF that(1)] that(2) Unix_mono [of t "t0 + ttl"] u e by (simp add: session_Get_def session_live_def)
  have 2: "\<exists>err. fst (session_Get hmget del (EncodeToString b) t ss1) = Inl err" if "Unix t > Unix (t0 + ttl)"
    using shape that u e by (cases hmget) (auto simp: session_Get_def)
  from 1 2 show ?thesis by blast
qed

text \<open>The hypotheses hold for a session of an hour whose \<open>EXPIRE\<close> was refused.\<close>

theorem session_lifetime_witness:
  "let ss1 = snd (session_Create (Inr ''r'') Executed (Refused (ErrDriver ''down'')) 7 Hour 0 Map.empty)
   in \<exists>err. fst (session_Get Executed Executed (EncodeToString ''r'') (Hour + 5 * Second) ss1) = Inl err"
proof -
  obtain res ss1 where c: "session_Create (Inr ''r'') Executed (Refused (ErrDriver ''down'')) 7 Hour 0 Map.empty = (res, ss1)"
    by (metis surj_pair)
  have "is_int64 7" "is_int64 (Unix (0 + Hour))" "Unix (Hour + 5 * Second) > Unix (0 + Hour)"
    by (simp_all add: is_int64_def min_int64_def max_int64_def Unix_def time_units)
  with session_lifetime [OF c] have "\<exists>err. fst (session_Get Executed Executed (EncodeToString ''r'') (Hour + 5 * Second) ss1) = Inl err"
    by simp
  then show ?thesis by (simp add: c)
qed

section \<open>Who a principal is\<close>

lemma APIKeyMiddleware_accepts:
  assumes inv: "users_inv d" and acc: "fst (APIKeyMiddleware env hasStore r now d) = Inr ctx"
  shows "\<exists>p. ctx = Some p \<and> snd (PrincipalFromContext ctx) \<and> (instance_key env r p \<or> hasStore \<and> key_holder env r d p)"
proof (cases "resolveRole (presented r) (env_admin env) (env_operator env)")
  case (Some role)
  then have ctx: "ctx = Some \<lparr>pr_UserID = 0, pr_WorkspaceID = 0, pr_Role = role, pr_Global = True\<rparr>"
    using acc by (simp add: APIKeyMiddleware_def presented_def [symmetric] Let_def)
  from Some have "presented r \<noteq> [] \<and> (role = ''admin'' \<and> presented r = env_admin env \<or> role = ''operator'' \<and> presented r = env_operator env)"
    by (auto simp: resolveRole_def split: if_splits)
  then show ?thesis using ctx by (auto simp: instance_key_def PrincipalFromContext_def validRole_def)
next
  case None
  let ?h = "HashAPIKey (env_sha256 env) (presented r)"
  obtain i where i: "hasStore" "fst (user_call (env_store env) (AuthenticateAPIKey ?h) now d) = Inr i"
    "ctx = Some \<lparr>pr_UserID = aki_UserID i, pr_WorkspaceID = aki_WorkspaceID i, pr_Role = aki_Role i, pr_Global = False\<rparr>"
    "snd (PrincipalFromContext ctx)"
    using acc None by (auto simp: APIKeyMiddleware_def presented_def [symmetric] Let_def split: if_splits sum.splits prod.splits)
  from i(2) have "fst (AuthenticateAPIKey ?h now d) = Inr i" by (cases "env_store env") (simp_all add: user_call_def)
  then obtain k m where "k \<in> set (udb_keys d)" "m \<in> set (udb_members d)" "krow_hash k = ?h"
    "mem_user_id m = key_UserID (krow_key k)" "mem_workspace_id m = key_WorkspaceID (krow_key k)"
    "i = \<lparr>aki_UserID = key_UserID (krow_key k), aki_WorkspaceID = key_WorkspaceID (krow_key k), aki_Role = mem_role m\<rparr>"
    using AuthenticateAPIKey_iff [OF inv] by blast
  then have "key_holder env r d (the ctx)" using i(3) by (auto simp: key_holder_def member_def)
  then show ?thesis using i by auto
qed

lemma GetUserWorkspace_member:
  assumes "fst (GetUserWorkspace userID now d) = Inr u"
  shows "\<exists>m \<in> set (udb_members d). mem_user_id m = userID \<and> mem_workspace_id m = usr_WorkspaceID u \<and> mem_role m = usr_Role u"
proof -
  obtain x m ms where "memberships userID d = m # ms"
    "u = User.extend (x\<lparr>usr_PasswordHash := []\<rparr>) \<lparr>usr_WorkspaceID = mem_workspace_id m,
       usr_WorkspaceName = workspace_name (mem_workspace_id m) d, usr_Role = mem_role m\<rparr>"
    using assms by (auto simp: GetUserWorkspace_def split: option.splits list.splits)
  moreover from this(1) have "m \<in> set (memberships userID d)" by simp
  then have "m \<in> set (udb_members d)" "mem_user_id m = userID" by (auto simp: memberships_def)
  ultimately show ?thesis by (auto simp: User.defs)
qed

lemma session_Get_accepts:
  assumes "fst (session_Get hmget del c now ss) = Inr userID"
  shows "\<exists>s. ss (''session:'' @ c) = Some s \<and> session_live now s \<and> ParseInt (ses_user_id s) = Some userID \<and>
    (\<forall>x. ParseInt (ses_expires_at s) = Some x \<longrightarrow> Unix now \<le> x)"
  using assms unfolding session_Get_def by (auto split: fault.splits option.splits if_splits)

lemma RequireAuth_accepts:
  assumes "fst (RequireAuth env r now d ss) = Inr ctx"
  shows "\<exists>p. ctx = Some p \<and> snd (PrincipalFromContext ctx) \<and> session_holder r now d ss p"
proof -
  obtain c userID u where a: "req_same_origin r" "req_cookie r = Some c"
    "fst (session_Get (env_hmget env) (env_del env) c now ss) = Inr userID"
    "fst (user_call (env_store env) (GetUserWorkspace userID) now d) = Inr u"
    "ctx = Some \<lparr>pr_UserID = userID, pr_WorkspaceID = usr_WorkspaceID u, pr_Role = usr_Role u, pr_Global = False\<rparr>"
    "snd (PrincipalFromContext ctx)"
    using assms by (auto simp: RequireAuth_def Let_def split: if_splits option.splits sum.splits prod.splits)
  from a(4) have "fst (GetUserWorkspace userID now d) = Inr u" by (cases "env_store env") (simp_all add: user_call_def)
  from GetUserWorkspace_member [OF this] have "member d (the ctx)" using a(5) by (auto simp: member_def)
  with a session_Get_accepts [OF a(3)] show ?thesis by (auto simp: session_holder_def)
qed

lemma authorize_accepts:
  assumes inv: "users_inv d" and acc: "authorize hasAuth env path r now d ss = Inr ctx"
  shows "\<exists>p kind roles. ctx = Some p \<and> map_of routes path = Some (kind, roles) \<and> pr_Role p \<in> set roles \<and>
    snd (PrincipalFromContext ctx) \<and>
    (instance_key env r p \<or> hasAuth \<and> kind = Api \<and> key_holder env r d p \<or>
     hasAuth \<and> (kind = Ui \<or> req_key r = None) \<and> session_holder r now d ss p)"
proof -
  obtain kind roles where route: "map_of routes path = Some (kind, roles)"
    and g: "guard hasAuth env kind roles r now d ss = Inr ctx"
    using acc by (auto simp: authorize_def split: option.splits)
  let ?res = "if \<not> hasAuth then fst (APIKeyMiddleware env False r now d)
     else if kind = Ui then fst (RequireAuth env r now d ss) else fst (RequireCredentials env r now d ss)"
  have res: "?res = Inr ctx" and role: "fst (RoleFromContext ctx) \<in> set roles \<or> \<not> hasAuth \<and> kind = Ui \<and> fst (RoleFromContext ctx) \<in> {''admin'', ''operator''}"
    using g by (auto simp: guard_def RequireRole_def Let_def split: sum.splits prod.splits if_splits)
  have ui: "set roles = {''admin'', ''operator'', ''viewer''}" if "kind = Ui"
    using map_of_SomeD [OF route] that by (auto simp: routes_def Let_def)
  from res consider (none) "\<not> hasAuth" "fst (APIKeyMiddleware env False r now d) = Inr ctx"
    | (ui) "hasAuth" "kind = Ui" "fst (RequireAuth env r now d ss) = Inr ctx"
    | (key) "hasAuth" "kind = Api" "fst (APIKeyMiddleware env True r now d) = Inr ctx"
    | (session) "hasAuth" "req_key r = None" "fst (RequireAuth env r now d ss) = Inr ctx"
    by (cases kind) (auto simp: RequireCredentials_def split: if_splits prod.splits)
  then obtain p where "ctx = Some p" "snd (PrincipalFromContext ctx)"
    "instance_key env r p \<or> hasAuth \<and> kind = Api \<and> key_holder env r d p \<or>
     hasAuth \<and> (kind = Ui \<or> req_key r = None) \<and> session_holder r now d ss p"
    by cases (use APIKeyMiddleware_accepts [OF inv] RequireAuth_accepts in blast)+
  moreover from this have "pr_Role p \<in> set roles"
    using role ui by (auto simp: RoleFromContext_def PrincipalFromContext_def)
  ultimately show ?thesis using route by blast
qed

text \<open>
  C19 A request that reaches a handler behind the guards has one of the roles of its route, and it
  has it by one of the two keys of the instance, by a stored API key whose user is a member of the
  key's workspace with that role now, or, only when it presents no key at all, by a live session
  cookie of a member on a request that is not cross-origin. So a wrong key never falls back to a
  session.
\<close>

theorem authorize_sound:
  assumes inv: "users_inv d" and acc: "authorize hasAuth env path r now d ss = Inr ctx"
  shows "\<exists>p kind roles. ctx = Some p \<and> map_of routes path = Some (kind, roles) \<and> pr_Role p \<in> set roles \<and>
    snd (PrincipalFromContext ctx) \<and>
    (instance_key env r p \<or> hasAuth \<and> kind = Api \<and> key_holder env r d p \<or>
     hasAuth \<and> (kind = Ui \<or> req_key r = None) \<and> session_holder r now d ss p)"
  by (rule authorize_accepts [OF assms])

text \<open>The hypotheses hold for the operator of workspace 2 with a key.\<close>

theorem authorize_sound_witness:
  "\<exists>p. authorize True demo_env ''/v1/messages'' demo_request 7 demo_users Map.empty = Inr (Some p) \<and>
     member demo_users p \<and> pr_WorkspaceID p = 2"
proof -
  let ?auth = "authorize True demo_env ''/v1/messages'' demo_request 7 demo_users Map.empty"
  have "?auth = Inr (Some \<lparr>pr_UserID = 1, pr_WorkspaceID = 2, pr_Role = ''operator'', pr_Global = False\<rparr>)" by code_simp
  then obtain p where p: "?auth = Inr (Some p)" "\<not> pr_Global p" "pr_WorkspaceID p = 2" by simp
  from authorize_sound [OF demo_users_inv p(1)] p(2) have "member demo_users p"
    unfolding instance_key_def key_holder_def session_holder_def by blast
  with p show ?thesis by blast
qed

section \<open>Workspaces\<close>

lemma Workspace_cases:
  assumes "Workspace ctx requested = Inr ws"
  shows "\<exists>p. ctx = Some p \<and> 0 < ws \<and> (pr_Global p \<or> ws = pr_WorkspaceID p)"
  using assms by (auto simp: Workspace_def PrincipalFromContext_def split: option.splits if_splits)

lemma resolveWorkspace_cases:
  "resolveWorkspace ctx requested = Inr ws \<Longrightarrow> Workspace ctx requested = Inr ws"
  by (auto simp: resolveWorkspace_def split: sum.splits workspace_error.splits)

lemma writing_routes_roles:
  "path \<in> set writing_routes \<Longrightarrow> map_of routes path = Some (kind, roles) \<Longrightarrow> ''viewer'' \<notin> set roles"
  by (auto simp: writing_routes_def routes_def Let_def)

text \<open>
  Tenants are separated: the workspace a guarded request acts on, taken from its body or its
  query, is positive, and unless the request presented a key of the instance, it is a workspace of
  which its user is a member. A viewer reaches no route that changes anything.
\<close>

theorem tenant_confined:
  assumes inv: "users_inv d" and acc: "authorize hasAuth env path r now d ss = Inr ctx"
    and ws: "resolveWorkspace ctx requested = Inr ws \<or> workspaceFromQuery ctx vals = Inr ws"
  shows "0 < ws \<and>
    (presented r \<noteq> [] \<and> (presented r = env_admin env \<or> presented r = env_operator env) \<or>
     (\<exists>m \<in> set (udb_members d). mem_workspace_id m = ws \<and> mem_role m = fst (RoleFromContext ctx))) \<and>
    (path \<in> set writing_routes \<longrightarrow> fst (RoleFromContext ctx) \<noteq> ''viewer'')"
proof -
  obtain p kind roles where p: "ctx = Some p" "map_of routes path = Some (kind, roles)" "pr_Role p \<in> set roles"
    "instance_key env r p \<or> key_holder env r d p \<or> session_holder r now d ss p"
    using authorize_accepts [OF inv acc] by blast
  have role: "fst (RoleFromContext ctx) = pr_Role p" by (simp add: p(1) RoleFromContext_def PrincipalFromContext_def)
  have "\<exists>req. Workspace ctx req = Inr ws"
    using ws resolveWorkspace_cases
    by (auto simp: workspaceFromQuery_def split: if_splits option.splits)
  then have conf: "0 < ws" "pr_Global p \<or> ws = pr_WorkspaceID p" using Workspace_cases p(1) by fastforce+
  have "presented r \<noteq> [] \<and> (presented r = env_admin env \<or> presented r = env_operator env) \<or>
     (\<exists>m \<in> set (udb_members d). mem_workspace_id m = ws \<and> mem_role m = pr_Role p)"
    using p(4) conf(2) unfolding instance_key_def key_holder_def session_holder_def member_def by blast
  moreover have "path \<in> set writing_routes \<longrightarrow> pr_Role p \<noteq> ''viewer''"
    using p(3) writing_routes_roles [OF _ p(2)] by metis
  ultimately show ?thesis
    using conf(1) unfolding role by (intro conjI)
qed

text \<open>The hypotheses hold for the operator who asks for no workspace in particular.\<close>

theorem tenant_confined_witness:
  "resolveWorkspace (Some \<lparr>pr_UserID = 1, pr_WorkspaceID = 2, pr_Role = ''operator'', pr_Global = False\<rparr>) 0 = Inr 2 \<and>
     (\<exists>m \<in> set (udb_members demo_users). mem_workspace_id m = 2)"
proof -
  let ?p = "\<lparr>pr_UserID = 1, pr_WorkspaceID = 2, pr_Role = ''operator'', pr_Global = False\<rparr>"
  have acc: "authorize True demo_env ''/v1/messages'' demo_request 7 demo_users Map.empty = Inr (Some ?p)" by code_simp
  have ws: "resolveWorkspace (Some ?p) 0 = Inr 2" by code_simp
  have "\<not> (presented demo_request \<noteq> [] \<and> (presented demo_request = env_admin demo_env \<or> presented demo_request = env_operator demo_env))"
    by code_simp
  with tenant_confined [OF demo_users_inv acc disjI1 [OF ws]] ws show ?thesis by blast
qed

end
