(* ===== verification/Service_Reads.thy ===== *)
theory Service_Reads
  imports Webhook_Service "HOL-Library.List_Lexorder" "HOL-Library.Char_ord"
begin

text \<open>
  The rest of the message service (\<open>src/internal/service/message_service.go\<close>): metering summaries
  and the CSV export with their queries (\<open>src/internal/store/postgres/postgres.go\<close>), taking an id
  from the queue, timelines, logs, the onboarding checklist and the incident bundle; and the domain
  checks (\<open>src/internal/domaincheck/checker.go\<close>, \<open>src/internal/service/domain_service.go\<close>) over DNS
  answers that are a parameter.
\<close>

section \<open>Definitions\<close>

record MeteringSummaryItem =
  msi_EventType :: string
  msi_Total :: int

text \<open>
  \<open>GROUP BY event_type ORDER BY event_type\<close>, in the order of the bytes; the event types are names in
  lower case with underscores.
\<close>

definition metered :: "int \<Rightarrow> go_time \<Rightarrow> go_time \<Rightarrow> db \<Rightarrow> MeteringEvent list" where
  "metered ws from to d =
     filter (\<lambda>e. met_WorkspaceID e = ws \<and> from \<le> met_CreatedAt e \<and> met_CreatedAt e < to) (db_metering d)"

definition MeteringSummary :: "int \<Rightarrow> go_time \<Rightarrow> go_time \<Rightarrow> MeteringSummaryItem list dbop" where
  "MeteringSummary ws from to now d =
     (let rows = metered ws from to d in
      (Inr (map (\<lambda>t. \<lparr>msi_EventType = t, msi_Total = sum_list (map met_Quantity (filter (\<lambda>e. met_EventType e = t) rows))\<rparr>)
          (sort (remdups (map met_EventType rows)))), d))"

text \<open>\<open>time.RFC3339\<close> formatting is the parameter \<open>fmt\<close>.\<close>

definition csv_line :: "(go_time \<Rightarrow> string) \<Rightarrow> Message \<Rightarrow> string" where
  "csv_line fmt m =
     Join [FormatInt (msg_ID m), csvEscape (msg_FromEmail m), csvEscape (msg_ToEmail m), csvEscape (msg_Subject m),
       csvEscape (msg_Status m), csvEscape (fmt (msg_CreatedAt m)), csvEscape (fmt (msg_UpdatedAt m))] '',''"

definition csv_header :: string where
  "csv_header = ''id,from_email,to_email,subject,status,created_at,updated_at''"

definition export_rows :: "int \<Rightarrow> int \<Rightarrow> db \<Rightarrow> Message list" where
  "export_rows ws limit d =
     take (nat (clamp_limit 500 5000 limit))
       (sort_key (\<lambda>m. - msg_CreatedAt m) (filter (\<lambda>m. msg_WorkspaceID m = ws) (db_messages d)))"

definition ExportMessageLogsCSV :: "(go_time \<Rightarrow> string) \<Rightarrow> int \<Rightarrow> int \<Rightarrow> string dbop" where
  "ExportMessageLogsCSV fmt ws limit now d =
     (Inr (csv_header @ [CHR 0x0A] @ concat (map (\<lambda>m. csv_line fmt m @ [CHR 0x0A]) (export_rows ws limit d))), d)"

text \<open>Routines of the service that pass a call on or only read.\<close>

definition Bootstrap :: "unit result io" where
  "Bootstrap = store EnsureDefaultWorkspace"

text \<open>
  \<open>Dequeue\<close> of the queue, two calls: the script, and, when it finds nothing, the blocking pop;
  \<open>arrival\<close> is what another process pushes while it blocks.
\<close>

definition on_pop :: "(redis_queue \<Rightarrow> 'a \<times> redis_queue) \<Rightarrow> go_time \<Rightarrow> shared \<Rightarrow> 'a result \<times> shared" where
  "on_pop f t sh = (case f (sh_queue sh) of (r, q) \<Rightarrow> (Inr r, sh\<lparr>sh_queue := q\<rparr>))"

definition Dequeue :: "string option \<Rightarrow> int option result io" where
  "Dequeue arrival = do {
     r \<leftarrow> call (\<lambda>t. on_pop (popNext t) t);
     case r of
       Inl e \<Rightarrow> State_Monad.return (Inl e)
     | Inr (Some i) \<Rightarrow> State_Monad.return (Inr (Some i))
     | Inr None \<Rightarrow> do {
         r \<leftarrow> call (on_pop (BRPop arrival));
         State_Monad.return (case r of
           Inl e \<Rightarrow> Inl e
         | Inr None \<Rightarrow> Inr None
         | Inr (Some s) \<Rightarrow> (case ParseInt s of None \<Rightarrow> Inl (ErrText ''invalid syntax'') | Some i \<Rightarrow> Inr (Some i))) }}"

definition PopQueue :: "string option \<Rightarrow> int option result io" where
  "PopQueue arrival = Dequeue arrival"

definition MessageTimeline :: "int \<Rightarrow> (Message \<times> MessageAttempt list) result io" where
  "MessageTimeline messageID = do {
     r \<leftarrow> store (GetMessage messageID);
     case r of Inl e \<Rightarrow> State_Monad.return (Inl e) | Inr m \<Rightarrow> do {
     r \<leftarrow> store (ListMessageAttempts messageID);
     State_Monad.return (case r of Inl e \<Rightarrow> Inl e | Inr attempts \<Rightarrow> Inr (m, attempts)) }}"

definition MessageLogs :: "int \<Rightarrow> int \<Rightarrow> go_time \<Rightarrow> go_time \<Rightarrow> Message list result io" where
  "MessageLogs workspaceID limit from to = store (ListMessages workspaceID limit from to)"

record OnboardingChecklistItem =
  oci_ID :: string
  oci_Title :: string
  oci_Description :: string
  oci_Done :: bool
  oci_Evidence :: string
  oci_Action :: string

record OnboardingChecklist =
  och_WorkspaceID :: int
  och_GeneratedAt :: go_time
  och_Completed :: int
  och_Total :: int
  och_Items :: "OnboardingChecklistItem list"

definition FormatBool :: "bool \<Rightarrow> string" where
  "FormatBool b = (if b then ''true'' else ''false'')"

definition checklist_items :: "SMTPAccountSummary list \<Rightarrow> WorkspacePolicy \<Rightarrow> Message list \<Rightarrow> WebhookEvent list
    \<Rightarrow> OnboardingChecklistItem list" where
  "checklist_items accounts policy messages webhooks =
     (let hasActive = list_ex sum_Active accounts; n = int (length accounts) in
      [\<lparr>oci_ID = ''smtp_account_configured'', oci_Title = ''Configure SMTP Account'',
        oci_Description = ''At least one workspace SMTP account is configured.'', oci_Done = n > 0,
        oci_Evidence = FormatInt n @ '' account(s) configured'',
        oci_Action = ''POST /v1/smtp-accounts and POST /v1/smtp-accounts/validate''\<rparr>,
       \<lparr>oci_ID = ''active_smtp_provider_selected'', oci_Title = ''Select Active Provider'',
        oci_Description = ''One SMTP account is marked active.'', oci_Done = hasActive,
        oci_Evidence = ''active provider found: '' @ FormatBool hasActive,
        oci_Action = ''POST /v1/smtp-accounts/activate''\<rparr>,
       \<lparr>oci_ID = ''provider_failover_ready'', oci_Title = ''Prepare Provider Failover'',
        oci_Description = ''At least two SMTP accounts are available for failover.'', oci_Done = n \<ge> 2,
        oci_Evidence = FormatInt n @ '' provider profile(s) available'',
        oci_Action = ''Add at least one standby SMTP provider for failover''\<rparr>,
       \<lparr>oci_ID = ''workspace_policy_reviewed'', oci_Title = ''Review Workspace Policy'',
        oci_Description = ''Workspace rate limits and blocked domains are set.'',
        oci_Done = (pol_RateLimitWorkspacePerHour policy > 0 \<and> pol_RateLimitDomainPerHour policy > 0),
        oci_Evidence = ''workspace/hour='' @ FormatInt (pol_RateLimitWorkspacePerHour policy) @ '', domain/hour='' @
          FormatInt (pol_RateLimitDomainPerHour policy) @ '', blocked_domains='' @
          FormatInt (int (length (pol_BlockedRecipientDomains policy))),
        oci_Action = ''GET/POST /v1/workspaces/policy''\<rparr>,
       \<lparr>oci_ID = ''message_flow_verified'', oci_Title = ''Verify Message Flow'',
        oci_Description = ''At least one message has been queued and tracked.'', oci_Done = messages \<noteq> [],
        oci_Evidence = ''recent messages observed: '' @ FormatInt (int (length messages)),
        oci_Action = ''POST /v1/messages and review /v1/messages/logs''\<rparr>,
       \<lparr>oci_ID = ''webhook_flow_verified'', oci_Title = ''Verify Webhook Processing'',
        oci_Description = ''At least one webhook event has been processed.'', oci_Done = webhooks \<noteq> [],
        oci_Evidence = ''recent webhook events observed: '' @ FormatInt (int (length webhooks)),
        oci_Action = ''POST /v1/webhooks/events and review /v1/webhooks/logs''\<rparr>])"

definition TechnicalOnboardingChecklist :: "MessageService \<Rightarrow> int \<Rightarrow> OnboardingChecklist result io" where
  "TechnicalOnboardingChecklist s workspaceID = do {
     let workspaceID = (if workspaceID = 0 then 1 else workspaceID);
     r \<leftarrow> store (ListSMTPAccounts workspaceID);
     case r of Inl e \<Rightarrow> State_Monad.return (Inl e) | Inr accounts \<Rightarrow> do {
     r \<leftarrow> workspacePolicy s workspaceID;
     case r of Inl e \<Rightarrow> State_Monad.return (Inl e) | Inr policy \<Rightarrow> do {
     r \<leftarrow> store (ListMessages workspaceID 1 zero_time zero_time);
     case r of Inl e \<Rightarrow> State_Monad.return (Inl e) | Inr messages \<Rightarrow> do {
     r \<leftarrow> store (ListWebhookEvents workspaceID 1 [] zero_time zero_time);
     case r of Inl e \<Rightarrow> State_Monad.return (Inl e) | Inr webhooks \<Rightarrow> do {
     now \<leftarrow> time_Now;
     let items = checklist_items accounts policy messages webhooks;
     State_Monad.return (Inr \<lparr>och_WorkspaceID = workspaceID, och_GeneratedAt = now,
       och_Completed = int (length (filter oci_Done items)), och_Total = int (length items), och_Items = items\<rparr>) }}}}}"

record IncidentBundleSummary =
  ibs_AttemptedSends :: int
  ibs_FailedAttempts :: int
  ibs_RelatedWebhookOutcomes :: int
  ibs_DeadLetterWebhooks :: int

record IncidentBundle_record =
  inc_WorkspaceID :: int
  inc_MessageID :: int
  inc_GeneratedAt :: go_time
  inc_WebhookWindowFrom :: go_time
  inc_WebhookWindowTo :: go_time
  inc_Message :: Message
  inc_Attempts :: "MessageAttempt list"
  inc_WebhookOutcomes :: "WebhookEvent list"
  inc_Summary :: IncidentBundleSummary

definition IncidentBundle :: "int \<Rightarrow> int \<Rightarrow> IncidentBundle_record result io" where
  "IncidentBundle workspaceID messageID =
     (let workspaceID = (if workspaceID = 0 then 1 else workspaceID) in
      if messageID \<le> 0 then State_Monad.return (Inl (ErrText ''message_id is required''))
      else do {
        r \<leftarrow> MessageTimeline messageID;
        case r of Inl e \<Rightarrow> State_Monad.return (Inl e) | Inr (message, attempts) \<Rightarrow>
        if msg_WorkspaceID message \<noteq> workspaceID then State_Monad.return (Inl (ErrText ''workspace mismatch''))
        else do {
          let from = msg_CreatedAt message - 24 * Hour;
          let to = msg_UpdatedAt message + 24 * Hour;
          let to = (if \<not> from < to then from + 48 * Hour else to);
          r \<leftarrow> store (ListWebhookEvents workspaceID 200 [] from to);
          case r of Inl e \<Rightarrow> State_Monad.return (Inl e) | Inr webhooks \<Rightarrow> do {
          let recipient = ToLower (TrimSpace (msg_ToEmail message));
          let related = filter (\<lambda>e. ToLower (TrimSpace (evt_Email e)) = recipient) webhooks;
          now \<leftarrow> time_Now;
          State_Monad.return (Inr \<lparr>inc_WorkspaceID = workspaceID, inc_MessageID = messageID, inc_GeneratedAt = now,
            inc_WebhookWindowFrom = from, inc_WebhookWindowTo = to, inc_Message = message, inc_Attempts = attempts,
            inc_WebhookOutcomes = related,
            inc_Summary = \<lparr>ibs_AttemptedSends = int (length attempts),
              ibs_FailedAttempts = int (length (filter (\<lambda>a. \<not> att_Success a) attempts)),
              ibs_RelatedWebhookOutcomes = int (length related),
              ibs_DeadLetterWebhooks = int (length (filter (\<lambda>e. EqualFold (evt_Status e) ''dead_letter'') related))\<rparr>\<rparr>) }}})"

text \<open>DNS answers to a TXT lookup, and the checks of \<open>domaincheck\<close> and the domain service.\<close>

datatype dns_answer = Txt "string list" | NotFound | DnsFailure go_error

record readiness =
  rdy_Domain :: string
  rdy_DKIMSelector :: string
  rdy_SPFValid :: bool
  rdy_DKIMValid :: bool
  rdy_DMARCValid :: bool
  rdy_Ready :: bool

definition lookup_any :: "(string \<Rightarrow> bool) \<Rightarrow> dns_answer \<Rightarrow> bool result" where
  "lookup_any p a =
     (case a of Txt txt \<Rightarrow> Inr (list_ex p txt) | NotFound \<Rightarrow> Inr False | DnsFailure e \<Rightarrow> Inl e)"

definition domain_Check :: "(string \<Rightarrow> dns_answer) \<Rightarrow> string \<Rightarrow> string \<Rightarrow> readiness result" where
  "domain_Check dns name dkimSelector =
     (let dkimSelector = (if dkimSelector = [] then ''default'' else dkimSelector);
          name = TrimSpace (ToLower name)
      in case lookup_any (\<lambda>v. HasPrefix (ToLower (TrimSpace v)) ''v=spf1'') (dns name) of
           Inl e \<Rightarrow> Inl e
         | Inr spfValid \<Rightarrow>
            (case lookup_any (\<lambda>v. Contains (ToLower v) ''v=dkim1'') (dns (dkimSelector @ ''._domainkey.'' @ name)) of
               Inl e \<Rightarrow> Inl e
             | Inr dkimValid \<Rightarrow>
                (case lookup_any (\<lambda>v. HasPrefix (ToLower (TrimSpace v)) ''v=dmarc1'') (dns (''_dmarc.'' @ name)) of
                   Inl e \<Rightarrow> Inl e
                 | Inr dmarcValid \<Rightarrow>
                     Inr \<lparr>rdy_Domain = name, rdy_DKIMSelector = dkimSelector, rdy_SPFValid = spfValid,
                       rdy_DKIMValid = dkimValid, rdy_DMARCValid = dmarcValid,
                       rdy_Ready = (spfValid \<and> dkimValid \<and> dmarcValid)\<rparr>)))"

definition InspectReadiness :: "(string \<Rightarrow> dns_answer) \<Rightarrow> string \<Rightarrow> string \<Rightarrow> readiness result" where
  "InspectReadiness dns name dkimSelector = domain_Check dns (TrimSpace name) (TrimSpace dkimSelector)"

definition CheckReadiness :: "(string \<Rightarrow> dns_answer) \<Rightarrow> int \<Rightarrow> string \<Rightarrow> string \<Rightarrow> readiness result io" where
  "CheckReadiness dns workspaceID name dkimSelector =
     (case InspectReadiness dns name dkimSelector of
        Inl e \<Rightarrow> State_Monad.return (Inl e)
      | Inr result \<Rightarrow> do {
          r \<leftarrow> store (UpsertDomainVerification workspaceID (rdy_Domain result) (rdy_Ready result));
          State_Monad.return (case r of Inl e \<Rightarrow> Inl e | Inr _ \<Rightarrow> Inr result) })"

end
