(* ===== verification/Api_Handlers.thy ===== *)
theory Api_Handlers
  imports Service_Reads Webhook_Sig Webhook_Parser Access
begin

text \<open>
  The handlers of the HTTP API (\<open>src/internal/api/http.go\<close>, and the pages of
  \<open>src/internal/api/ui_v040.go\<close>), one definition each, from the method check to the response. A
  handler gets the principal its guard put into the context, and acts on the world through the
  service. \<open>encoding/json\<close>, the layout of times and the template engine are parameters in the record
  \<open>Handler\<close>; a response is its status and what is encoded in its body.
\<close>

section \<open>Definitions\<close>

text \<open>
  What \<open>json.Decode\<close> makes of a request body: the struct, \<open>io.EOF\<close> for an empty body, or another
  error.
\<close>

datatype 'a decoded = Decoded 'a | DecodeEOF | DecodeError

record createMessageRequest =
  cmr_WorkspaceID :: int
  cmr_FromEmail :: string
  cmr_ToEmail :: string
  cmr_Subject :: string
  cmr_BodyText :: string

record createSuppressionRequest =
  csr_WorkspaceID :: int
  csr_Email :: string
  csr_Reason :: string

record createUnsubscribeRequest =
  cur_WorkspaceID :: int
  cur_Email :: string
  cur_Reason :: string

record upsertSMTPAccountRequest =
  uar_WorkspaceID :: int
  uar_Name :: string
  uar_Host :: string
  uar_Port :: int
  uar_Username :: string
  uar_Password :: string
  uar_FromEmail :: string
  uar_TLSMode :: string

record activateSMTPAccountRequest =
  aar_WorkspaceID :: int
  aar_Name :: string

record upsertWorkspacePolicyRequest =
  upr_WorkspaceID :: int
  upr_RateLimitWorkspacePerHour :: int
  upr_RateLimitDomainPerHour :: int
  upr_BlockedRecipientDomains :: "string list"

record checkDomainReadinessRequest =
  cdr_WorkspaceID :: int
  cdr_Domain :: string
  cdr_DKIMSelector :: string

record validateSMTPAccountRequest =
  var_WorkspaceID :: int

record replayWebhookDeadLettersRequest =
  rwr_WorkspaceID :: int
  rwr_EventIDs :: "int list"
  rwr_Limit :: int

record retryMessagesRequest =
  rmr_WorkspaceID :: int
  rmr_MessageIDs :: "int list"
  rmr_Limit :: int

text \<open>\<open>encoding/json\<close>, one decoder for each struct.\<close>

record decoders =
  dec_message :: "string \<Rightarrow> createMessageRequest decoded"
  dec_suppression :: "string \<Rightarrow> createSuppressionRequest decoded"
  dec_unsubscribe :: "string \<Rightarrow> createUnsubscribeRequest decoded"
  dec_account :: "string \<Rightarrow> upsertSMTPAccountRequest decoded"
  dec_activate :: "string \<Rightarrow> activateSMTPAccountRequest decoded"
  dec_policy :: "string \<Rightarrow> upsertWorkspacePolicyRequest decoded"
  dec_readiness :: "string \<Rightarrow> checkDomainReadinessRequest decoded"
  dec_validate :: "string \<Rightarrow> validateSMTPAccountRequest decoded"
  dec_replay :: "string \<Rightarrow> replayWebhookDeadLettersRequest decoded"
  dec_retry :: "string \<Rightarrow> retryMessagesRequest decoded"
  dec_any :: "string \<Rightarrow> json option"

text \<open>
  The handler: the service, the DNS, the webhook verifier, and what stands for code outside the
  program: \<open>encoding/json\<close>, SHA-256, HMAC, the layout \<open>time.RFC3339\<close>, the template engine, and the
  rows other transactions hold locked.
\<close>

record Handler =
  hd_messages :: MessageService
  hd_dns :: "string \<Rightarrow> dns_answer"
  hd_verifier :: Verifier
  hd_json :: decoders
  hd_sha256 :: "string \<Rightarrow> string"
  hd_hmac :: "string \<Rightarrow> string \<Rightarrow> string"
  hd_parse_time :: "string \<Rightarrow> go_time option"
  hd_fmt_time :: "go_time \<Rightarrow> string"
  hd_render :: "string \<Rightarrow> bool"
  hd_locked :: "int \<Rightarrow> bool"
  hd_webhooksEnabled :: bool

text \<open>A request as the handlers see it; a body that cannot be read is \<open>None\<close>.\<close>

record api_request =
  arq_method :: string
  arq_query :: "string \<Rightarrow> string list"
  arq_body :: "string option"
  arq_timestamp :: string
  arq_signature :: string

datatype payload =
    PlainText string
  | JsonError string
  | JMessage Message
  | JListed int string string string
  | JAccountSaved int string string int string string
  | JAccountActive int string
  | JAccounts int "SMTPAccountSummary list"
  | JReadiness readiness
  | JValid int string
  | JTimeline Message "MessageAttempt list"
  | JChecklist OnboardingChecklist
  | JIncident IncidentBundle_record
  | JMessages int string string "Message list"
  | JEvents int string string string "WebhookEvent list"
  | JReplay WebhookReplayResult
  | JRetry MessageRetryResult
  | JPolicy WorkspacePolicy
  | JAnalytics int string string "MeteringSummaryItem list"
  | JMetering int string string "MeteringSummaryItem list"
  | Csv string
  | Page int string
  | PolicyPage WorkspacePolicy
  | JEventAccepted int string string
  | JEventCounts int int int int

type_synonym response = "int \<times> payload"

definition HTTPInternalError :: "go_error \<Rightarrow> string" where
  "HTTPInternalError e = ''internal server error''"

definition method_not_allowed :: response where
  "method_not_allowed = (405, PlainText ''method not allowed'')"

definition rejected_with :: "rejection \<Rightarrow> response" where
  "rejected_with e = (fst e, JsonError (snd e))"

definition internal_error :: "go_error \<Rightarrow> response" where
  "internal_error e = (500, JsonError (HTTPInternalError e))"

text \<open>\<open>r.URL.Query().Get(key)\<close>.\<close>

definition query_Get :: "api_request \<Rightarrow> string \<Rightarrow> string" where
  "query_Get r key = (case arq_query r key of [] \<Rightarrow> [] | v # _ \<Rightarrow> v)"

definition parseFromTo :: "Handler \<Rightarrow> api_request \<Rightarrow> go_time \<Rightarrow> go_time \<times> go_time" where
  "parseFromTo h r now =
     (let read = (\<lambda>key fallback. let raw = TrimSpace (query_Get r key) in
            if raw \<noteq> [] then (case hd_parse_time h raw of Some t \<Rightarrow> t | None \<Rightarrow> fallback) else fallback);
          from = read ''from'' (now - 24 * Hour);
          to = read ''to'' now
      in (from, if \<not> from < to then from + 24 * Hour else to))"

definition parseFromToOptional :: "Handler \<Rightarrow> api_request \<Rightarrow> go_time \<times> go_time" where
  "parseFromToOptional h r =
     (let read = (\<lambda>key. let raw = TrimSpace (query_Get r key) in
            if raw \<noteq> [] then (case hd_parse_time h raw of Some t \<Rightarrow> t | None \<Rightarrow> zero_time) else zero_time);
          from = read ''from'';
          to = read ''to''
      in (from, if from \<noteq> zero_time \<and> to \<noteq> zero_time \<and> \<not> from < to then from + 24 * Hour else to))"

definition formatRFC3339OrEmpty :: "Handler \<Rightarrow> go_time \<Rightarrow> string" where
  "formatRFC3339OrEmpty h t = (if t = zero_time then [] else hd_fmt_time h t)"

text \<open>
  The steps every handler begins with. A handler that posts decodes its body and settles its
  workspace; one that reads takes the workspace from its query.
\<close>

definition respond :: "response \<Rightarrow> response io" where
  "respond a = State_Monad.return a"

definition body_text :: "api_request \<Rightarrow> string" where
  "body_text r = (case arq_body r of None \<Rightarrow> [] | Some b \<Rightarrow> b)"

definition decode :: "(string \<Rightarrow> 'a decoded) \<Rightarrow> api_request \<Rightarrow> 'a decoded" where
  "decode f r = (case arq_body r of None \<Rightarrow> DecodeError | Some b \<Rightarrow> f b)"

definition in_workspace :: "Principal option \<Rightarrow> int \<Rightarrow> (int \<Rightarrow> response io) \<Rightarrow> response io" where
  "in_workspace ctx requested k =
     (case resolveWorkspace ctx requested of Inl e \<Rightarrow> respond (rejected_with e) | Inr ws \<Rightarrow> k ws)"

definition posting :: "api_request \<Rightarrow> 'a decoded \<Rightarrow> ('a \<Rightarrow> response io) \<Rightarrow> response io" where
  "posting r d k =
     (if arq_method r \<noteq> ''POST'' then respond method_not_allowed
      else case d of Decoded req \<Rightarrow> k req | _ \<Rightarrow> respond (400, PlainText ''invalid JSON body''))"

definition reading :: "Principal option \<Rightarrow> api_request \<Rightarrow> (int \<Rightarrow> response io) \<Rightarrow> response io" where
  "reading ctx r k =
     (if arq_method r \<noteq> ''GET'' then respond method_not_allowed
      else case workspaceFromQuery ctx (arq_query r ''workspace_id'') of Inl e \<Rightarrow> respond (rejected_with e) | Inr ws \<Rightarrow> k ws)"

definition createMessage :: "Handler \<Rightarrow> Principal option \<Rightarrow> api_request \<Rightarrow> response io" where
  "createMessage h ctx r = posting r (decode (dec_message (hd_json h)) r) (\<lambda>req.
     in_workspace ctx (cmr_WorkspaceID req) (\<lambda>ws.
       if TrimSpace (cmr_FromEmail req) = [] \<or> TrimSpace (cmr_ToEmail req) = [] \<or> TrimSpace (cmr_Subject req) = []
       then respond (400, PlainText ''from_email, to_email, and subject are required'')
       else do {
         res \<leftarrow> QueueMessage (hd_messages h) ws (cmr_FromEmail req) (cmr_ToEmail req) (cmr_Subject req) (cmr_BodyText req);
         respond (case res of
           Inr m \<Rightarrow> (201, JMessage m)
         | Inl e \<Rightarrow>
             if errors_Is (\<lambda>x. x = ErrBadRequest) e then (400, JsonError ''invalid recipient email'')
             else if errors_Is (\<lambda>x. x = ErrBlockedRecipientDomain) e then (400, JsonError ''recipient domain is blocked'')
             else if errors_Is is_ErrRateLimited e then (429, JsonError ''rate limit exceeded'')
             else internal_error e) }))"

definition createSuppression :: "Handler \<Rightarrow> Principal option \<Rightarrow> api_request \<Rightarrow> response io" where
  "createSuppression h ctx r = posting r (decode (dec_suppression (hd_json h)) r) (\<lambda>req.
     in_workspace ctx (csr_WorkspaceID req) (\<lambda>ws.
       if TrimSpace (csr_Email req) = [] then respond (400, PlainText ''email is required'')
       else do {
         let reason = (if TrimSpace (csr_Reason req) = [] then ''manual'' else csr_Reason req);
         res \<leftarrow> store (AddSuppression ws (csr_Email req) reason);
         respond (case res of Inl e \<Rightarrow> internal_error e | Inr _ \<Rightarrow> (201, JListed ws (csr_Email req) reason ''suppressed'')) }))"

definition createUnsubscribe :: "Handler \<Rightarrow> Principal option \<Rightarrow> api_request \<Rightarrow> response io" where
  "createUnsubscribe h ctx r = posting r (decode (dec_unsubscribe (hd_json h)) r) (\<lambda>req.
     in_workspace ctx (cur_WorkspaceID req) (\<lambda>ws.
       if TrimSpace (cur_Email req) = [] then respond (400, PlainText ''email is required'')
       else do {
         let reason = (if TrimSpace (cur_Reason req) = [] then ''user_unsubscribed'' else cur_Reason req);
         res \<leftarrow> store (AddUnsubscribe ws (cur_Email req) reason);
         respond (case res of Inl e \<Rightarrow> internal_error e | Inr _ \<Rightarrow> (201, JListed ws (cur_Email req) reason ''unsubscribed'')) }))"

definition upsertSMTPAccount :: "Handler \<Rightarrow> Principal option \<Rightarrow> api_request \<Rightarrow> response io" where
  "upsertSMTPAccount h ctx r = posting r (decode (dec_account (hd_json h)) r) (\<lambda>req.
     in_workspace ctx (uar_WorkspaceID req) (\<lambda>ws.
       let name = (if TrimSpace (uar_Name req) = [] then ''default'' else uar_Name req) in
       if TrimSpace (uar_Host req) = [] \<or> uar_Port req = 0 \<or> TrimSpace (uar_FromEmail req) = []
       then respond (400, PlainText ''host, port, and from_email are required'')
       else case NormalizeTLSMode (uar_TLSMode req) of
         Inl e \<Rightarrow> respond (400, PlainText (Error_text e))
       | Inr tlsMode \<Rightarrow>
           if tlsMode = TLSModeNone \<and> (uar_Username req \<noteq> [] \<or> uar_Password req \<noteq> [])
           then respond (400, PlainText ''SMTP authentication requires TLS'')
           else do {
             res \<leftarrow> UpsertSMTPAccount (hd_messages h)
               \<lparr>acc_WorkspaceID = ws, acc_Name = name, acc_Host = uar_Host req, acc_Port = uar_Port req,
                acc_Username = uar_Username req, acc_Password = uar_Password req, acc_FromEmail = uar_FromEmail req,
                acc_TLSMode = tlsMode\<rparr>;
             respond (case res of
               Inl e \<Rightarrow> internal_error e
             | Inr _ \<Rightarrow> (201, JAccountSaved ws name (uar_Host req) (uar_Port req) (uar_FromEmail req) tlsMode)) }))"

definition activateSMTPAccount :: "Handler \<Rightarrow> Principal option \<Rightarrow> api_request \<Rightarrow> response io" where
  "activateSMTPAccount h ctx r = posting r (decode (dec_activate (hd_json h)) r) (\<lambda>req.
     in_workspace ctx (aar_WorkspaceID req) (\<lambda>ws.
       let name = TrimSpace (aar_Name req) in
       if name = [] then respond (400, PlainText ''name is required'')
       else do {
         res \<leftarrow> store (SetActiveSMTPAccount ws name);
         respond (case res of Inl e \<Rightarrow> (400, JsonError (HTTPInternalError e)) | Inr _ \<Rightarrow> (200, JAccountActive ws name)) }))"

definition listSMTPAccounts :: "Handler \<Rightarrow> Principal option \<Rightarrow> api_request \<Rightarrow> response io" where
  "listSMTPAccounts h ctx r = reading ctx r (\<lambda>ws. do {
     res \<leftarrow> store (ListSMTPAccounts ws);
     respond (case res of Inl e \<Rightarrow> internal_error e | Inr accounts \<Rightarrow> (200, JAccounts ws accounts)) })"

definition checkDomainReadiness :: "Handler \<Rightarrow> Principal option \<Rightarrow> api_request \<Rightarrow> response io" where
  "checkDomainReadiness h ctx r = posting r (decode (dec_readiness (hd_json h)) r) (\<lambda>req.
     in_workspace ctx (cdr_WorkspaceID req) (\<lambda>ws.
       if TrimSpace (cdr_Domain req) = [] then respond (400, PlainText ''domain is required'')
       else do {
         res \<leftarrow> CheckReadiness (hd_dns h) ws (cdr_Domain req) (cdr_DKIMSelector req);
         respond (case res of Inl e \<Rightarrow> internal_error e | Inr result \<Rightarrow> (200, JReadiness result)) }))"

definition validateSMTPAccount :: "Handler \<Rightarrow> Principal option \<Rightarrow> api_request \<Rightarrow> response io" where
  "validateSMTPAccount h ctx r = posting r (decode (dec_validate (hd_json h)) r) (\<lambda>req.
     in_workspace ctx (var_WorkspaceID req) (\<lambda>ws. do {
       res \<leftarrow> ValidateSMTPAccount (hd_messages h) ws;
       respond (case res of
         Inl e \<Rightarrow> (400, JsonError (SMTPError (Error_text e)))
       | Inr provider \<Rightarrow> (200, JValid ws provider)) }))"

definition messageTimeline :: "Handler \<Rightarrow> Principal option \<Rightarrow> api_request \<Rightarrow> response io" where
  "messageTimeline h ctx r =
     (if arq_method r \<noteq> ''GET'' then respond method_not_allowed
      else case parseInt64Query (arq_query r ''message_id'') 0 of
        None \<Rightarrow> respond (400, PlainText ''message_id is required'')
      | Some messageID \<Rightarrow>
          if messageID \<le> 0 then respond (400, PlainText ''message_id is required'')
          else do {
            res \<leftarrow> MessageTimeline messageID;
            respond (case res of
              Inl e \<Rightarrow> if errors_Is (\<lambda>x. x = ErrMessageNotFound) e then (404, JsonError ''message not found'') else internal_error e
            | Inr (message, attempts) \<Rightarrow>
                (case Workspace ctx (msg_WorkspaceID message) of
                   Inl _ \<Rightarrow> (404, JsonError ''message not found'')
                 | Inr _ \<Rightarrow> (200, JTimeline message attempts))) })"

text \<open>The item that \<open>onboardingChecklist\<close> adds when the request names a domain.\<close>

definition readiness_item :: "Handler \<Rightarrow> string \<Rightarrow> string \<Rightarrow> OnboardingChecklistItem" where
  "readiness_item h domainName dkimSelector =
     (let res = InspectReadiness (hd_dns h) domainName dkimSelector in
      \<lparr>oci_ID = ''domain_readiness_checked'', oci_Title = ''Check Domain Readiness'',
       oci_Description = ''SPF, DKIM, and DMARC readiness has been validated for the sending domain.'',
       oci_Done = (case res of Inl _ \<Rightarrow> False | Inr result \<Rightarrow> rdy_Ready result),
       oci_Evidence = (case res of
          Inl _ \<Rightarrow> ''domain readiness check failed''
        | Inr result \<Rightarrow> ''spf='' @ FormatBool (rdy_SPFValid result) @ '', dkim='' @ FormatBool (rdy_DKIMValid result) @
            '', dmarc='' @ FormatBool (rdy_DMARCValid result)),
       oci_Action = ''POST /v1/domains/readiness''\<rparr>)"

definition onboardingChecklist :: "Handler \<Rightarrow> Principal option \<Rightarrow> api_request \<Rightarrow> response io" where
  "onboardingChecklist h ctx r = reading ctx r (\<lambda>ws. do {
     res \<leftarrow> TechnicalOnboardingChecklist (hd_messages h) ws;
     respond (case res of
       Inl e \<Rightarrow> internal_error e
     | Inr checklist \<Rightarrow>
        (let domainName = TrimSpace (query_Get r ''domain'');
             items = och_Items checklist @ [readiness_item h domainName (TrimSpace (query_Get r ''dkim_selector''))]
         in (200, JChecklist (if domainName = [] then checklist
              else checklist\<lparr>och_Items := items, och_Total := int (length items),
                     och_Completed := int (length (filter oci_Done items))\<rparr>)))) })"

definition incidentBundleExport :: "Handler \<Rightarrow> Principal option \<Rightarrow> api_request \<Rightarrow> response io" where
  "incidentBundleExport h ctx r = reading ctx r (\<lambda>ws.
     case parseInt64Query (arq_query r ''message_id'') 0 of
       None \<Rightarrow> respond (400, PlainText ''message_id is required'')
     | Some messageID \<Rightarrow>
         if messageID \<le> 0 then respond (400, PlainText ''message_id is required'')
         else do {
           res \<leftarrow> IncidentBundle ws messageID;
           respond (case res of
             Inl e \<Rightarrow>
               if errors_Is (\<lambda>x. x = ErrMessageNotFound) e \<or> Contains (ToLower (Error_text e)) ''workspace mismatch''
               then (404, JsonError ''message not found for workspace'') else internal_error e
           | Inr bundle \<Rightarrow> (200, JIncident bundle)) })"

text \<open>The limit of a list, read untrimmed by \<open>Atoi\<close>; \<open>None\<close> is an invalid one.\<close>

definition list_limit :: "api_request \<Rightarrow> int option" where
  "list_limit r = (let limitRaw = query_Get r ''limit'' in if TrimSpace limitRaw \<noteq> [] then ParseInt limitRaw else Some 50)"

definition messageLogs :: "Handler \<Rightarrow> Principal option \<Rightarrow> api_request \<Rightarrow> response io" where
  "messageLogs h ctx r = reading ctx r (\<lambda>ws.
     case list_limit r of
       None \<Rightarrow> respond (400, PlainText ''invalid limit'')
     | Some limit \<Rightarrow> (case parseFromToOptional h r of (from, to) \<Rightarrow> do {
         res \<leftarrow> MessageLogs ws limit from to;
         respond (case res of
           Inl e \<Rightarrow> internal_error e
         | Inr messages \<Rightarrow> (200, JMessages ws (formatRFC3339OrEmpty h from) (formatRFC3339OrEmpty h to) messages)) }))"

definition webhookLogs :: "Handler \<Rightarrow> Principal option \<Rightarrow> api_request \<Rightarrow> response io" where
  "webhookLogs h ctx r = reading ctx r (\<lambda>ws.
     case list_limit r of
       None \<Rightarrow> respond (400, PlainText ''invalid limit'')
     | Some limit \<Rightarrow> (let status = TrimSpace (ToLower (query_Get r ''status'')) in
         case parseFromToOptional h r of (from, to) \<Rightarrow> do {
         res \<leftarrow> WebhookLogs ws limit status from to;
         respond (case res of
           Inl e \<Rightarrow> internal_error e
         | Inr events \<Rightarrow> (200, JEvents ws (formatRFC3339OrEmpty h from) (formatRFC3339OrEmpty h to) status events)) }))"

text \<open>The two handlers that take an empty body for the zero request.\<close>

definition or_empty :: "'a \<Rightarrow> 'a decoded \<Rightarrow> 'a decoded" where
  "or_empty zero d = (case d of DecodeEOF \<Rightarrow> Decoded zero | _ \<Rightarrow> d)"

definition replayWebhookDeadLetters :: "Handler \<Rightarrow> Principal option \<Rightarrow> api_request \<Rightarrow> response io" where
  "replayWebhookDeadLetters h ctx r =
     posting r (or_empty \<lparr>rwr_WorkspaceID = 0, rwr_EventIDs = [], rwr_Limit = 0\<rparr> (decode (dec_replay (hd_json h)) r)) (\<lambda>req.
     in_workspace ctx (rwr_WorkspaceID req) (\<lambda>ws. do {
       res \<leftarrow> ReplayWebhookDeadLetters (hd_locked h) (hd_messages h) ws (rwr_EventIDs req) (rwr_Limit req);
       respond (case res of Inl e \<Rightarrow> internal_error e | Inr result \<Rightarrow> (200, JReplay result)) }))"

definition retryMessages :: "Handler \<Rightarrow> Principal option \<Rightarrow> api_request \<Rightarrow> response io" where
  "retryMessages h ctx r =
     posting r (or_empty \<lparr>rmr_WorkspaceID = 0, rmr_MessageIDs = [], rmr_Limit = 0\<rparr> (decode (dec_retry (hd_json h)) r)) (\<lambda>req.
     in_workspace ctx (rmr_WorkspaceID req) (\<lambda>ws. do {
       res \<leftarrow> RetryMessages (hd_messages h) ws (rmr_MessageIDs req) (rmr_Limit req);
       respond (case res of Inl e \<Rightarrow> internal_error e | Inr result \<Rightarrow> (200, JRetry result)) }))"

definition policy_response :: "Handler \<Rightarrow> int \<Rightarrow> response io" where
  "policy_response h ws = do {
     res \<leftarrow> workspacePolicy (hd_messages h) ws;
     respond (case res of Inl e \<Rightarrow> internal_error e | Inr policy \<Rightarrow> (200, JPolicy policy)) }"

definition handler_workspacePolicy :: "Handler \<Rightarrow> Principal option \<Rightarrow> api_request \<Rightarrow> response io" where
  "handler_workspacePolicy h ctx r =
     (if arq_method r = ''GET'' then reading ctx r (policy_response h)
      else if arq_method r = ''POST'' then
        (if fst (RoleFromContext ctx) \<noteq> ''admin'' then respond (403, JsonError ''forbidden'')
         else posting r (decode (dec_policy (hd_json h)) r) (\<lambda>req.
           in_workspace ctx (upr_WorkspaceID req) (\<lambda>ws. do {
             res \<leftarrow> service_UpsertWorkspacePolicy (hd_messages h)
               \<lparr>pol_WorkspaceID = ws, pol_RateLimitWorkspacePerHour = upr_RateLimitWorkspacePerHour req,
                pol_RateLimitDomainPerHour = upr_RateLimitDomainPerHour req,
                pol_BlockedRecipientDomains = upr_BlockedRecipientDomains req\<rparr>;
             case res of Inl e \<Rightarrow> respond (internal_error e) | Inr _ \<Rightarrow> policy_response h ws })))
      else respond method_not_allowed)"

text \<open>
  \<open>RenderPage\<close> sends the status before it executes the template, so the status that its callers
  set on an error comes too late; only their text is sent.
\<close>

definition RenderPage :: "Handler \<Rightarrow> string \<Rightarrow> payload \<Rightarrow> response" where
  "RenderPage h template page = (200, if hd_render h template then page else PlainText ''template error'')"

definition workspacePolicyUI :: "Handler \<Rightarrow> Principal option \<Rightarrow> api_request \<Rightarrow> response io" where
  "workspacePolicyUI h ctx r = reading ctx r (\<lambda>ws. do {
     res \<leftarrow> workspacePolicy (hd_messages h) ws;
     respond (case res of Inl e \<Rightarrow> internal_error e | Inr policy \<Rightarrow> RenderPage h ''policy.html'' (PolicyPage policy)) })"

text \<open>The four pages that show only the workspace.\<close>

definition page_UI :: "string \<Rightarrow> Handler \<Rightarrow> Principal option \<Rightarrow> api_request \<Rightarrow> response io" where
  "page_UI template h ctx r = reading ctx r (\<lambda>ws. respond (RenderPage h template (Page ws template)))"

definition messageLogsUI :: "Handler \<Rightarrow> Principal option \<Rightarrow> api_request \<Rightarrow> response io" where
  "messageLogsUI = page_UI ''logs.html''"

definition operatorDashboardUI :: "Handler \<Rightarrow> Principal option \<Rightarrow> api_request \<Rightarrow> response io" where
  "operatorDashboardUI = page_UI ''dashboard.html''"

definition onboardingUI :: "Handler \<Rightarrow> Principal option \<Rightarrow> api_request \<Rightarrow> response io" where
  "onboardingUI = page_UI ''onboarding.html''"

definition incidentUI :: "Handler \<Rightarrow> Principal option \<Rightarrow> api_request \<Rightarrow> response io" where
  "incidentUI = page_UI ''incidents.html''"

definition summary_window :: "Handler \<Rightarrow> api_request \<Rightarrow> (go_time \<times> go_time) io" where
  "summary_window h r = do { now \<leftarrow> time_Now; State_Monad.return (parseFromTo h r now) }"

definition analyticsSummary :: "Handler \<Rightarrow> Principal option \<Rightarrow> api_request \<Rightarrow> response io" where
  "analyticsSummary h ctx r = reading ctx r (\<lambda>ws. do {
     (from, to) \<leftarrow> summary_window h r;
     res \<leftarrow> store (MeteringSummary ws from to);
     respond (case res of Inl e \<Rightarrow> internal_error e | Inr items \<Rightarrow> (200, JAnalytics ws (hd_fmt_time h from) (hd_fmt_time h to) items)) })"

definition billingMetering :: "Handler \<Rightarrow> Principal option \<Rightarrow> api_request \<Rightarrow> response io" where
  "billingMetering h ctx r = reading ctx r (\<lambda>ws. do {
     (from, to) \<leftarrow> summary_window h r;
     res \<leftarrow> store (MeteringSummary ws from to);
     respond (case res of Inl e \<Rightarrow> internal_error e | Inr items \<Rightarrow> (200, JMetering ws (hd_fmt_time h from) (hd_fmt_time h to) items)) })"

definition analyticsExportCSV :: "Handler \<Rightarrow> Principal option \<Rightarrow> api_request \<Rightarrow> response io" where
  "analyticsExportCSV h ctx r = reading ctx r (\<lambda>ws.
     let raw = TrimSpace (query_Get r ''limit'') in
     case (if raw \<noteq> [] then ParseInt raw else Some 500) of
       None \<Rightarrow> respond (400, PlainText ''invalid limit'')
     | Some limit \<Rightarrow> do {
         res \<leftarrow> store (ExportMessageLogsCSV (hd_fmt_time h) ws limit);
         respond (case res of Inl e \<Rightarrow> internal_error e | Inr csvData \<Rightarrow> (200, Csv csvData)) })"

end
