(* ===== verification/Api_Server.thy ===== *)
theory Api_Server
  imports Api_Handlers
begin

text \<open>
  The webhook endpoint \<open>receiveWebhookEvent\<close> and the routes of \<open>Register\<close>
  (\<open>src/internal/api/http.go\<close>): a request, the guard of its route and its handler as one routine.
\<close>

section \<open>Definitions\<close>

text \<open>\<open>receiveWebhookEvent\<close>. The body is read up to 1 MiB.\<close>

definition limit_reader :: "int \<Rightarrow> string \<Rightarrow> string" where
  "limit_reader n s = (if int (length s) \<le> n then s else take (nat n) s)"

record receipt =
  rcp_processed :: int
  rcp_rejected :: int
  rcp_deadLettered :: int
  rcp_firstAccepted :: "int \<times> string \<times> string"

text \<open>The loop over the events; an error of the service ends it with its response.\<close>

fun receive_events :: "Handler \<Rightarrow> string \<Rightarrow> webhookEventRequest list \<Rightarrow> receipt \<Rightarrow> (response + receipt) io" where
  "receive_events h rawPayload [] rc = State_Monad.return (Inr rc)"
| "receive_events h rawPayload (req # events) rc =
     (let ws = (if whq_WorkspaceID req = 0 then 1 else whq_WorkspaceID req);
          eventType = ToLower (TrimSpace (whq_Type req));
          email = TrimSpace (whq_Email req);
          reason = TrimSpace (whq_Reason req)
      in if email = [] then receive_events h rawPayload events (rc\<lparr>rcp_rejected := rcp_rejected rc + 1\<rparr>)
         else do {
           r \<leftarrow> ProcessWebhookEvent (hd_sha256 h) (hd_messages h) ws eventType email reason rawPayload (whq_Identity req);
           case r of
             Inl e \<Rightarrow> State_Monad.return (Inl (internal_error e))
           | Inr event \<Rightarrow>
               receive_events h rawPayload events
                 (rc\<lparr>rcp_deadLettered := rcp_deadLettered rc + (if evt_Status event = ''dead_letter'' then 1 else 0),
                     rcp_processed := rcp_processed rc + 1,
                     rcp_firstAccepted := (if rcp_processed rc + 1 = 1 then (ws, eventType, email) else rcp_firstAccepted rc)\<rparr>) })"

text \<open>What is answered after the loop (lines 285 to 338 of the source).\<close>

definition receipt_response :: "receipt \<Rightarrow> response" where
  "receipt_response rc =
     (if rcp_processed rc = 0 then (400, PlainText ''invalid webhook payload'')
      else if rcp_processed rc = 1 \<and> rcp_rejected rc = 0
      then (202, case rcp_firstAccepted rc of (ws, t, email) \<Rightarrow> JEventAccepted ws t email)
      else (202, JEventCounts (rcp_processed rc) (rcp_rejected rc) (rcp_deadLettered rc) (rcp_processed rc + rcp_rejected rc)))"

definition rejected_records :: "Handler \<Rightarrow> string \<Rightarrow> webhookEventRequest list \<Rightarrow> receipt \<Rightarrow> response io" where
  "rejected_records h rawPayload events rc =
     (if rcp_rejected rc > 0 then do {
        let ws = (case events of e # _ \<Rightarrow> if whq_WorkspaceID e > 0 then whq_WorkspaceID e else 1 | [] \<Rightarrow> 1);
        r \<leftarrow> RecordWebhookDeadLetter (hd_sha256 h) ws ''unknown'' [] ''rejected_records''
               ''webhook payload contained unsupported or incomplete records'' rawPayload 1;
        respond (case r of
          Inl e \<Rightarrow> internal_error e
        | Inr _ \<Rightarrow> receipt_response (rc\<lparr>rcp_deadLettered := rcp_deadLettered rc + 1\<rparr>)) }
      else respond (receipt_response rc))"

definition receiveWebhookEvent :: "Handler \<Rightarrow> api_request \<Rightarrow> response io" where
  "receiveWebhookEvent h r =
     (if arq_method r \<noteq> ''POST'' then respond method_not_allowed
      else case arq_body r of
        None \<Rightarrow> respond (400, PlainText ''invalid webhook payload'')
      | Some whole \<Rightarrow> do {
          let body = limit_reader 1048576 whole;
          now \<leftarrow> time_Now;
          case Verify (hd_hmac h) (hd_verifier h) (arq_timestamp r) (arq_signature r) body now of
            Some e \<Rightarrow> respond (401, JsonError ''invalid webhook signature'')
          | None \<Rightarrow>
             (case parseWebhookEvents (dec_any (hd_json h) body) of
                Inl err \<Rightarrow> do {
                  r \<leftarrow> RecordWebhookDeadLetter (hd_sha256 h) 1 ''unknown'' [] ''invalid_payload'' err body 1;
                  respond (case r of Inl e \<Rightarrow> internal_error e | Inr _ \<Rightarrow> (202, JEventCounts 0 1 1 1)) }
              | Inr (events, rejected) \<Rightarrow> do {
                  res \<leftarrow> receive_events h body events
                    \<lparr>rcp_processed = 0, rcp_rejected = rejected, rcp_deadLettered = 0, rcp_firstAccepted = (0, [], [])\<rparr>;
                  case res of Inl a \<Rightarrow> respond a | Inr rc \<Rightarrow> rejected_records h body events rc }) })"

text \<open>\<open>Register\<close>: the handler of each route, behind its guard.\<close>

definition handler_of :: "Handler \<Rightarrow> (string \<times> (Principal option \<Rightarrow> api_request \<Rightarrow> response io)) list" where
  "handler_of h =
     [(''/v1/messages'', createMessage h), (''/v1/suppressions'', createSuppression h), (''/v1/unsubscribes'', createUnsubscribe h),
      (''/v1/smtp-accounts'', upsertSMTPAccount h), (''/v1/smtp-accounts/activate'', activateSMTPAccount h),
      (''/v1/smtp-accounts/list'', listSMTPAccounts h), (''/v1/domains/readiness'', checkDomainReadiness h),
      (''/v1/smtp-accounts/validate'', validateSMTPAccount h), (''/v1/messages/timeline'', messageTimeline h),
      (''/v1/ops/onboarding-checklist'', onboardingChecklist h), (''/v1/incidents/bundle'', incidentBundleExport h),
      (''/v1/messages/logs'', messageLogs h), (''/v1/messages/retry'', retryMessages h), (''/v1/webhooks/logs'', webhookLogs h),
      (''/v1/webhooks/replay'', replayWebhookDeadLetters h), (''/v1/workspaces/policy'', handler_workspacePolicy h),
      (''/v1/analytics/summary'', analyticsSummary h), (''/v1/analytics/export.csv'', analyticsExportCSV h),
      (''/v1/billing/metering'', billingMetering h), (''/ui/policy'', workspacePolicyUI h), (''/ui/logs'', messageLogsUI h),
      (''/ui'', operatorDashboardUI h), (''/ui/onboarding'', onboardingUI h), (''/ui/incidents'', incidentUI h)]"

text \<open>
  A request to the API: the guards read the users and the sessions, the handler acts on the world.
\<close>

definition serve :: "bool \<Rightarrow> guard_env \<Rightarrow> Handler \<Rightarrow> string \<Rightarrow> request \<Rightarrow> api_request \<Rightarrow> go_time \<Rightarrow> users_db \<Rightarrow> sessions \<Rightarrow> response io" where
  "serve hasAuth env h path cr r now d ss =
     (if path = ''/v1/webhooks/events'' then
        (if hd_webhooksEnabled h then receiveWebhookEvent h r else respond (404, PlainText ''404 page not found''))
      else case authorize hasAuth env path cr now d ss of
        Inl e \<Rightarrow> respond (rejected_with e)
      | Inr ctx \<Rightarrow> (case map_of (handler_of h) path of
          None \<Rightarrow> respond (404, PlainText ''404 page not found'')
        | Some handle \<Rightarrow> handle ctx r))"

end
