(* ===== verification/Tenant_Isolation.thy ===== *)
theory Tenant_Isolation
  imports Api_Server Webhook_Replay
begin

text \<open>
  What a request of a tenant may change. The frame of every handler is proved once inside the locales
  \<open>workspace_guarantee\<close> and \<open>workspace_retry\<close>, over the laws of the services below; the
  interpretations give the frame that keeps the other workspaces and the frame that keeps everything.
\<close>

section \<open>Definitions\<close>

text \<open>What the tables hold of other workspaces than \<open>ws\<close>.\<close>

definition foreign_messages :: "int \<Rightarrow> db \<Rightarrow> int \<Rightarrow> Message option" where
  "foreign_messages ws d i =
     (case find_message i d of None \<Rightarrow> None | Some m \<Rightarrow> if msg_WorkspaceID m = ws then None else Some m)"

definition foreign_keys :: "int \<Rightarrow> (int \<times> 'k \<rightharpoonup> 'v) \<Rightarrow> (int \<times> 'k \<rightharpoonup> 'v)" where
  "foreign_keys ws m = (\<lambda>k. if fst k = ws then None else m k)"

definition foreign_policies :: "int \<Rightarrow> (int \<rightharpoonup> 'v) \<Rightarrow> (int \<rightharpoonup> 'v)" where
  "foreign_policies ws m = m(ws := None)"

text \<open>Nothing of another workspace has changed: in the tables beside the messages, and in all tables.\<close>

definition rest_kept :: "int \<Rightarrow> shared \<Rightarrow> shared \<Rightarrow> bool" where
  "rest_kept ws sh sh' \<longleftrightarrow>
     (let d = sh_db sh; d' = sh_db sh' in
      db_workspaces d' = db_workspaces d \<and> db_attempts d' = db_attempts d \<and>
      foreign_keys ws (db_suppressions d') = foreign_keys ws (db_suppressions d) \<and>
      foreign_keys ws (db_unsubscribes d') = foreign_keys ws (db_unsubscribes d) \<and>
      foreign_keys ws (map_of (db_domains d')) = foreign_keys ws (map_of (db_domains d)) \<and>
      foreign_policies ws (db_policies d') = foreign_policies ws (db_policies d) \<and>
      filter (\<lambda>r. smtp_workspace_id r \<noteq> ws) (db_smtp_accounts d') = filter (\<lambda>r. smtp_workspace_id r \<noteq> ws) (db_smtp_accounts d) \<and>
      filter (\<lambda>e. met_WorkspaceID e \<noteq> ws) (db_metering d') = filter (\<lambda>e. met_WorkspaceID e \<noteq> ws) (db_metering d) \<and>
      filter (\<lambda>r. whr_workspace_id r \<noteq> ws) (db_webhook_events d') = filter (\<lambda>r. whr_workspace_id r \<noteq> ws) (db_webhook_events d))"

definition outside_kept :: "int \<Rightarrow> shared \<Rightarrow> shared \<Rightarrow> bool" where
  "outside_kept ws sh sh' \<longleftrightarrow>
     rest_kept ws sh sh' \<and> foreign_messages ws (sh_db sh') = foreign_messages ws (sh_db sh)"

text \<open>The requests of this principal act on the workspace \<open>ws\<close> or on none.\<close>

definition bound :: "Principal option \<Rightarrow> int \<Rightarrow> bool" where
  "bound ctx ws \<longleftrightarrow> (\<forall>requested w. Workspace ctx requested = Inr w \<longrightarrow> w = ws)"

definition kept_by :: "(response io) \<Rightarrow> int \<Rightarrow> bool" where
  "kept_by m ws \<longleftrightarrow>
     (\<forall>w a w'. alone w \<longrightarrow> message_inv (sh_db (w_shared w)) \<longrightarrow> events_ok (w_shared w) \<longrightarrow> run_state m w = (a, w') \<longrightarrow>
        outside_kept ws (w_shared w) (w_shared w'))"

definition presents_instance_key :: "guard_env \<Rightarrow> request \<Rightarrow> bool" where
  "presents_instance_key env r \<longleftrightarrow> presented r \<noteq> [] \<and> (presented r = env_admin env \<or> presented r = env_operator env)"

text \<open>The handlers a viewer reaches only read, and the policy is not written for a viewer.\<close>

definition unchanged :: "shared \<Rightarrow> shared \<Rightarrow> bool" where
  "unchanged sh sh' \<longleftrightarrow> sh' = sh"

definition viewer_paths :: "string list" where
  "viewer_paths = [p. (p, kind, roles) \<leftarrow> routes, ''viewer'' \<in> set roles]"

definition demo_decoders :: decoders where
  "demo_decoders = \<lparr>dec_message = (\<lambda>s. DecodeEOF), dec_suppression = (\<lambda>s. DecodeEOF), dec_unsubscribe = (\<lambda>s. DecodeEOF),
     dec_account = (\<lambda>s. DecodeEOF), dec_activate = (\<lambda>s. DecodeEOF), dec_policy = (\<lambda>s. DecodeEOF),
     dec_readiness = (\<lambda>s. DecodeEOF), dec_validate = (\<lambda>s. DecodeEOF), dec_replay = (\<lambda>s. DecodeEOF),
     dec_retry = (\<lambda>s. Decoded \<lparr>rmr_WorkspaceID = 0, rmr_MessageIDs = [1, 5], rmr_Limit = 0\<rparr>), dec_any = (\<lambda>s. None)\<rparr>"

definition demo_handler :: Handler where
  "demo_handler = \<lparr>hd_messages = demo_service, hd_dns = (\<lambda>n. NotFound), hd_verifier = demo_verifier, hd_json = demo_decoders,
     hd_sha256 = rev, hd_hmac = demo_hmac, hd_parse_time = (\<lambda>s. None), hd_fmt_time = FormatInt, hd_render = (\<lambda>t. True),
     hd_locked = (\<lambda>i. False), hd_webhooksEnabled = True\<rparr>"

definition demo_call :: "string \<Rightarrow> api_request" where
  "demo_call method = \<lparr>arq_method = method, arq_query = (\<lambda>k. []), arq_body = Some ''{}'', arq_timestamp = [], arq_signature = []\<rparr>"

definition demo_serve :: "string \<Rightarrow> string \<Rightarrow> world \<Rightarrow> response \<times> world" where
  "demo_serve path method = run_state (serve True demo_env demo_handler path demo_request (demo_call method) 7 demo_users Map.empty)"

section \<open>Handlers that only read\<close>

lemma within_posting:
  assumes "frame_relation R" and "\<And>req. d = Decoded req \<Longrightarrow> state_io_rel R (k req)"
  shows "state_io_rel R (posting r d k)"
  using assms(2) frame_relation.within_return [OF assms(1)]
  by (cases d) (auto simp: posting_def respond_def)

lemma within_reading:
  assumes "frame_relation R" and "\<And>ws. \<exists>requested. Workspace ctx requested = Inr ws \<Longrightarrow> state_io_rel R (k ws)"
  shows "state_io_rel R (reading ctx r k)"
  using frame_relation.within_return [OF assms(1)]
  by (auto simp: reading_def respond_def workspaceFromQuery_def intro!: assms(2) dest!: resolveWorkspace_cases split: sum.split option.split)

lemma within_workspace:
  assumes "frame_relation R" and "\<And>ws. Workspace ctx requested = Inr ws \<Longrightarrow> state_io_rel R (k ws)"
  shows "state_io_rel R (in_workspace ctx requested k)"
  using frame_relation.within_return [OF assms(1)]
  by (auto simp: in_workspace_def respond_def intro!: assms(2) dest!: resolveWorkspace_cases split: sum.split)

context shared_relation
begin

lemma responds: "state_io_rel (moves S) (respond a)"
  unfolding respond_def by (rule world.within_return)

lemmas handles = within_posting [OF world.frame_relation_axioms] within_reading [OF world.frame_relation_axioms]
  within_workspace [OF world.frame_relation_axioms]

lemma more_reads:
  "state_io_rel (moves S) (store (ListMessageAttempts i))" "state_io_rel (moves S) (store (ListWebhookEvents ws n st from to))"
  "state_io_rel (moves S) (store (MeteringSummary ws from to))" "state_io_rel (moves S) (store (ExportMessageLogsCSV fmt ws n))"
  "state_io_rel (moves S) (store (smtp_account_exists ws))"
  by (rule reads_within, simp add: ListMessageAttempts_def ListWebhookEvents_def MeteringSummary_def
        ExportMessageLogsCSV_def smtp_account_exists_def Let_def)+

lemmas reader_steps = responds read_steps more_reads policy_within credentials_within smtp_within

lemma timeline_within: "state_io_rel (moves S) (MessageTimeline i)"
  unfolding MessageTimeline_def by (intro reader_steps)

lemma checklist_within: "state_io_rel (moves S) (TechnicalOnboardingChecklist s ws)"
  unfolding TechnicalOnboardingChecklist_def by (intro reader_steps)

lemma incident_within: "state_io_rel (moves S) (IncidentBundle ws i)"
  unfolding IncidentBundle_def by (intro reader_steps timeline_within)

lemma validate_within: "state_io_rel (moves S) (ValidateSMTPAccount s ws)"
  unfolding ValidateSMTPAccount_def by (intro reader_steps)

lemma policy_response_within: "state_io_rel (moves S) (policy_response h ws)"
  unfolding policy_response_def by (intro reader_steps)

lemma readers_within:
  "state_io_rel (moves S) (listSMTPAccounts h ctx r)" "state_io_rel (moves S) (validateSMTPAccount h ctx r)"
  "state_io_rel (moves S) (messageTimeline h ctx r)" "state_io_rel (moves S) (onboardingChecklist h ctx r)"
  "state_io_rel (moves S) (incidentBundleExport h ctx r)" "state_io_rel (moves S) (messageLogs h ctx r)"
  "state_io_rel (moves S) (webhookLogs h ctx r)" "state_io_rel (moves S) (analyticsSummary h ctx r)"
  "state_io_rel (moves S) (billingMetering h ctx r)" "state_io_rel (moves S) (analyticsExportCSV h ctx r)"
  "state_io_rel (moves S) (workspacePolicyUI h ctx r)" "state_io_rel (moves S) (messageLogsUI h ctx r)"
  "state_io_rel (moves S) (operatorDashboardUI h ctx r)" "state_io_rel (moves S) (onboardingUI h ctx r)"
  "state_io_rel (moves S) (incidentUI h ctx r)"
  unfolding listSMTPAccounts_def validateSMTPAccount_def messageTimeline_def onboardingChecklist_def incidentBundleExport_def
    messageLogs_def webhookLogs_def analyticsSummary_def billingMetering_def analyticsExportCSV_def workspacePolicyUI_def
    messageLogsUI_def operatorDashboardUI_def onboardingUI_def incidentUI_def page_UI_def summary_window_def
    MessageLogs_def WebhookLogs_def
  by (intro handles reader_steps timeline_within checklist_within incident_within validate_within)+

end

section \<open>Handlers that write\<close>

locale workspace_guarantee = shared_relation S for S :: "shared \<Rightarrow> shared \<Rightarrow> bool" +
  fixes ws :: int
  assumes create: "msg_WorkspaceID m = ws \<Longrightarrow> S sh (upd_db (CreateMessage m t) sh)"
    and metering: "S sh (upd_db (InsertMeteringEvent jsonb ws i et q md t) sh)"
    and suppress: "S sh (upd_db (AddSuppression ws email reason t) sh)"
    and unsubscribe: "S sh (upd_db (AddUnsubscribe ws email reason t) sh)"
    and verified: "S sh (upd_db (UpsertDomainVerification ws name v t) sh)"
    and account: "S sh (upd_db (smtp_account_upsert ws name payload act t) sh)"
    and active: "S sh (upd_db (SetActiveSMTPAccount ws name t) sh)"
    and policy: "pol_WorkspaceID p = ws \<Longrightarrow> S sh (upd_db (UpsertWorkspacePolicy p t) sh)"
    and enqueued: "S sh (sh\<lparr>sh_queue := Enqueue i (sh_queue sh)\<rparr>)"
    and counted: "S sh (sh\<lparr>sh_limits := cs\<rparr>)"
begin

lemma writes:
  "msg_WorkspaceID m = ws \<Longrightarrow> state_io_rel (moves S) (store (CreateMessage m))"
  "state_io_rel (moves S) (meter s ws i et md)"
  "state_io_rel (moves S) (store (AddSuppression ws email reason))"
  "state_io_rel (moves S) (store (AddUnsubscribe ws email reason))"
  "state_io_rel (moves S) (store (UpsertDomainVerification ws name v))"
  "state_io_rel (moves S) (store (smtp_account_upsert ws name payload act))"
  "state_io_rel (moves S) (store (SetActiveSMTPAccount ws name))"
  "pol_WorkspaceID p = ws \<Longrightarrow> state_io_rel (moves S) (store (UpsertWorkspacePolicy p))"
  unfolding meter_def
  by (rule store_within, rule create metering suppress unsubscribe verified account active policy, assumption?)+

lemma shared_writes: "state_io_rel (moves S) (queue_Enqueue s i)" "state_io_rel (moves S) (limiter_Allow l fmt w rd)"
  by (auto simp: queue_Enqueue_def intro: moves_queue moves_limiter enqueued counted world.within_return)

lemmas steps = reader_steps writes shared_writes

lemma admit_within: "state_io_rel (moves S) (admit_message s ws f t sj b)"
  unfolding admit_message_def by (intro steps) simp

lemma queue_message_within: "state_io_rel (moves S) (QueueMessage s ws f t sj b)"
  unfolding QueueMessage_def by (intro steps limit_within admit_within)

lemma encrypted_within: "w = ws \<Longrightarrow> state_io_rel (moves S) (UpsertSMTPAccountEncrypted w name payload)"
  unfolding UpsertSMTPAccountEncrypted_def by (hypsubst, intro steps)

lemma account_within:
  assumes "acc_WorkspaceID a = ws"
  shows "state_io_rel (moves S) (UpsertSMTPAccount s a)"
  unfolding UpsertSMTPAccount_def by (intro steps encrypted_within) (simp add: assms)

lemma policy_write_within:
  assumes "pol_WorkspaceID p = ws" and "0 < ws"
  shows "state_io_rel (moves S) (service_UpsertWorkspacePolicy s p)"
  unfolding service_UpsertWorkspacePolicy_def Let_def by (rule writes(8)) (use assms in simp)

lemma readiness_within: "state_io_rel (moves S) (CheckReadiness dns ws name sel)"
  unfolding CheckReadiness_def by (intro steps)

lemma writers_within:
  assumes "bound ctx ws"
  shows "state_io_rel (moves S) (createMessage h ctx r)" "state_io_rel (moves S) (createSuppression h ctx r)"
    "state_io_rel (moves S) (createUnsubscribe h ctx r)" "state_io_rel (moves S) (upsertSMTPAccount h ctx r)"
    "state_io_rel (moves S) (activateSMTPAccount h ctx r)" "state_io_rel (moves S) (checkDomainReadiness h ctx r)"
    "state_io_rel (moves S) (handler_workspacePolicy h ctx r)"
proof -
  have ws: "w = ws" "0 < w" if "Workspace ctx requested = Inr w" for w requested
    using assms that by (auto simp: bound_def dest: Workspace_cases)
  show "state_io_rel (moves S) (createMessage h ctx r)" "state_io_rel (moves S) (createSuppression h ctx r)"
    "state_io_rel (moves S) (createUnsubscribe h ctx r)" 
    "state_io_rel (moves S) (activateSMTPAccount h ctx r)" "state_io_rel (moves S) (checkDomainReadiness h ctx r)"
    unfolding createMessage_def createSuppression_def createUnsubscribe_def activateSMTPAccount_def checkDomainReadiness_def
    by (intro handles, drule ws(1), hypsubst, intro steps queue_message_within readiness_within)+
  show "state_io_rel (moves S) (upsertSMTPAccount h ctx r)"
    unfolding upsertSMTPAccount_def by (intro handles, drule ws(1), hypsubst, intro steps account_within) simp
  show "state_io_rel (moves S) (handler_workspacePolicy h ctx r)"
    unfolding handler_workspacePolicy_def
    by (intro handles world.within_if responds policy_response_within, frule ws(1), drule ws(2), hypsubst,
        intro steps policy_response_within policy_write_within) simp_all
qed

end

section \<open>Other workspaces are left alone\<close>

lemma filter_map_unseen:
  assumes "\<And>x. f x \<noteq> x \<Longrightarrow> \<not> q x \<and> \<not> q (f x)"
  shows "filter q (map f xs) = filter q xs"
proof (induction xs)
  case (Cons x xs)
  then show ?case using assms [of x] by (cases "f x = x") auto
qed simp

lemma foreign_keys_update [simp]: "foreign_keys ws (m((ws, k) \<mapsto> v)) = foreign_keys ws m"
  "foreign_keys ws (map_of (AList.update (ws, k) v al)) = foreign_keys ws (map_of al)"
  by (auto simp: foreign_keys_def fun_eq_iff update_conv')

lemma foreign_messages_create:
  assumes "msg_WorkspaceID m = ws"
  shows "foreign_messages ws (snd (CreateMessage m t d)) = foreign_messages ws d"
  using assms by (auto simp: foreign_messages_def CreateMessage_def find_message_def find_append Let_def fun_eq_iff split: option.split)

lemma foreign_messages_same: "db_messages d' = db_messages d \<Longrightarrow> foreign_messages ws d' = foreign_messages ws d"
  by (simp add: foreign_messages_def find_message_def fun_eq_iff)

lemma foreign_policies_update [simp]: "foreign_policies ws (m(ws \<mapsto> v)) = foreign_policies ws m"
  by (simp add: foreign_policies_def)

lemma smtp_unseen:
  assumes "\<And>r. f r \<noteq> r \<Longrightarrow> smtp_workspace_id r = ws \<and> smtp_workspace_id (f r) = ws"
  shows "filter (\<lambda>r. smtp_workspace_id r \<noteq> ws) (map f rows) = filter (\<lambda>r. smtp_workspace_id r \<noteq> ws) rows"
  by (rule filter_map_unseen) (use assms in blast)

locale workspace_retry = workspace_guarantee S ws for S :: "shared \<Rightarrow> shared \<Rightarrow> bool" and ws +
  assumes status: "S sh (upd_db (SetMessageStatus i st t) sh)"
    and transition: "S sh (upd_db (TransitionMessageStatus i st st' t) sh)"
begin

lemma status_writes:
  "state_io_rel (moves S) (store (SetMessageStatus i st))" "state_io_rel (moves S) (store (TransitionMessageStatus i st st'))"
  by (rule store_within, rule status transition)+

lemma retry_message_within: "state_io_rel (moves S) (retryMessage s ws msg out)"
proof (cases "msg_WorkspaceID msg = ws")
  case True
  show ?thesis unfolding retryMessage_def True by (intro steps status_writes)
next
  case False
  then show ?thesis unfolding retryMessage_def by (simp add: world.within_return)
qed

lemma retry_ids_within: "state_io_rel (moves S) (retry_ids s ws ids out)"
  by (induction ids arbitrary: out) (simp_all, (intro steps retry_message_within | assumption)+)

lemma retry_listed_within: "state_io_rel (moves S) (retry_listed s ws msgs out)"
  by (induction msgs arbitrary: out) (auto intro!: steps retry_message_within)

lemma retry_within:
  assumes "(if w = 0 then 1 else w) = ws"
  shows "state_io_rel (moves S) (RetryMessages s w ids lim)"
  unfolding RetryMessages_def assms Let_def by (intro steps retry_ids_within retry_listed_within)

end

interpretation rest: workspace_retry "rest_kept ws" ws for ws
proof
  show "rest_kept ws sh sh" for sh by (simp add: rest_kept_def)
  show "rest_kept ws sh sh''" if "rest_kept ws sh sh'" "rest_kept ws sh' sh''" for sh sh' sh''
    using that by (simp add: rest_kept_def Let_def)
  show "rest_kept ws sh (upd_db (smtp_account_upsert ws name payload act t) sh)" for sh name payload act t
    by (auto simp: rest_kept_def upd_db_def smtp_account_upsert_def Let_def intro!: smtp_unseen split: if_splits)
  show "rest_kept ws sh (upd_db (SetActiveSMTPAccount ws name t) sh)" for sh name t
    by (simp add: rest_kept_def upd_db_def SetActiveSMTPAccount_def Let_def del: map_map)
       (intro impI trans [OF smtp_unseen smtp_unseen]; auto split: if_splits)
qed (simp_all add: rest_kept_def upd_db_def CreateMessage_def InsertMeteringEvent_def AddSuppression_def
      AddUnsubscribe_def UpsertDomainVerification_def UpsertWorkspacePolicy_def SetMessageStatus_def TransitionMessageStatus_def
      update_messages_def Let_def)

interpretation outside: workspace_guarantee "outside_kept ws" ws for ws
proof
  show "outside_kept ws sh sh" for sh by (simp add: outside_kept_def rest.refl)
  show "outside_kept ws sh sh''" if "outside_kept ws sh sh'" "outside_kept ws sh' sh''" for sh sh' sh''
    using that rest.trans by (fastforce simp: outside_kept_def)
  show "outside_kept ws sh (upd_db (CreateMessage m t) sh)" if "msg_WorkspaceID m = ws" for m sh t
    using that rest.create by (simp add: outside_kept_def upd_db_def foreign_messages_create)
qed (auto simp: outside_kept_def rest.metering rest.suppress rest.unsubscribe rest.verified rest.account rest.active rest.policy
      rest.enqueued rest.counted intro!: foreign_messages_same,
     auto simp: upd_db_def InsertMeteringEvent_def AddSuppression_def AddUnsubscribe_def UpsertDomainVerification_def
      smtp_account_upsert_def SetActiveSMTPAccount_def UpsertWorkspacePolicy_def Let_def)

text \<open>Which handlers a role that is not admin reaches, and what they change.\<close>

lemma foreign_keys_eqI: "(\<And>k. m' k \<noteq> m k \<Longrightarrow> fst k = ws) \<Longrightarrow> foreign_keys ws m' = foreign_keys ws m"
  by (force simp: foreign_keys_def)

lemma replay_outside:
  assumes "replay_confined ws sh sh'"
  shows "outside_kept ws sh sh'"
proof -
  let ?d = "sh_db sh" and ?d' = "sh_db sh'"
  have rows: "filter (\<lambda>r. whr_workspace_id r \<noteq> ws) rs' = filter (\<lambda>r. whr_workspace_id r \<noteq> ws) rs"
    if "list_all2 (replay_row_ok ws) rs rs'" for rs rs'
    using that by (induction rule: list_all2_induct) (auto simp: replay_row_ok_def may_replay_def)
  have addr: "fst k = ws" if "\<exists>r \<in> set rs. may_replay ws r \<and> row_effect r = f \<and> row_address r = k" for rs f k
    using that by (auto simp: may_replay_def row_address_def)
  have sup: "fst k = ws" if "db_suppressions ?d' k \<noteq> db_suppressions ?d k" for k
    by (rule addr [of "db_webhook_events ?d" Suppress]) (use assms that in \<open>cases k, simp add: replay_confined_def Let_def\<close>)
  have unsub: "fst k = ws" if "db_unsubscribes ?d' k \<noteq> db_unsubscribes ?d k" for k
    by (rule addr [of "db_webhook_events ?d" Unsubscribe]) (use assms that in \<open>cases k, simp add: replay_confined_def Let_def\<close>)
  have same: "list_all2 (replay_row_ok ws) (db_webhook_events ?d) (db_webhook_events ?d')"
    "db_messages ?d' = db_messages ?d" "db_attempts ?d' = db_attempts ?d" "db_smtp_accounts ?d' = db_smtp_accounts ?d"
    "db_policies ?d' = db_policies ?d" "db_metering ?d' = db_metering ?d" "db_domains ?d' = db_domains ?d"
    "db_workspaces ?d' = db_workspaces ?d"
    using assms unfolding replay_confined_def Let_def by blast+
  show ?thesis
    unfolding outside_kept_def rest_kept_def Let_def foreign_messages_same [OF same(2)] rows [OF same(1)] same(3-8)
    by (intro conjI refl foreign_keys_eqI; erule sup unsub)
qed

lemma isolated_outside: "isolated ws sh sh' \<Longrightarrow> foreign_messages ws (sh_db sh') = foreign_messages ws (sh_db sh)"
  unfolding isolated_def foreign_messages_def fun_eq_iff
proof
  fix i
  assume "\<forall>i. rel_option (\<lambda>m m'. m' = m \<or> msg_WorkspaceID m = ws \<and> msg_WorkspaceID m' = ws) (find_message i (sh_db sh)) (find_message i (sh_db sh'))"
  from spec [OF this, of i]
  show "(case find_message i (sh_db sh') of None \<Rightarrow> None | Some m \<Rightarrow> if msg_WorkspaceID m = ws then None else Some m) =
      (case find_message i (sh_db sh) of None \<Rightarrow> None | Some m \<Rightarrow> if msg_WorkspaceID m = ws then None else Some m)"
    by (cases "find_message i (sh_db sh)"; cases "find_message i (sh_db sh')") auto
qed

lemma movesD: "moves S w w' \<Longrightarrow> alone w \<Longrightarrow> (\<And>sh. S sh sh) \<Longrightarrow> S (w_shared w) (w_shared w')"
  by (simp add: moves_def others_def alone_def)

lemma kept_within:
  assumes "state_io_rel (moves (outside_kept ws)) m"
  shows "kept_by m ws"
  unfolding kept_by_def using movesD [OF state_io_relD [OF assms]] outside.refl by blast

lemma kept_respond: "kept_by (respond a) ws"
  by (rule kept_within) (rule outside.responds)

lemma kept_workspace:
  assumes "\<And>w. Workspace ctx requested = Inr w \<Longrightarrow> kept_by (k w) ws"
  shows "kept_by (in_workspace ctx requested k) ws"
  using assms kept_respond
  by (auto simp: in_workspace_def intro!: assms dest!: resolveWorkspace_cases split: sum.split)

lemma kept_posting: "(\<And>req. kept_by (k req) ws) \<Longrightarrow> kept_by (posting r d k) ws"
  by (auto simp: posting_def kept_respond split: decoded.split)

lemma kept_then:
  assumes "\<And>w r w'. alone w \<Longrightarrow> message_inv (sh_db (w_shared w)) \<Longrightarrow> events_ok (w_shared w) \<Longrightarrow> run_state m w = (r, w') \<Longrightarrow>
      outside_kept ws (w_shared w) (w_shared w')"
  shows "kept_by (m \<bind> (\<lambda>r. respond (f r))) ws"
  using assms unfolding kept_by_def respond_def by (auto split: prod.splits)

lemma retry_kept:
  assumes "bound ctx ws"
  shows "kept_by (retryMessages h ctx r) ws"
  unfolding retryMessages_def
proof (intro kept_posting kept_workspace kept_then)
  fix req w v res v'
  assume w: "Workspace ctx (rmr_WorkspaceID req) = Inr w" and v: "alone v" "message_inv (sh_db (w_shared v))"
    and run: "run_state (RetryMessages (hd_messages h) w (rmr_MessageIDs req) (rmr_Limit req)) v = (res, v')"
  have ws: "(if w = 0 then 1 else w) = ws" using w assms Workspace_cases [OF w] by (auto simp: bound_def)
  have "isolated ws (w_shared v) (w_shared v')" using retry_within_workspace [OF v run] unfolding ws by blast
  moreover have "rest_kept ws (w_shared v) (w_shared v')"
    by (rule movesD [OF state_io_relD [OF rest.retry_within [OF ws] run] v(1) rest.refl])
  ultimately show "outside_kept ws (w_shared v) (w_shared v')" by (simp add: outside_kept_def isolated_outside)
qed

lemma replay_kept:
  assumes "bound ctx ws" and "svc_atomic_store (hd_messages h)"
  shows "kept_by (replayWebhookDeadLetters h ctx r) ws"
  unfolding replayWebhookDeadLetters_def
proof (intro kept_posting kept_workspace kept_then)
  fix req w v res v'
  assume w: "Workspace ctx (rwr_WorkspaceID req) = Inr w" and v: "alone v" "events_ok (w_shared v)"
    and run: "run_state (ReplayWebhookDeadLetters (hd_locked h) (hd_messages h) w (rwr_EventIDs req) (rwr_Limit req)) v = (res, v')"
  have ws: "(if w = 0 then 1 else w) = ws" using w assms Workspace_cases [OF w] by (auto simp: bound_def)
  from replay_within_workspace [OF v(1) assms(2) v(2) run] show "outside_kept ws (w_shared v) (w_shared v')"
    unfolding ws by (blast intro: replay_outside)
qed

lemma handlers_kept:
  assumes "bound ctx ws" and "svc_atomic_store (hd_messages h)" and "map_of (handler_of h) path = Some handle"
  shows "kept_by (handle ctx r) ws"
proof -
  have "handle \<in> snd ` set (handler_of h)" using map_of_SomeD [OF assms(3)] by force
  then show ?thesis
    using retry_kept [OF assms(1)] replay_kept [OF assms(1,2)]
      kept_within [OF outside.writers_within(1) [OF assms(1)]] kept_within [OF outside.writers_within(2) [OF assms(1)]]
      kept_within [OF outside.writers_within(3) [OF assms(1)]] kept_within [OF outside.writers_within(4) [OF assms(1)]]
      kept_within [OF outside.writers_within(5) [OF assms(1)]] kept_within [OF outside.writers_within(6) [OF assms(1)]]
      kept_within [OF outside.writers_within(7) [OF assms(1)]]
      outside.readers_within [THEN kept_within]
    by (auto simp: handler_of_def simp del: fun_upd_apply)
qed

lemma member_bound:
  assumes "\<not> pr_Global p"
  shows "bound (Some p) (pr_WorkspaceID p)"
  using assms by (auto simp: bound_def dest: Workspace_cases)

interpretation unchanged: shared_relation unchanged
  by unfold_locales (simp_all add: unchanged_def)

lemma policy_reader:
  assumes "pr_Role p \<noteq> ''admin''"
  shows "state_io_rel (moves unchanged) (handler_workspacePolicy h (Some p) r)"
  using assms unfolding handler_workspacePolicy_def
  by (auto simp: RoleFromContext_def PrincipalFromContext_def
      intro!: unchanged.handles unchanged.responds unchanged.policy_response_within)

lemma viewer_handlers:
  assumes "path \<in> set viewer_paths" and "map_of (handler_of h) path = Some handle" and "pr_Role p = ''viewer''"
  shows "state_io_rel (moves unchanged) (handle (Some p) r)"
proof -
  have "handle \<in> {listSMTPAccounts h, messageTimeline h, onboardingChecklist h, incidentBundleExport h, messageLogs h,
      webhookLogs h, handler_workspacePolicy h, analyticsSummary h, analyticsExportCSV h, billingMetering h, workspacePolicyUI h,
      messageLogsUI h, operatorDashboardUI h, onboardingUI h, incidentUI h}"
    using assms(1,2) unfolding viewer_paths_def routes_def handler_of_def Let_def by (simp, elim disjE) simp_all
  then show ?thesis using unchanged.readers_within policy_reader [of p] assms(3) by auto
qed



end
