(* ===== verification/Tenant_Views.thy ===== *)
theory Tenant_Views
  imports Tenant_Isolation
begin

text \<open>
  What a response shows to a tenant: the rows of a payload belong to the workspace of the member that
  asked for it.
\<close>

section \<open>Definitions\<close>

text \<open>
  What a response may show to a member of \<open>ws\<close>: rows of that workspace, and the attempts of its
  messages. The outcomes of retries and replays carry ids and no rows. (The schema excludes rows
  of the workspace 0.)
\<close>

definition csv_text :: "(go_time \<Rightarrow> string) \<Rightarrow> Message list \<Rightarrow> string" where
  "csv_text fmt ms = csv_header @ [CHR 0x0A] @ concat (map (\<lambda>m. csv_line fmt m @ [CHR 0x0A]) ms)"

fun own_payload :: "Handler \<Rightarrow> int \<Rightarrow> payload \<Rightarrow> bool" where
  "own_payload h ws (JMessage m) \<longleftrightarrow> msg_WorkspaceID m = ws"
| "own_payload h ws (JListed w email reason status) \<longleftrightarrow> w = ws"
| "own_payload h ws (JAccountSaved w name host port from mode) \<longleftrightarrow> w = ws"
| "own_payload h ws (JAccountActive w name) \<longleftrightarrow> w = ws"
| "own_payload h ws (JAccounts w accounts) \<longleftrightarrow> w = ws \<and> (\<forall>a \<in> set accounts. sum_WorkspaceID a = ws)"
| "own_payload h ws (JValid w provider) \<longleftrightarrow> w = ws"
| "own_payload h ws (JTimeline m attempts) \<longleftrightarrow>
     msg_WorkspaceID m \<in> {ws, 0} \<and> (\<forall>a \<in> set attempts. att_MessageID a = msg_ID m)"
| "own_payload h ws (JChecklist c) \<longleftrightarrow> och_WorkspaceID c = ws"
| "own_payload h ws (JIncident b) \<longleftrightarrow>
     inc_WorkspaceID b = ws \<and> msg_WorkspaceID (inc_Message b) = ws \<and>
     (\<forall>a \<in> set (inc_Attempts b). att_MessageID a = msg_ID (inc_Message b)) \<and>
     (\<forall>e \<in> set (inc_WebhookOutcomes b). evt_WorkspaceID e = ws)"
| "own_payload h ws (JMessages w from to ms) \<longleftrightarrow> w = ws \<and> (\<forall>m \<in> set ms. msg_WorkspaceID m = ws)"
| "own_payload h ws (JEvents w from to st es) \<longleftrightarrow> w = ws \<and> (\<forall>e \<in> set es. evt_WorkspaceID e = ws)"
| "own_payload h ws (JPolicy p) \<longleftrightarrow> pol_WorkspaceID p = ws"
| "own_payload h ws (JAnalytics w from to items) \<longleftrightarrow> w = ws"
| "own_payload h ws (JMetering w from to items) \<longleftrightarrow> w = ws"
| "own_payload h ws (Csv s) \<longleftrightarrow> (\<exists>ms. s = csv_text (hd_fmt_time h) ms \<and> (\<forall>m \<in> set ms. msg_WorkspaceID m = ws))"
| "own_payload h ws (Page w template) \<longleftrightarrow> w = ws"
| "own_payload h ws (PolicyPage p) \<longleftrightarrow> pol_WorkspaceID p = ws"
| "own_payload h ws _ \<longleftrightarrow> True"

definition shows_own :: "Handler \<Rightarrow> int \<Rightarrow> response io \<Rightarrow> bool" where
  "shows_own h ws m \<longleftrightarrow> triple (\<lambda>w. True) m (\<lambda>a w. own_payload h ws (snd a))"

text \<open>A property of what a call returns when it succeeds, whatever the other calls do.\<close>

definition returns :: "('a \<Rightarrow> bool) \<Rightarrow> 'a result io \<Rightarrow> bool" where
  "returns P m \<longleftrightarrow> triple (\<lambda>w. True) m (\<lambda>r w. \<forall>x. r = Inr x \<longrightarrow> P x)"

lemma returns_store:
  assumes "\<And>t d x. fst (op t d) = Inr x \<Longrightarrow> P x"
  shows "returns P (store op)"
  unfolding returns_def store_def call_def on_db_def
  using assms by (auto simp: triple_def Let_def split: fault.split prod.splits) (metis fst_conv)+

lemma returns_any: "returns (\<lambda>x. True) m"
  by (simp add: returns_def triple_def split: prod.split)

lemma returns_return: "(\<And>x. r = Inr x \<Longrightarrow> P x) \<Longrightarrow> returns P (State_Monad.return r)"
  by (simp add: returns_def triple_def)

lemma returns_bind:
  assumes "returns P m" and "\<And>e. returns Q (f (Inl e))" and "\<And>x. P x \<Longrightarrow> returns Q (f (Inr x))"
  shows "returns Q (m \<bind> f)"
  unfolding returns_def
proof (rule triple_bind)
  show "triple (\<lambda>w. True) m (\<lambda>r w. \<forall>x. r = Inr x \<longrightarrow> P x)" using assms(1) by (simp add: returns_def)
  show "triple (\<lambda>w. \<forall>x. r = Inr x \<longrightarrow> P x) (f r) (\<lambda>r w. \<forall>x. r = Inr x \<longrightarrow> Q x)" for r
    using assms(2,3) by (cases r) (auto simp: returns_def triple_def)
qed

lemma returns_step:
  assumes "\<And>x. returns Q (f x)"
  shows "returns Q (m \<bind> f)"
  using assms unfolding returns_def by (intro triple_bind [OF triple_any])

lemma shows_bind:
  assumes "returns P m" and "\<And>e. shows_own h ws (f (Inl e))" and "\<And>x. P x \<Longrightarrow> shows_own h ws (f (Inr x))"
  shows "shows_own h ws (m \<bind> f)"
  unfolding shows_own_def
proof (rule triple_bind)
  show "triple (\<lambda>w. True) m (\<lambda>r w. \<forall>x. r = Inr x \<longrightarrow> P x)" using assms(1) by (simp add: returns_def)
  show "triple (\<lambda>w. \<forall>x. r = Inr x \<longrightarrow> P x) (f r) (\<lambda>a w. own_payload h ws (snd a))" for r
    using assms(2,3) by (cases r) (auto simp: shows_own_def triple_def)
qed

lemma shows_step: "(\<And>x. shows_own h ws (f x)) \<Longrightarrow> shows_own h ws (m \<bind> f)"
  unfolding shows_own_def by (rule triple_bind [OF triple_any])

lemma shows_respond: "own_payload h ws (snd a) \<Longrightarrow> shows_own h ws (respond a)"
  by (simp add: shows_own_def triple_def respond_def)

lemma own_errors [simp]:
  "own_payload h ws (snd (internal_error e))" "own_payload h ws (snd method_not_allowed)" "own_payload h ws (snd (rejected_with rj))"
  by (simp_all add: internal_error_def method_not_allowed_def rejected_with_def)

lemma shows_posting: "(\<And>req. shows_own h ws (k req)) \<Longrightarrow> shows_own h ws (posting r d k)"
  by (auto simp: posting_def intro!: shows_respond split: decoded.split)

lemma shows_workspace:
  assumes "bound ctx ws" and "0 < ws \<Longrightarrow> shows_own h ws (k ws)"
  shows "shows_own h ws (in_workspace ctx requested k)"
proof (cases "resolveWorkspace ctx requested")
  case (Inr w)
  then have "w = ws \<and> 0 < ws" using assms(1) Workspace_cases by (fastforce simp: bound_def dest: resolveWorkspace_cases)
  with Inr assms(2) show ?thesis by (simp add: in_workspace_def)
qed (simp add: in_workspace_def shows_respond)

lemma shows_reading:
  assumes "bound ctx ws" and "0 < ws \<Longrightarrow> shows_own h ws (k ws)"
  shows "shows_own h ws (reading ctx r k)"
proof (cases "workspaceFromQuery ctx (arq_query r ''workspace_id'')")
  case (Inr w)
  then obtain i where "resolveWorkspace ctx i = Inr w" by (auto simp: workspaceFromQuery_def split: if_splits option.splits)
  then have "w = ws \<and> 0 < ws" using assms(1) Workspace_cases by (fastforce simp: bound_def dest: resolveWorkspace_cases)
  with Inr assms(2) show ?thesis by (simp add: reading_def shows_respond)
qed (simp add: reading_def shows_respond)

lemma row_results:
  "returns (\<lambda>m. msg_WorkspaceID m = ws) (store (CreateMessage \<lparr>msg_ID = i, msg_WorkspaceID = ws, msg_FromEmail = f, msg_ToEmail = t,
     msg_Subject = sj, msg_BodyText = b, msg_Status = st, msg_ScheduledAt = at, msg_CreatedAt = c, msg_UpdatedAt = u\<rparr>))"
  "returns (\<lambda>m. msg_ID m = j) (store (GetMessage j))"
  "returns (\<lambda>as. \<forall>a \<in> set as. att_MessageID a = j) (store (ListMessageAttempts j))"
  "returns (\<lambda>as. \<forall>a \<in> set as. sum_WorkspaceID a = ws) (store (ListSMTPAccounts ws))"
  "returns (\<lambda>ms. \<forall>m \<in> set ms. msg_WorkspaceID m = ws) (store (ListMessages ws n from to))"
  "returns (\<lambda>es. \<forall>e \<in> set es. evt_WorkspaceID e = ws) (store (ListWebhookEvents ws n s from to))"
  "returns (\<lambda>s. \<exists>ms. s = csv_text fmt ms \<and> (\<forall>m \<in> set ms. msg_WorkspaceID m = ws)) (store (ExportMessageLogsCSV fmt ws n))"
  "returns (\<lambda>p. \<forall>q. p = Some q \<longrightarrow> pol_WorkspaceID q = ws) (store (GetWorkspacePolicy ws))"
         apply (rule returns_store, auto simp: CreateMessage_def Let_def split: if_splits)[1]
        apply (rule returns_store, auto simp: GetMessage_def find_message_SomeD split: option.splits)[1]
       apply (rule returns_store, auto simp: ListMessageAttempts_def attempts_of_def)[1]
      apply (rule returns_store, auto simp: ListSMTPAccounts_def smtp_ranked_def)[1]
     apply (rule returns_store, auto simp: ListMessages_def dest!: in_set_takeD)[1]
    apply (rule returns_store, auto simp: ListWebhookEvents_def list_event_def scanWebhookEvent_def dest!: in_set_takeD)[1]
   apply (rule returns_store, auto simp: ExportMessageLogsCSV_def csv_text_def export_rows_def dest!: in_set_takeD intro!: exI)[1]
  apply (rule returns_store, auto simp: GetWorkspacePolicy_def)[1]
  done

lemma returns_if: "(b \<Longrightarrow> returns P m) \<Longrightarrow> (\<not> b \<Longrightarrow> returns P m') \<Longrightarrow> returns P (if b then m else m')"
  by simp

lemma returns_sum:
  "(\<And>e. r = Inl e \<Longrightarrow> returns P (f e)) \<Longrightarrow> (\<And>x. r = Inr x \<Longrightarrow> returns P (g x)) \<Longrightarrow> returns P (case r of Inl e \<Rightarrow> f e | Inr x \<Rightarrow> g x)"
  by (cases r) simp_all

lemma returns_let: "(\<And>x. x = t \<Longrightarrow> returns P (f x)) \<Longrightarrow> returns P (let x = t in f x)"
  by simp

lemma returns_prod: "(\<And>x y. p = (x, y) \<Longrightarrow> returns P (f x y)) \<Longrightarrow> returns P (case p of (x, y) \<Rightarrow> f x y)"
  by (cases p) simp

lemmas returns_steps = returns_step returns_sum returns_if returns_let returns_prod returns_return

lemma own_admitted: "returns (\<lambda>m. msg_WorkspaceID m = ws) (admit_message s ws f t sj b)"
  unfolding admit_message_def
  by (intro returns_step returns_sum returns_return returns_bind [OF row_results(1)]; simp)
     (intro impI conjI returns_steps; simp)

lemma own_queued: "returns (\<lambda>m. msg_WorkspaceID m = ws) (QueueMessage s ws f t sj b)"
  unfolding QueueMessage_def by (intro returns_steps own_admitted) simp_all

lemma own_policy: "0 < ws \<Longrightarrow> returns (\<lambda>p. pol_WorkspaceID p = ws) (workspacePolicy s ws)"
  unfolding workspacePolicy_def Let_def
  by (simp, rule returns_bind [OF row_results(8)]) (auto intro!: returns_return split: option.split)

lemma own_timeline: "returns (\<lambda>x. \<forall>a \<in> set (snd x). att_MessageID a = msg_ID (fst x)) (MessageTimeline i)"
  unfolding MessageTimeline_def
  by (rule returns_bind [OF row_results(2)]) (auto intro!: returns_return returns_bind [OF row_results(3)])

lemma own_checklist: "0 < ws \<Longrightarrow> returns (\<lambda>c. och_WorkspaceID c = ws) (TechnicalOnboardingChecklist s ws)"
  unfolding TechnicalOnboardingChecklist_def by (intro returns_steps) auto

lemma own_incident:
  assumes "0 < ws"
  shows "returns (\<lambda>b. own_payload h ws (JIncident b)) (IncidentBundle ws i)"
proof -
  have ws: "(if ws = 0 then 1 else ws) = ws" using assms by simp
  show ?thesis
    unfolding IncidentBundle_def Let_def ws
    by (intro returns_if returns_return returns_bind [OF own_timeline])
       (auto intro!: returns_return returns_bind [OF row_results(6)] returns_step [of _ _ time_Now])
qed

lemma shows_if: "(b \<Longrightarrow> shows_own h ws m) \<Longrightarrow> (\<not> b \<Longrightarrow> shows_own h ws m') \<Longrightarrow> shows_own h ws (if b then m else m')"
  by simp

lemma shows_sum:
  "(\<And>e. r = Inl e \<Longrightarrow> shows_own h ws (f e)) \<Longrightarrow> (\<And>x. r = Inr x \<Longrightarrow> shows_own h ws (g x)) \<Longrightarrow>
   shows_own h ws (case r of Inl e \<Rightarrow> f e | Inr x \<Rightarrow> g x)"
  by (cases r) simp_all

lemma shows_option:
  "(r = None \<Longrightarrow> shows_own h ws m) \<Longrightarrow> (\<And>x. r = Some x \<Longrightarrow> shows_own h ws (g x)) \<Longrightarrow>
   shows_own h ws (case r of None \<Rightarrow> m | Some x \<Rightarrow> g x)"
  by (cases r) simp_all

lemma shows_let: "(\<And>x. x = t \<Longrightarrow> shows_own h ws (f x)) \<Longrightarrow> shows_own h ws (let x = t in f x)"
  by simp

lemma shows_prod: "(\<And>x y. p = (x, y) \<Longrightarrow> shows_own h ws (f x y)) \<Longrightarrow> shows_own h ws (case p of (x, y) \<Rightarrow> f x y)"
  by (cases p) simp

text \<open>A call whose result is put into the response.\<close>

lemma shows_call:
  assumes "returns P m" and "\<And>e. own_payload h ws (snd (f (Inl e)))" and "\<And>x. P x \<Longrightarrow> own_payload h ws (snd (f (Inr x)))"
  shows "shows_own h ws (m \<bind> (\<lambda>r. respond (f r)))"
  by (rule shows_bind [OF assms(1)]) (simp_all add: shows_respond assms(2,3))

lemmas shows_steps = shows_if shows_sum shows_option shows_let shows_prod shows_posting

lemma own_render: "own_payload h ws p \<Longrightarrow> own_payload h ws (snd (RenderPage h template p))"
  by (simp add: RenderPage_def)

lemma writers_show:
  assumes "bound ctx ws"
  shows "shows_own h ws (createMessage h ctx r)" "shows_own h ws (createSuppression h ctx r)"
    "shows_own h ws (createUnsubscribe h ctx r)" "shows_own h ws (upsertSMTPAccount h ctx r)"
    "shows_own h ws (activateSMTPAccount h ctx r)" "shows_own h ws (checkDomainReadiness h ctx r)"
    "shows_own h ws (validateSMTPAccount h ctx r)" "shows_own h ws (retryMessages h ctx r)"
    "shows_own h ws (replayWebhookDeadLetters h ctx r)"
  unfolding createMessage_def createSuppression_def createUnsubscribe_def upsertSMTPAccount_def activateSMTPAccount_def
    checkDomainReadiness_def validateSMTPAccount_def retryMessages_def replayWebhookDeadLetters_def
  by (intro shows_steps shows_workspace [OF assms] shows_call [OF own_queued] shows_call [OF returns_any] shows_respond; simp)+

lemma policy_shows: "0 < ws \<Longrightarrow> shows_own h ws (policy_response h ws)"
  unfolding policy_response_def by (rule shows_call [OF own_policy]) simp_all

lemma policy_handler_shows: "bound ctx ws \<Longrightarrow> shows_own h ws (handler_workspacePolicy h ctx r)"
  unfolding handler_workspacePolicy_def
  by (intro shows_steps shows_workspace shows_reading policy_shows shows_step shows_respond) simp_all

lemma timeline_shows:
  assumes "bound ctx ws"
  shows "shows_own h ws (messageTimeline h ctx r)"
proof -
  have "msg_WorkspaceID m \<in> {ws, 0}" if run: "Workspace ctx (msg_WorkspaceID m) = Inr w" for m :: Message and w
  proof -
    have "w = ws" using assms run by (simp add: bound_def)
    with run show ?thesis by (auto simp: Workspace_def split: prod.splits if_splits)
  qed
  then show ?thesis
    unfolding messageTimeline_def
    by (intro shows_steps shows_call [OF own_timeline] shows_respond) (simp_all split: sum.split prod.split)
qed

lemma readers_show:
  assumes "bound ctx ws"
  shows "shows_own h ws (listSMTPAccounts h ctx r)" "shows_own h ws (onboardingChecklist h ctx r)"
    "shows_own h ws (incidentBundleExport h ctx r)" "shows_own h ws (messageLogs h ctx r)" "shows_own h ws (webhookLogs h ctx r)"
  unfolding listSMTPAccounts_def onboardingChecklist_def incidentBundleExport_def messageLogs_def webhookLogs_def MessageLogs_def
    WebhookLogs_def
  by (intro shows_reading [OF assms] shows_steps shows_call [OF row_results(4)] shows_call [OF own_checklist]
      shows_call [OF own_incident] shows_call [OF row_results(5)] shows_call [OF row_results(6)] shows_respond; simp add: Let_def)+

lemma summaries_show:
  assumes "bound ctx ws"
  shows "shows_own h ws (analyticsSummary h ctx r)" "shows_own h ws (billingMetering h ctx r)"
  unfolding analyticsSummary_def billingMetering_def
  by (rule shows_reading [OF assms], rule shows_step, rule shows_prod, rule shows_call [OF returns_any], simp, simp)+

lemma pages_show:
  assumes "bound ctx ws"
  shows "shows_own h ws (analyticsExportCSV h ctx r)" "shows_own h ws (workspacePolicyUI h ctx r)"
    "shows_own h ws (messageLogsUI h ctx r)" "shows_own h ws (operatorDashboardUI h ctx r)"
    "shows_own h ws (onboardingUI h ctx r)" "shows_own h ws (incidentUI h ctx r)"
  unfolding analyticsExportCSV_def workspacePolicyUI_def messageLogsUI_def operatorDashboardUI_def onboardingUI_def
    incidentUI_def page_UI_def
  by (intro shows_reading [OF assms] shows_steps shows_call [OF row_results(7)] shows_call [OF own_policy] shows_respond own_render;
      simp add: own_render)+

lemma handlers_show:
  assumes "bound ctx ws" and "map_of (handler_of h) path = Some handle"
  shows "shows_own h ws (handle ctx r)"
proof -
  have "handle \<in> snd ` set (handler_of h)" using map_of_SomeD [OF assms(2)] by force
  then show ?thesis
    using writers_show [OF assms(1)] policy_handler_shows [OF assms(1)] timeline_shows [OF assms(1)] readers_show [OF assms(1)]
      summaries_show [OF assms(1)] pages_show [OF assms(1)]
    by (auto simp: handler_of_def)
qed



end
