(* ===== verification/Webhook_Endpoint.thy ===== *)
theory Webhook_Endpoint
  imports Tenant_Isolation
begin

text \<open>
  The contract of the webhook endpoint with the provider that posts to it: what is acknowledged is in
  the event table.
\<close>

section \<open>Definitions\<close>

definition identities :: "shared \<Rightarrow> (int \<times> string) set" where
  "identities sh = event_key ` set (db_webhook_events (sh_db sh))"

text \<open>The event table stays consistent and no event leaves it.\<close>

definition events_grow :: "shared \<Rightarrow> shared \<Rightarrow> bool" where
  "events_grow sh sh' \<longleftrightarrow> keeps_events sh sh' \<and> (events_ok sh \<longrightarrow> identities sh \<subseteq> identities sh')"

text \<open>The event that a parsed request is recorded as.\<close>

definition recorded_as :: "Handler \<Rightarrow> string \<Rightarrow> webhookEventRequest \<Rightarrow> WebhookEvent" where
  "recorded_as h raw req =
     settled_event (hd_sha256 h) (whq_WorkspaceID req) (ToLower (TrimSpace (whq_Type req))) (TrimSpace (whq_Email req))
       (TrimSpace (whq_Reason req)) raw (whq_Identity req)"

definition event_identity :: "WebhookEvent \<Rightarrow> int \<times> string" where
  "event_identity e = (evt_WorkspaceID e, evt_IdentityKey e)"

definition addressed :: "webhookEventRequest \<Rightarrow> bool" where
  "addressed req \<longleftrightarrow> TrimSpace (whq_Email req) \<noteq> []"

text \<open>The dead letter that a payload is kept as.\<close>

definition parked :: "Handler \<Rightarrow> int \<Rightarrow> string \<Rightarrow> string \<Rightarrow> string \<Rightarrow> WebhookEvent" where
  "parked h ws reason err raw =
     (let e = (new_event ws ''unknown'' [] reason raw)\<lparr>evt_Status := ''dead_letter'', evt_AttemptCount := 1, evt_LastError := TrimSpace err\<rparr>
      in e\<lparr>evt_IdentityKey := storeWebhookIdentityKey (hd_sha256 h) e\<rparr>)"

text \<open>The workspace that the rejected records of a payload are kept for.\<close>

definition rejected_workspace :: "webhookEventRequest list \<Rightarrow> int" where
  "rejected_workspace events = (case events of [] \<Rightarrow> 1 | e # _ \<Rightarrow> if whq_WorkspaceID e > 0 then whq_WorkspaceID e else 1)"

text \<open>A response that counts the events of a payload: \<open>p\<close> processed and \<open>r\<close> rejected.\<close>

definition counts_events :: "payload \<Rightarrow> int \<Rightarrow> int \<Rightarrow> bool" where
  "counts_events a p r \<longleftrightarrow> p > 0 \<and>
     ((\<exists>ws t email. p = 1 \<and> r = 0 \<and> a = JEventAccepted ws t email) \<or> (\<exists>dl. a = JEventCounts p r dl (p + r)))"

text \<open>Everything the payload holds is in the event table, and the response counts it.\<close>

definition payload_recorded :: "Handler \<Rightarrow> string \<Rightarrow> payload \<Rightarrow> shared \<Rightarrow> bool" where
  "payload_recorded h body a sh =
     (case parseWebhookEvents (dec_any (hd_json h) body) of
        Inl err \<Rightarrow> event_identity (parked h 1 ''invalid_payload'' err body) \<in> identities sh \<and> a = JEventCounts 0 1 1 1
      | Inr (events, rejected) \<Rightarrow>
          let r = rejected + int (length (filter (\<lambda>req. \<not> addressed req) events)) in
          (\<forall>req \<in> set events. addressed req \<longrightarrow> event_identity (recorded_as h body req) \<in> identities sh) \<and>
          (r > 0 \<longrightarrow> event_identity (parked h (rejected_workspace events) ''rejected_records''
             ''webhook payload contained unsupported or incomplete records'' body) \<in> identities sh) \<and>
          counts_events a (int (length (filter addressed events))) r)"

definition webhook_handler :: Handler where
  "webhook_handler = demo_handler\<lparr>hd_json := demo_decoders\<lparr>dec_any := (\<lambda>s. Some (JArray [ses_bounce ''eventType'', JNull]))\<rparr>\<rparr>"

definition webhook_post :: api_request where
  "webhook_post = \<lparr>arq_method = ''POST'', arq_query = (\<lambda>k. []), arq_body = Some ''{}'', arq_timestamp = ''1'',
     arq_signature = ''v1='' @ EncodeToString ''key1.{}''\<rparr>"

definition demo_receive :: "(response \<times> world)" where
  "demo_receive = run_state (receiveWebhookEvent webhook_handler webhook_post) (demo_world (demo_db ''sent'') demo_relay)"

section \<open>The webhook endpoint\<close>

interpretation events_grow: shared_relation events_grow
  by unfold_locales (auto simp: events_grow_def keeps_events_def)

lemma process_identities:
  assumes inv: "webhook_inv d"
  shows "event_key ` set (db_webhook_events d) \<subseteq> event_key ` set (db_webhook_events (snd (ProcessWebhookEventAtomic e t d)))"
    and "fst (ProcessWebhookEventAtomic e t d) = Inr ev \<Longrightarrow>
      event_identity e \<in> event_key ` set (db_webhook_events (snd (ProcessWebhookEventAtomic e t d)))"
proof -
  let ?d' = "snd (ProcessWebhookEventAtomic e t d)"
  consider (known) row where "find_identity (evt_WorkspaceID e) (evt_IdentityKey e) d = Some row"
    | (new) "find_identity (evt_WorkspaceID e) (evt_IdentityKey e) d = None" "has_workspace (evt_WorkspaceID e) d"
    | (lost) "find_identity (evt_WorkspaceID e) (evt_IdentityKey e) d = None" "\<not> has_workspace (evt_WorkspaceID e) d" by blast
  then have "event_key ` set (db_webhook_events d) \<subseteq> event_key ` set (db_webhook_events ?d') \<and>
      (fst (ProcessWebhookEventAtomic e t d) = Inr ev \<longrightarrow> event_identity e \<in> event_key ` set (db_webhook_events ?d'))"
  proof cases
    case known
    then have "event_identity e \<in> event_key ` set (db_webhook_events d)"
      using find_identity_None [of "evt_WorkspaceID e" "evt_IdentityKey e" d] by (simp add: event_identity_def)
    with known show ?thesis by (simp add: ProcessWebhookEventAtomic_known)
  next
    case new
    then show ?thesis
      using ProcessWebhookEventAtomic_new [OF inv new(2,1)]
      by (auto simp: Let_def stored_event_def event_key_def event_identity_def)
  next
    case lost
    then show ?thesis by (simp add: ProcessWebhookEventAtomic_no_workspace)
  qed
  then show "event_key ` set (db_webhook_events d) \<subseteq> event_key ` set (db_webhook_events ?d')"
    "fst (ProcessWebhookEventAtomic e t d) = Inr ev \<Longrightarrow> event_identity e \<in> event_key ` set (db_webhook_events ?d')"
    by blast+
qed

lemma grow_process: "state_io_rel (moves events_grow) (store (ProcessWebhookEventAtomic e))"
  by (rule events_grow.moves_store)
     (auto simp: events_grow_def keeps_events_def events_ok_def identities_def ProcessWebhookEventAtomic_inv
        ProcessWebhookEventAtomic_cover dest: process_identities(1))

lemma grow_insert:
  assumes "evt_Status e = ''dead_letter''"
  shows "state_io_rel (moves events_grow) (store (insert_webhook_event e))"
proof (rule events_grow.moves_store)
  show "events_grow sh (sh\<lparr>sh_db := snd (insert_webhook_event e t (sh_db sh))\<rparr>)" for t sh
    using assms by (auto simp: events_grow_def keeps_events_def events_ok_def insert_webhook_event_inv insert_dead_letter_cover)
      (auto simp: identities_def insert_webhook_event_def Let_def)
qed

lemma grow_record: "state_io_rel (moves events_grow) (RecordWebhookDeadLetter sha256 ws t email reason err raw n)"
proof -
  have "state_io_rel (moves events_grow) (store (select_webhook_event ws k))" for ws k
    by (rule events_grow.reads_within) (simp add: select_webhook_event_def split: option.split)
  then show ?thesis
    unfolding RecordWebhookDeadLetter_def InsertWebhookEvent_def
    by (intro events_grow.world.within grow_insert) simp_all
qed

lemma grow_receive:
  assumes "svc_atomic_store (hd_messages h)"
  shows "state_io_rel (moves events_grow) (receive_events h raw events rc)"
proof (induction events arbitrary: rc)
  case (Cons req events)
  show ?case
    unfolding receive_events.simps ProcessWebhookEvent_atomic [OF assms]
    by (intro events_grow.world.within grow_process Cons.IH)
qed (simp add: events_grow.world.within_return)

lemma events_growD: "moves events_grow w w' \<Longrightarrow> others events_grow w \<Longrightarrow> events_ok (w_shared w) \<Longrightarrow>
    others events_grow w' \<and> events_ok (w_shared w') \<and> identities (w_shared w) \<subseteq> identities (w_shared w')"
  by (auto simp: moves_def events_grow_def keeps_events_def same_env_def others_def)

lemma deliver_records:
  assumes oth: "others events_grow w" and ok: "events_ok (w_shared w)"
    and run: "run_state (store (ProcessWebhookEventAtomic e)) w = (Inr ev, w')"
  shows "event_identity e \<in> identities (w_shared w')"
proof -
  have "events_ok (interfered w)" using oth ok by (auto simp: others_def interfered_def events_grow_def keeps_events_def)
  then have "webhook_inv (sh_db (interfered w))" by (simp add: events_ok_def)
  from process_identities(2) [OF this store_ok(1) [OF run]] show ?thesis
    unfolding store_ok(2) [OF run] by (simp add: identities_def after_step_def upd_db_def)
qed

lemma recorded_as_event:
  "settled_event (hd_sha256 h) (if whq_WorkspaceID req = 0 then 1 else whq_WorkspaceID req) (ToLower (TrimSpace (whq_Type req)))
     (TrimSpace (whq_Email req)) (TrimSpace (whq_Reason req)) raw (whq_Identity req) = recorded_as h raw req"
  by (simp add: recorded_as_def settled_event_def Let_def)

lemma receive_records:
  assumes atomic: "svc_atomic_store (hd_messages h)" and "others events_grow w" and "events_ok (w_shared w)"
    and "run_state (receive_events h raw events rc) w = (Inr rc', w')"
  shows "(\<forall>req \<in> set events. addressed req \<longrightarrow> event_identity (recorded_as h raw req) \<in> identities (w_shared w')) \<and>
    rcp_processed rc' = rcp_processed rc + int (length (filter addressed events)) \<and>
    rcp_rejected rc' = rcp_rejected rc + int (length (filter (\<lambda>req. \<not> addressed req) events))"
  using assms(2-4)
proof (induction events arbitrary: w rc)
  case (Cons req events)
  show ?case
  proof (cases "addressed req")
    case False
    with Cons.prems have "run_state (receive_events h raw events (rc\<lparr>rcp_rejected := rcp_rejected rc + 1\<rparr>)) w = (Inr rc', w')"
      by (simp add: addressed_def Let_def)
    from Cons.IH [OF Cons.prems(1,2) this] False show ?thesis by simp
  next
    case True
    let ?e = "recorded_as h raw req"
    obtain res w1 where step: "run_state (store (ProcessWebhookEventAtomic ?e)) w = (res, w1)" by (metis surj_pair)
    with Cons.prems(3) True obtain ev rc1 where ev: "res = Inr ev"
      and rest: "run_state (receive_events h raw events rc1) w1 = (Inr rc', w')"
      and rc1: "rcp_processed rc1 = rcp_processed rc + 1" "rcp_rejected rc1 = rcp_rejected rc"
      by (cases res) (auto simp: addressed_def Let_def ProcessWebhookEvent_atomic [OF atomic] recorded_as_event)
    note now = events_growD [OF state_io_relD [OF grow_process step] Cons.prems(1,2)]
    have "event_identity ?e \<in> identities (w_shared w1)" by (rule deliver_records [OF Cons.prems(1,2) step [unfolded ev]])
    moreover have "identities (w_shared w1) \<subseteq> identities (w_shared w')"
      using events_growD [OF state_io_relD [OF grow_receive [OF atomic] rest]] now by blast
    ultimately show ?thesis using Cons.IH [OF _ _ rest] now rc1 True by auto
  qed
qed simp

lemma insert_identity:
  assumes "run_state (store (insert_webhook_event e)) w = (Inr r, w')"
  shows "event_identity e \<in> identities (w_shared w')"
proof -
  let ?d = "sh_db (interfered w)" and ?op = "insert_webhook_event e (w_clock w (w_step w))"
  have "fst (?op ?d) = Inr r" by (rule store_ok(1) [OF assms])
  then have "event_identity e \<in> event_key ` set (db_webhook_events (snd (?op ?d)))"
    using find_identity_None [of "evt_WorkspaceID e" "evt_IdentityKey e" ?d]
    by (auto simp: insert_webhook_event_def Let_def bump_seq_def event_identity_def event_key_def split: if_splits)
  then show ?thesis unfolding store_ok(2) [OF assms] by (simp add: identities_def after_step_def upd_db_def)
qed

lemma insert_event_identity:
  assumes oth: "others events_grow w" and ok: "events_ok (w_shared w)" and st: "evt_Status e = ''dead_letter''"
    and run: "run_state (InsertWebhookEvent sha256 e) w = (Inr out, w')"
  shows "event_identity (if evt_IdentityKey e = [] then e\<lparr>evt_IdentityKey := storeWebhookIdentityKey sha256 e\<rparr> else e)
    \<in> identities (w_shared w')"
proof -
  let ?e = "if evt_IdentityKey e = [] then e\<lparr>evt_IdentityKey := storeWebhookIdentityKey sha256 e\<rparr> else e"
  obtain r w1 where first: "run_state (store (insert_webhook_event ?e)) w = (r, w1)" by (metis surj_pair)
  with run obtain v where v: "r = Inr v" by (cases r) (auto simp: InsertWebhookEvent_def Let_def)
  note now = insert_identity [OF first [unfolded v]]
  have st': "evt_Status ?e = ''dead_letter''" using st by simp
  note grown = events_growD [OF state_io_relD [OF grow_insert [OF st'] first] oth ok]
  show ?thesis
  proof (cases v)
    case (Some x)
    with run first v now show ?thesis by (auto simp: InsertWebhookEvent_def Let_def)
  next
    case None
    obtain r2 where again: "run_state (store (select_webhook_event (evt_WorkspaceID ?e) (evt_IdentityKey ?e))) w1 = (r2, w')"
      using run first v None by (auto simp: InsertWebhookEvent_def Let_def split: prod.splits)
    have "state_io_rel (moves events_grow) (store (select_webhook_event ws k))" for ws k
      by (rule events_grow.reads_within) (simp add: select_webhook_event_def split: option.split)
    from events_growD [OF state_io_relD [OF this again]] grown now show ?thesis by blast
  qed
qed

lemma record_parks:
  assumes "others events_grow w" and "events_ok (w_shared w)" and ws: "ws \<noteq> 0" and reason: "TrimSpace reason = reason"
    and run: "run_state (RecordWebhookDeadLetter (hd_sha256 h) ws ''unknown'' [] reason err raw 1) w = (Inr out, w')"
  shows "event_identity (parked h ws reason err raw) \<in> identities (w_shared w')"
proof -
  let ?e = "(new_event ws ''unknown'' [] reason raw)\<lparr>evt_Status := ''dead_letter'', evt_AttemptCount := 1, evt_LastError := TrimSpace err\<rparr>"
  have lit: "TrimSpace (ToLower ''unknown'') = ''unknown''" "TrimSpace (ToLower []) = []" by code_simp+
  have "run_state (InsertWebhookEvent (hd_sha256 h) ?e) w = (Inr out, w')"
    using run ws reason by (simp add: RecordWebhookDeadLetter_def Let_def lit)
  from insert_event_identity [OF assms(1,2) _ this] show ?thesis by (simp add: parked_def Let_def new_event_def)
qed

lemma receipt_response_counts:
  assumes "receipt_response rc = (202, a)" and "rcp_processed rc \<ge> 0"
  shows "counts_events a (rcp_processed rc) (rcp_rejected rc)"
  using assms by (auto simp: receipt_response_def counts_events_def split: if_splits prod.splits)

lemma rejected_records_parks:
  assumes "others events_grow w" and "events_ok (w_shared w)" and "rcp_processed rc \<ge> 0"
    and run: "run_state (rejected_records h raw events rc) w = ((202, a), w')"
  shows "(rcp_rejected rc > 0 \<longrightarrow> event_identity (parked h (rejected_workspace events) ''rejected_records''
             ''webhook payload contained unsupported or incomplete records'' raw) \<in> identities (w_shared w')) \<and>
     counts_events a (rcp_processed rc) (rcp_rejected rc) \<and> identities (w_shared w) \<subseteq> identities (w_shared w')"
proof (cases "rcp_rejected rc > 0")
  case False
  with run assms(3) show ?thesis by (auto simp: rejected_records_def respond_def intro: receipt_response_counts)
next
  case True
  let ?ws = "rejected_workspace events"
  have ws: "(case events of e # _ \<Rightarrow> if whq_WorkspaceID e > 0 then whq_WorkspaceID e else 1 | [] \<Rightarrow> 1) = ?ws" "?ws \<noteq> 0"
    by (simp_all add: rejected_workspace_def split: list.split)
  let ?park = "RecordWebhookDeadLetter (hd_sha256 h) ?ws ''unknown'' [] ''rejected_records''
     ''webhook payload contained unsupported or incomplete records'' raw 1"
  obtain r where park: "run_state ?park w = (r, w')"
    and a: "(case r of Inl e \<Rightarrow> internal_error e
      | Inr _ \<Rightarrow> receipt_response (rc\<lparr>rcp_deadLettered := rcp_deadLettered rc + 1\<rparr>)) = (202, a)"
    using run True by (auto simp: rejected_records_def respond_def ws(1) Let_def split: prod.splits)
  then obtain ev where ev: "r = Inr ev" by (cases r) (auto simp: internal_error_def)
  have lit: "TrimSpace ''rejected_records'' = ''rejected_records''" by code_simp
  have "counts_events a (rcp_processed rc) (rcp_rejected rc)"
    using receipt_response_counts [OF a [unfolded ev sum.case]] assms(3) by simp
  with record_parks [OF assms(1,2) ws(2) lit park [unfolded ev]] events_growD [OF state_io_relD [OF grow_record park] assms(1,2)]
  show ?thesis by simp
qed

lemma receive_errors:
  assumes "run_state (receive_events h raw events rc) w = (Inl a, w')"
  shows "fst a = 500"
  using assms
proof (induction events arbitrary: w rc)
  case (Cons req events)
  then show ?case by (auto simp: Let_def internal_error_def split: if_splits prod.splits sum.splits)
qed simp

lemma events_recorded:
  assumes atomic: "svc_atomic_store (hd_messages h)" and oth: "others events_grow w" and ok: "events_ok (w_shared w)"
    and parsed: "parseWebhookEvents (dec_any (hd_json h) body) = Inr (events, rejected)" 
    and loop: "run_state (receive_events h body events
       \<lparr>rcp_processed = 0, rcp_rejected = rejected, rcp_deadLettered = 0, rcp_firstAccepted = (0, [], [])\<rparr>) w = (Inr rc, w1)"
    and rest: "run_state (rejected_records h body events rc) w1 = ((202, a), w')"
  shows "payload_recorded h body a (w_shared w')"
proof -
  note grown = events_growD [OF state_io_relD [OF grow_receive [OF atomic] loop] oth ok]
  note loops = receive_records [OF atomic oth ok loop]
  have "rcp_processed rc \<ge> 0" using loops by simp
  from rejected_records_parks [OF _ _ this rest] grown loops show ?thesis
    by (auto simp: payload_recorded_def parsed Let_def)
qed

lemma accepted_payload:
  assumes atomic: "svc_atomic_store (hd_messages h)" and ok: "others events_grow w" "events_ok (w_shared w)"
    and run: "run_state (case parseWebhookEvents (dec_any (hd_json h) body) of
       Inl err \<Rightarrow> do {
         r \<leftarrow> RecordWebhookDeadLetter (hd_sha256 h) 1 ''unknown'' [] ''invalid_payload'' err body 1;
         respond (case r of Inl e \<Rightarrow> internal_error e | Inr _ \<Rightarrow> (202, JEventCounts 0 1 1 1)) }
     | Inr (events, rejected) \<Rightarrow> do {
         res \<leftarrow> receive_events h body events
           \<lparr>rcp_processed = 0, rcp_rejected = rejected, rcp_deadLettered = 0, rcp_firstAccepted = (0, [], [])\<rparr>;
         case res of Inl a \<Rightarrow> respond a | Inr rc \<Rightarrow> rejected_records h body events rc }) w = ((202, a), w')"
  shows "payload_recorded h body a (w_shared w')"
proof (cases "parseWebhookEvents (dec_any (hd_json h) body)")
  case (Inl err)
  let ?park = "RecordWebhookDeadLetter (hd_sha256 h) 1 ''unknown'' [] ''invalid_payload'' err body 1"
  obtain res where park: "run_state ?park w = (res, w')"
    and a: "(case res of Inl e \<Rightarrow> internal_error e | Inr _ \<Rightarrow> (202, JEventCounts 0 1 1 1)) = (202, a)"
    using run Inl by (auto simp: respond_def split: prod.splits)
  then obtain ev where ev: "res = Inr ev" by (cases res) (auto simp: internal_error_def)
  have lit: "TrimSpace ''invalid_payload'' = ''invalid_payload''" by code_simp
  from record_parks [OF ok _ lit park [unfolded ev]] a ev Inl show ?thesis by (simp add: payload_recorded_def)
next
  case (Inr parsed)
  obtain events rejected where parsed: "parseWebhookEvents (dec_any (hd_json h) body) = Inr (events, rejected)"
    using Inr by (cases parsed) simp
  let ?rc = "\<lparr>rcp_processed = 0, rcp_rejected = rejected, rcp_deadLettered = 0, rcp_firstAccepted = (0, [], [])\<rparr>"
  obtain res w1 where loop: "run_state (receive_events h body events ?rc) w = (res, w1)" by (metis surj_pair)
  have rest: "run_state (case res of Inl a \<Rightarrow> respond a | Inr rc \<Rightarrow> rejected_records h body events rc) w1 = ((202, a), w')"
    using run loop parsed by simp
  show ?thesis
  proof (cases res)
    case (Inl b)
    with receive_errors [OF loop [unfolded Inl]] rest show ?thesis by (simp add: respond_def)
  next
    case (Inr rc)
    with rest events_recorded [OF atomic ok parsed loop [unfolded Inr]] show ?thesis by simp
  qed
qed

text \<open>
  C16 The webhook endpoint keeps what it acknowledges. A request that it answers with 202 was a
  POST whose body, of at most 1 MiB, carries a signature that \<open>Verify\<close> accepts at the time of the
  request; and whatever the other processes do, every event of the payload is then in the event table
  under its identity, an unreadable payload or the records without an address are there as a dead
  letter, and the response counts them. A request with another signature is answered with 401 and
  the store is not touched for it.
\<close>

theorem accepted_webhook_recorded:
  assumes "svc_atomic_store (hd_messages h)" and "others events_grow w" and "events_ok (w_shared w)"
    and run: "run_state (receiveWebhookEvent h r) w = ((code, a), w')"
    and signed: "signature = (\<lambda>body. Verify (hd_hmac h) (hd_verifier h) (arq_timestamp r) (arq_signature r) body (w_clock w (w_step w)))"
  shows "(code = 202 \<longrightarrow> (\<exists>whole. arq_method r = ''POST'' \<and> arq_body r = Some whole \<and>
            signature (limit_reader 1048576 whole) = None \<and>
            payload_recorded h (limit_reader 1048576 whole) a (w_shared w'))) \<and>
    (\<forall>whole. arq_method r = ''POST'' \<longrightarrow> arq_body r = Some whole \<longrightarrow> signature (limit_reader 1048576 whole) \<noteq> None \<longrightarrow>
       code = 401 \<and> w_shared w' = interfered w)"
proof (cases "arq_method r = ''POST'' \<and> arq_body r \<noteq> None")
  case False
  then consider "arq_method r \<noteq> ''POST''" | "arq_body r = None" by blast
  then have "code = 405 \<or> code = 400"
    using run by cases (auto simp: receiveWebhookEvent_def respond_def method_not_allowed_def split: if_splits)
  with False show ?thesis by auto
next
  case True
  then obtain whole where post: "arq_method r = ''POST''" "arq_body r = Some whole" by auto
  let ?body = "limit_reader 1048576 whole" and ?w = "after_step (interfered w) w"
  have now: "run_state time_Now w = (w_clock w (w_step w), ?w)" by (simp add: time_Now_def)
  have ok: "others events_grow ?w" "events_ok (w_shared ?w)"
    using assms(2,3) by (auto simp: others_def after_step_def interfered_def events_grow_def keeps_events_def)
  show ?thesis
  proof (cases "signature ?body")
    case (Some e)
    with run post now show ?thesis by (auto simp: receiveWebhookEvent_def respond_def signed Let_def after_step_def)
  next
    case None
    with run post now accepted_payload [OF assms(1) ok, of ?body a w'] show ?thesis
      by (simp add: receiveWebhookEvent_def signed Let_def)
  qed
qed

text \<open>The hypotheses hold for a signed payload of a permanent bounce and a record that is none.\<close>

theorem accepted_webhook_recorded_witness:
  "payload_recorded webhook_handler ''{}'' (snd (fst demo_receive)) (w_shared (snd demo_receive)) \<and>
   fst demo_receive = (202, JEventCounts 1 1 1 2)"
proof -
  let ?w = "demo_world (demo_db ''sent'') demo_relay"
  have ok: "svc_atomic_store (hd_messages webhook_handler)" "others events_grow ?w" "events_ok (w_shared ?w)"
    using demo_atomic demo_events_ok(1)
    by (simp_all add: webhook_handler_def demo_handler_def others_def demo_world_def events_grow.refl)
  have answered: "fst demo_receive = (202, JEventCounts 1 1 1 2)" by code_simp
  have run: "run_state (receiveWebhookEvent webhook_handler webhook_post) ?w = ((202, JEventCounts 1 1 1 2), snd demo_receive)"
    using answered by (simp add: demo_receive_def prod_eq_iff)
  have "payload_recorded webhook_handler ''{}'' (JEventCounts 1 1 1 2) (w_shared (snd demo_receive))"
    using accepted_webhook_recorded [OF ok run refl] by (auto simp: webhook_post_def limit_reader_def)
  with answered show ?thesis by simp
qed

end
