(* ===== verification/Auth_Handlers.thy ===== *)
theory Auth_Handlers
  imports Access Redis_Limiter Message_Service Go_Base64
begin

text \<open>
  The login limiter (\<open>src/internal/auth/ratelimit.go\<close>), the authentication handlers
  (\<open>src/internal/auth/handlers.go\<close>) and their routes (\<open>src/internal/httpserver/server.go\<close>), over the
  tables of users, the sessions and the limiter's keys in Redis. bcrypt, SHA-256, JSON decoding and
  time formatting are parameters.
\<close>

section \<open>Definitions\<close>

text \<open>
  The tables, the sessions and the keys of the login limiter: counters of failures and marks of
  lockouts, each mark with the instant at which Redis drops it.
\<close>

record auth_state =
  as_users :: users_db
  as_sessions :: sessions
  as_fails :: counters
  as_blocks :: "string \<rightharpoonup> go_time option"

text \<open>
  As in the world of the message service, each call is one step: other processes act before it, and
  it has a fate. \<open>aw_bcrypt\<close> is what \<open>bcrypt.GenerateFromPassword\<close> returns at a step, with the
  salt it then draws.
\<close>

record auth_world =
  aw_step :: nat
  aw_clock :: "nat \<Rightarrow> go_time"
  aw_fault :: "nat \<Rightarrow> fault"
  aw_random :: "nat \<Rightarrow> string result"
  aw_bcrypt :: "nat \<Rightarrow> string \<Rightarrow> string result"
  aw_other :: "nat \<Rightarrow> auth_state \<Rightarrow> auth_state"
  aw_state :: auth_state

type_synonym 'a aio = "(auth_world, 'a) state"

definition seen_state :: "auth_world \<Rightarrow> auth_state" where
  "seen_state w = aw_other w (aw_step w) (aw_state w)"

definition auth_step :: "nat \<Rightarrow> auth_state \<Rightarrow> auth_world \<Rightarrow> auth_world" where
  "auth_step n st w = w\<lparr>aw_step := aw_step w + n, aw_state := st\<rparr>"

definition auth_call :: "(go_time \<Rightarrow> auth_state \<Rightarrow> 'a result \<times> auth_state) \<Rightarrow> 'a result aio" where
  "auth_call f = State (\<lambda>w.
     let st = seen_state w in
     case aw_fault w (aw_step w) of
       Refused e \<Rightarrow> (Inl e, auth_step 1 st w)
     | Unacknowledged e \<Rightarrow> (Inl e, auth_step 1 (snd (f (aw_clock w (aw_step w)) st)) w)
     | Executed \<Rightarrow> (case f (aw_clock w (aw_step w)) st of (r, st') \<Rightarrow> (r, auth_step 1 st' w)))"

definition on_users :: "'a userop \<Rightarrow> 'a result aio" where
  "on_users op = auth_call (\<lambda>now st. case op now (as_users st) of (r, d) \<Rightarrow> (r, st\<lparr>as_users := d\<rparr>))"

text \<open>The session store, whose methods send one or two commands to Redis.\<close>

definition sessions_Create :: "int \<Rightarrow> duration \<Rightarrow> string result aio" where
  "sessions_Create userID ttl = State (\<lambda>w.
     let n = aw_step w; st = seen_state w in
     case session_Create (aw_random w n) (aw_fault w n) (aw_fault w (n + 1)) userID ttl (aw_clock w n) (as_sessions st) of
       (r, ss) \<Rightarrow> (r, auth_step 2 (st\<lparr>as_sessions := ss\<rparr>) w))"

definition sessions_Get :: "string \<Rightarrow> int result aio" where
  "sessions_Get sessionID = State (\<lambda>w.
     let n = aw_step w; st = seen_state w in
     case session_Get (aw_fault w n) (aw_fault w (n + 1)) sessionID (aw_clock w n) (as_sessions st) of
       (r, ss) \<Rightarrow> (r, auth_step 2 (st\<lparr>as_sessions := ss\<rparr>) w))"

definition sessions_Delete :: "string \<Rightarrow> unit result aio" where
  "sessions_Delete sessionID = State (\<lambda>w.
     let n = aw_step w; st = seen_state w in
     case session_Delete (aw_fault w n) sessionID (as_sessions st) of
       (r, ss) \<Rightarrow> (r, auth_step 1 (st\<lparr>as_sessions := ss\<rparr>) w))"

definition rand_bytes :: "string result aio" where
  "rand_bytes = State (\<lambda>w. (aw_random w (aw_step w), auth_step 1 (seen_state w) w))"

record LoginRateLimiter =
  ll_maxFailures :: int
  ll_failureWindow :: duration
  ll_lockout :: duration

definition failKey :: "string \<Rightarrow> string" where
  "failKey ip = ''maild:login:fail:'' @ ip"

definition blockKey :: "string \<Rightarrow> string" where
  "blockKey ip = ''maild:login:block:'' @ ip"

definition block_live :: "go_time \<Rightarrow> go_time option \<Rightarrow> bool" where
  "block_live now mark \<longleftrightarrow> (case mark of None \<Rightarrow> True | Some t \<Rightarrow> now < t)"

text \<open>The limiter is \<open>None\<close> if there is none, or no Redis.\<close>

definition IsLocked :: "LoginRateLimiter option \<Rightarrow> string \<Rightarrow> bool result aio" where
  "IsLocked l ip =
     (case l of
        None \<Rightarrow> State_Monad.return (Inr False)
      | Some _ \<Rightarrow> auth_call (\<lambda>now st.
          (Inr (case as_blocks st (blockKey ip) of None \<Rightarrow> False | Some mark \<Rightarrow> block_live now mark), st)))"

text \<open>\<open>SET\<close> with an expiry of 0 sets none.\<close>

definition set_block :: "string \<Rightarrow> duration \<Rightarrow> unit result aio" where
  "set_block k ttl = auth_call (\<lambda>now st.
     (Inr (), st\<lparr>as_blocks := (as_blocks st)(k \<mapsto> (if ttl = 0 then None else Some (now + ttl)))\<rparr>))"

definition del_fails :: "string \<Rightarrow> unit result aio" where
  "del_fails k = auth_call (\<lambda>now st. (Inr (), st\<lparr>as_fails := (as_fails st)(k := None)\<rparr>))"

definition del_block :: "string \<Rightarrow> unit result aio" where
  "del_block k = auth_call (\<lambda>now st. (Inr (), st\<lparr>as_blocks := (as_blocks st)(k := None)\<rparr>))"

definition RecordFailure :: "LoginRateLimiter option \<Rightarrow> string \<Rightarrow> unit result aio" where
  "RecordFailure limiter ip =
     (case limiter of
        None \<Rightarrow> State_Monad.return (Inr ())
      | Some l \<Rightarrow> do {
          r \<leftarrow> auth_call (\<lambda>now st. case redis_incr now (failKey ip) (as_fails st) of (n, cs) \<Rightarrow> (Inr n, st\<lparr>as_fails := cs\<rparr>));
          case r of
            Inl e \<Rightarrow> State_Monad.return (Inl e)
          | Inr n \<Rightarrow> do {
              _ \<leftarrow> (if n = 1
                   then auth_call (\<lambda>now st. (Inr (), st\<lparr>as_fails := redis_expire now (failKey ip) (ll_failureWindow l) (as_fails st)\<rparr>))
                   else State_Monad.return (Inr ()));
              _ \<leftarrow> (if n \<ge> ll_maxFailures l
                   then do { _ \<leftarrow> set_block (blockKey ip) (ll_lockout l); del_fails (failKey ip) }
                   else State_Monad.return (Inr ()));
              State_Monad.return (Inr ()) } })"

definition Reset :: "LoginRateLimiter option \<Rightarrow> string \<Rightarrow> unit result aio" where
  "Reset limiter ip =
     (case limiter of
        None \<Rightarrow> State_Monad.return (Inr ())
      | Some l \<Rightarrow> do { _ \<leftarrow> del_fails (failKey ip); _ \<leftarrow> del_block (blockKey ip); State_Monad.return (Inr ()) })"

text \<open>\<open>net.SplitHostPort\<close>: the host, or nothing where it returns an error.\<close>

definition before_last :: "char \<Rightarrow> string \<Rightarrow> string option" where
  "before_last c s = (case after_last c s of None \<Rightarrow> None | Some t \<Rightarrow> Some (take (length s - length t - 1) s))"

definition SplitHostPort :: "string \<Rightarrow> string option" where
  "SplitHostPort s =
     (case before_last (CHR '':'') s of
        None \<Rightarrow> None
      | Some front \<Rightarrow>
          if take 1 s = ''[''
          then (let host = takeWhile (\<lambda>c. c \<noteq> CHR '']'') (drop 1 s) in
                if front \<noteq> ''['' @ host @ '']'' then None
                else if CHR ''['' \<in> set (drop 1 s) \<or> CHR '']'' \<in> set (drop (length host + 2) s) then None
                else Some host)
          else if CHR '':'' \<in> set front \<or> CHR ''['' \<in> set s \<or> CHR '']'' \<in> set s then None
          else Some front)"

text \<open>A request to the authentication handlers. Missing headers are empty.\<close>

record auth_request = request +
  aq_method :: string
  aq_body :: string
  aq_forwarded_for :: string
  aq_real_ip :: string
  aq_remote_addr :: string

definition clientIP :: "auth_request \<Rightarrow> string" where
  "clientIP r =
     (let first = TrimSpace (hd (Split (CHR '','') (aq_forwarded_for r))) in
      if aq_forwarded_for r \<noteq> [] \<and> first \<noteq> [] then first
      else if aq_real_ip r \<noteq> [] then TrimSpace (aq_real_ip r)
      else case SplitHostPort (aq_remote_addr r) of None \<Rightarrow> aq_remote_addr r | Some host \<Rightarrow> host)"

text \<open>
  bcrypt is a parameter: whether a hash accepts a password. So is SHA-256.
\<close>

definition isValidEmail :: "string \<Rightarrow> bool" where
  "isValidEmail email \<longleftrightarrow> Contains email ''@'' \<and> length email \<ge> 3"

definition isBcryptHash :: "string \<Rightarrow> bool" where
  "isBcryptHash hash \<longleftrightarrow> HasPrefix hash ''$2''"

definition legacyHash :: "(string \<Rightarrow> string) \<Rightarrow> string \<Rightarrow> string" where
  "legacyHash sha256 password = Base64_Encode base64_std (sha256 (''maild-salt-v1-'' @ password))"

definition verifyPassword :: "(string \<Rightarrow> string) \<Rightarrow> (string \<Rightarrow> string \<Rightarrow> bool) \<Rightarrow> string \<Rightarrow> string \<Rightarrow> bool" where
  "verifyPassword sha256 bcrypt_accepts password hash =
     (if isBcryptHash hash then bcrypt_accepts hash password else legacyHash sha256 password = hash)"

definition hashPassword :: "string \<Rightarrow> string result aio" where
  "hashPassword password = State (\<lambda>w. (aw_bcrypt w (aw_step w) password, auth_step 1 (seen_state w) w))"

definition GenerateAPIKey :: "string result aio" where
  "GenerateAPIKey = do {
     r \<leftarrow> rand_bytes;
     State_Monad.return (case r of Inl e \<Rightarrow> Inl e | Inr b \<Rightarrow> Inr (''mk_'' @ Base64_Encode base64_url b)) }"

record signupRequest =
  sur_Email :: string
  sur_Password :: string

record loginRequest =
  lor_Email :: string
  lor_Password :: string
  lor_RememberMe :: bool

text \<open>
  The handler. The JSON decoders of the bodies, the two hash functions, the rendering of a time and
  the outcome of the two templates (\<open>None\<close> for a missing one) are parameters.
\<close>

record AuthHandler =
  ah_cookieSecure :: bool
  ah_allowSignup :: bool
  ah_loginPath :: string
  ah_loginLimiter :: "LoginRateLimiter option"
  ah_signupTemplate :: "bool option"
  ah_loginTemplate :: "bool option"
  ah_sha256 :: "string \<Rightarrow> string"
  ah_bcrypt_accepts :: "string \<Rightarrow> string \<Rightarrow> bool"
  ah_fmt_time :: "go_time \<Rightarrow> string"
  ah_dec_signup :: "string \<Rightarrow> signupRequest option"
  ah_dec_login :: "string \<Rightarrow> loginRequest option"
  ah_dec_name :: "string \<Rightarrow> string option"
  ah_dec_id :: "string \<Rightarrow> int option"

text \<open>The session cookie that a response sets; it is always http-only, for all paths, same-site lax.\<close>

record cookie =
  ck_value :: string
  ck_secure :: bool
  ck_maxAge :: int

record checklistItem =
  cli_ID :: string
  cli_Title :: string
  cli_Description :: string
  cli_Done :: bool
  cli_ActionLabel :: string
  cli_ActionHref :: string

record keyResponse =
  kr_ID :: int
  kr_Name :: string
  kr_KeyPrefix :: string
  kr_LastUsedAt :: string
  kr_CreatedAt :: string

record CreateAPIKeyResponse =
  ckr_ID :: int
  ckr_Name :: string
  ckr_Key :: string
  ckr_KeyPrefix :: string
  ckr_CreatedAt :: string

datatype auth_payload =
    AText string
  | AError string
  | AUser UserWithWorkspace
  | AStatus string
  | APage string
  | AChecklist int int int "checklistItem list"
  | AKeys "keyResponse list"
  | ANewKey CreateAPIKeyResponse
  | ADashboard int int string

type_synonym auth_response = "int \<times> cookie option \<times> auth_payload"

definition reply :: "int \<Rightarrow> auth_payload \<Rightarrow> auth_response aio" where
  "reply status body = State_Monad.return (status, None, body)"

definition not_allowed :: "auth_response aio" where
  "not_allowed = reply 405 (AText ''method not allowed'')"

definition sessionCookie :: "AuthHandler \<Rightarrow> string \<Rightarrow> int \<Rightarrow> cookie" where
  "sessionCookie h sessionID maxAge = \<lparr>ck_value = sessionID, ck_secure = ah_cookieSecure h, ck_maxAge = maxAge\<rparr>"

definition clearedCookie :: "AuthHandler \<Rightarrow> cookie" where
  "clearedCookie h = \<lparr>ck_value = [], ck_secure = ah_cookieSecure h, ck_maxAge = -1\<rparr>"

definition standardSessionTTL :: duration where
  "standardSessionTTL = 7 * 24 * Hour"

definition extendedSessionTTL :: duration where
  "extendedSessionTTL = 30 * 24 * Hour"

definition default_workspace :: "string \<Rightarrow> string" where
  "default_workspace email = hd (Split (CHR ''@'') email) @ [CHR 0x27] @ ''s workspace''"

definition create_account :: "AuthHandler \<Rightarrow> string \<Rightarrow> string \<Rightarrow> auth_response aio" where
  "create_account h email password = do {
     hashed \<leftarrow> hashPassword password;
     case hashed of
       Inl e \<Rightarrow> reply 500 (AError ''failed to hash password'')
     | Inr hash \<Rightarrow> do {
         created \<leftarrow> on_users (CreateUserWithWorkspace email hash (default_workspace email));
         case created of
           Inl e \<Rightarrow> reply 500 (AError ''failed to create account'')
         | Inr user \<Rightarrow> do {
             session \<leftarrow> sessions_Create (usr_ID user) standardSessionTTL;
             State_Monad.return (case session of
               Inl e \<Rightarrow> (500, None, AError ''failed to create session'')
             | Inr sessionID \<Rightarrow> (201, Some (sessionCookie h sessionID (standardSessionTTL div Second)), AUser user)) }}}"

definition Signup :: "AuthHandler \<Rightarrow> auth_request \<Rightarrow> auth_response aio" where
  "Signup h r =
     (if aq_method r \<noteq> ''POST'' then not_allowed
      else if \<not> ah_allowSignup h then reply 403 (AError ''signup is disabled'')
      else case ah_dec_signup h (aq_body r) of
        None \<Rightarrow> reply 400 (AText ''invalid JSON body'')
      | Some req \<Rightarrow>
         let email = ToLower (TrimSpace (sur_Email req)); password = TrimSpace (sur_Password req) in
         if email = [] \<or> \<not> isValidEmail email then reply 400 (AError ''valid email is required'')
         else if length password < 8 then reply 400 (AError ''password must be at least 8 characters'')
         else if length password > 72 then reply 400 (AError ''password must be 72 characters or less'')
         else do {
           found \<leftarrow> on_users (EmailExists email);
           case found of
             Inl e \<Rightarrow> reply 500 (AError ''database error'')
           | Inr exists \<Rightarrow>
               if exists then reply 409 (AError ''email already registered'') else create_account h email password })"

text \<open>The part of \<open>Login\<close> that follows an accepted password.\<close>

definition user_workspace :: "User \<Rightarrow> (string + UserWithWorkspace) aio" where
  "user_workspace user = do {
     r \<leftarrow> on_users (GetUserWorkspace (usr_ID user));
     case r of
       Inr u \<Rightarrow> State_Monad.return (Inr u)
     | Inl e \<Rightarrow>
         if \<not> errors_Is (\<lambda>x. x = ErrNoRows) e then State_Monad.return (Inl ''failed to get user workspace'')
         else do {
           created \<leftarrow> on_users (CreateWorkspaceForUser (usr_ID user) (default_workspace (usr_Email user)));
           case created of
             Inl _ \<Rightarrow> State_Monad.return (Inl ''failed to initialize workspace'')
           | Inr _ \<Rightarrow> do {
               r \<leftarrow> on_users (GetUserWorkspace (usr_ID user));
               State_Monad.return (case r of Inl _ \<Rightarrow> Inl ''failed to get user workspace'' | Inr u \<Rightarrow> Inr u) }}}"

definition logged_in :: "AuthHandler \<Rightarrow> User \<Rightarrow> string \<Rightarrow> bool \<Rightarrow> auth_response aio" where
  "logged_in h user password rememberMe = do {
     _ \<leftarrow> (if isBcryptHash (usr_PasswordHash user) then State_Monad.return (Inr ())
          else do {
            hashed \<leftarrow> hashPassword password;
            case hashed of
              Inl e \<Rightarrow> State_Monad.return (Inr ())
            | Inr newHash \<Rightarrow> on_users (UpdateUserPasswordHash (usr_ID user) newHash) });
     found \<leftarrow> user_workspace user;
     case found of
       Inl msg \<Rightarrow> reply 500 (AError msg)
     | Inr u \<Rightarrow> do {
         let ttl = (if rememberMe then extendedSessionTTL else standardSessionTTL);
         session \<leftarrow> sessions_Create (usr_ID user) ttl;
         State_Monad.return (case session of
           Inl e \<Rightarrow> (500, None, AError ''failed to create session'')
         | Inr sessionID \<Rightarrow> (200, Some (sessionCookie h sessionID (ttl div Second)), AUser u)) }}"

definition refuse_login :: "AuthHandler \<Rightarrow> string \<Rightarrow> auth_response aio" where
  "refuse_login h ip = do {
     _ \<leftarrow> RecordFailure (ah_loginLimiter h) ip;
     reply 401 (AError ''invalid credentials'') }"

text \<open>\<open>context.DeadlineExceeded\<close>, which a store call returns when its time is up.\<close>

definition DeadlineExceeded :: go_error where
  "DeadlineExceeded = ErrDriver ''context deadline exceeded''"

definition attempt_login :: "AuthHandler \<Rightarrow> string \<Rightarrow> string \<Rightarrow> string \<Rightarrow> bool \<Rightarrow> auth_response aio" where
  "attempt_login h ip email password rememberMe = do {
     found \<leftarrow> on_users (GetUserByEmail email);
     case found of
       Inl e \<Rightarrow> if errors_Is (\<lambda>x. x = ErrNoRows \<or> x = DeadlineExceeded) e then refuse_login h ip
                else reply 500 (AError ''database error'')
     | Inr user \<Rightarrow>
         if \<not> verifyPassword (ah_sha256 h) (ah_bcrypt_accepts h) password (usr_PasswordHash user) then refuse_login h ip
         else do {
           _ \<leftarrow> Reset (ah_loginLimiter h) ip;
           logged_in h user password rememberMe } }"

definition Login :: "AuthHandler \<Rightarrow> auth_request \<Rightarrow> auth_response aio" where
  "Login h r =
     (if aq_method r \<noteq> ''POST'' then not_allowed
      else do {
        let ip = clientIP r;
        locked \<leftarrow> IsLocked (ah_loginLimiter h) ip;
        if locked = Inr True then reply 429 (AError ''too many failed attempts, try again later'')
        else case ah_dec_login h (aq_body r) of
          None \<Rightarrow> reply 400 (AText ''invalid JSON body'')
        | Some req \<Rightarrow>
           let email = ToLower (TrimSpace (lor_Email req)); password = TrimSpace (lor_Password req) in
           if email = [] \<or> password = [] then reply 400 (AError ''email and password are required'')
           else attempt_login h ip email password (lor_RememberMe req) })"

definition Logout :: "AuthHandler \<Rightarrow> auth_request \<Rightarrow> auth_response aio" where
  "Logout h r =
     (if aq_method r \<noteq> ''POST'' then not_allowed
      else do {
        _ \<leftarrow> (case req_cookie r of None \<Rightarrow> State_Monad.return (Inr ()) | Some sessionID \<Rightarrow> sessions_Delete sessionID);
        State_Monad.return (200, Some (clearedCookie h), AStatus ''logged out'') })"

definition SetTemplates :: "bool option \<Rightarrow> bool option \<Rightarrow> AuthHandler \<Rightarrow> AuthHandler" where
  "SetTemplates signup login h = h\<lparr>ah_signupTemplate := signup, ah_loginTemplate := login\<rparr>"

definition page :: "auth_request \<Rightarrow> bool option \<Rightarrow> string \<Rightarrow> auth_response aio" where
  "page r template name =
     (case template of
        None \<Rightarrow> reply 500 (AText ''template not found'')
      | Some ok \<Rightarrow> if ok then reply 200 (APage name) else reply 500 (AText ''template error''))"

definition SignupPage :: "AuthHandler \<Rightarrow> auth_request \<Rightarrow> auth_response aio" where
  "SignupPage h r =
     (if aq_method r \<noteq> ''GET'' then not_allowed
      else if \<not> ah_allowSignup h then reply 404 (AText ''404 page not found'')
      else page r (ah_signupTemplate h) ''signup.html'')"

definition LoginPage :: "AuthHandler \<Rightarrow> auth_request \<Rightarrow> auth_response aio" where
  "LoginPage h r = (if aq_method r \<noteq> ''GET'' then not_allowed else page r (ah_loginTemplate h) ''login.html'')"

text \<open>The session errors of \<open>Me\<close>, and of the guard.\<close>

definition session_error :: "AuthHandler \<Rightarrow> go_error \<Rightarrow> auth_response" where
  "session_error h e =
     (if e = ErrSessionExpired then (401, Some (clearedCookie h), AError ''session_expired'')
      else if e = ErrSessionNotFound then (401, None, AText ''unauthorized'')
      else (500, None, AText ''session error''))"

definition Me :: "AuthHandler \<Rightarrow> auth_request \<Rightarrow> auth_response aio" where
  "Me h r =
     (if aq_method r \<noteq> ''GET'' then not_allowed
      else case req_cookie r of
        None \<Rightarrow> reply 401 (AText ''unauthorized'')
      | Some sessionID \<Rightarrow> do {
          res \<leftarrow> sessions_Get sessionID;
          case res of
            Inl e \<Rightarrow> State_Monad.return (session_error h e)
          | Inr userID \<Rightarrow> do {
              found \<leftarrow> on_users (GetUserWorkspace userID);
              case found of Inl e \<Rightarrow> reply 404 (AText ''user not found'') | Inr u \<Rightarrow> reply 200 (AUser u) }})"

text \<open>The session of a request to the onboarding handlers.\<close>

definition onboarding_user :: "auth_request \<Rightarrow> (int \<Rightarrow> UserWithWorkspace \<Rightarrow> auth_response aio) \<Rightarrow> auth_response aio" where
  "onboarding_user r serve_next =
     (case req_cookie r of
        None \<Rightarrow> reply 401 (AText ''unauthorized'')
      | Some sessionID \<Rightarrow> do {
          res \<leftarrow> sessions_Get sessionID;
          case res of
            Inl e \<Rightarrow> reply 401 (AText ''unauthorized'')
          | Inr userID \<Rightarrow> do {
              found \<leftarrow> on_users (GetUserWorkspace userID);
              case found of Inl e \<Rightarrow> reply 404 (AText ''user not found'') | Inr u \<Rightarrow> serve_next userID u }})"

text \<open>The four reads of \<open>GetOnboardingChecklistItems\<close>, each of them one statement.\<close>

definition has_active_account :: "int \<Rightarrow> bool userop" where
  "has_active_account ws now d = (Inr (\<exists>a \<in> set (db_smtp_accounts (udb_tables d)). smtp_workspace_id a = ws \<and> smtp_is_active a), d)"

definition GetOnboardingChecklistItems :: "int \<Rightarrow> (bool \<times> bool \<times> bool \<times> bool) result aio" where
  "GetOnboardingChecklistItems ws = do {
     smtp \<leftarrow> on_users (has_active_account ws);
     case smtp of Inl e \<Rightarrow> State_Monad.return (Inl e) | Inr smtp \<Rightarrow> do {
     verified \<leftarrow> on_users (\<lambda>now d. (Inr (\<exists>e \<in> set (db_domains (udb_tables d)). fst (fst e) = ws \<and> snd e), d));
     case verified of Inl e \<Rightarrow> State_Monad.return (Inl e) | Inr verified \<Rightarrow> do {
     policy \<leftarrow> on_users (\<lambda>now d. (Inr (db_policies (udb_tables d) ws \<noteq> None), d));
     case policy of Inl e \<Rightarrow> State_Monad.return (Inl e) | Inr policy \<Rightarrow> do {
     message \<leftarrow> on_users (\<lambda>now d. (Inr (\<exists>m \<in> set (db_messages (udb_tables d)). msg_WorkspaceID m = ws \<and>
       (msg_Status m = ''sent'' \<or> msg_Status m = ''delivered'' \<or> msg_Status m = ''failed'')), d));
     State_Monad.return (case message of Inl e \<Rightarrow> Inl e | Inr message \<Rightarrow> Inr (smtp, verified, policy, message)) }}}}"

definition onboarding_items :: "bool \<Rightarrow> bool \<Rightarrow> bool \<Rightarrow> bool \<Rightarrow> checklistItem list" where
  "onboarding_items hasSMTP hasDomain hasPolicy hasMessage =
     [\<lparr>cli_ID = ''smtp_connected'', cli_Title = ''Connect SMTP account'',
       cli_Description = ''Add your SMTP credentials so maild can send emails.'', cli_Done = hasSMTP,
       cli_ActionLabel = ''Add SMTP Account'', cli_ActionHref = ''/ui/policy''\<rparr>,
      \<lparr>cli_ID = ''domain_verified'', cli_Title = ''Verify your domain'',
       cli_Description = ''Add and verify your sending domain (SPF, DKIM, DMARC).'', cli_Done = hasDomain,
       cli_ActionLabel = ''Run Domain Check'', cli_ActionHref = ''/ui/onboarding''\<rparr>,
      \<lparr>cli_ID = ''test_sent'', cli_Title = ''Send a test email'',
       cli_Description = ''Send your first message to verify the pipeline end-to-end.'', cli_Done = hasMessage,
       cli_ActionLabel = ''View Logs'', cli_ActionHref = ''/ui/logs''\<rparr>,
      \<lparr>cli_ID = ''policy_configured'', cli_Title = ''Configure workspace policy'',
       cli_Description = ''Set rate limits and blocked domains for your workspace.'', cli_Done = hasPolicy,
       cli_ActionLabel = ''Configure Policy'', cli_ActionHref = ''/ui/policy''\<rparr>]"

definition GetOnboardingChecklist :: "AuthHandler \<Rightarrow> auth_request \<Rightarrow> auth_response aio" where
  "GetOnboardingChecklist h r =
     (if aq_method r \<noteq> ''GET'' then not_allowed
      else onboarding_user r (\<lambda>userID u. do {
        res \<leftarrow> GetOnboardingChecklistItems (usr_WorkspaceID u);
        case res of
          Inl e \<Rightarrow> reply 500 (AText ''internal error'')
        | Inr (smtp, verified, policy, message) \<Rightarrow>
            let items = onboarding_items smtp verified policy message in
            reply 200 (AChecklist (usr_WorkspaceID u) (int (length items)) (int (length (filter cli_Done items))) items) }))"

definition handler_DismissOnboarding :: "AuthHandler \<Rightarrow> auth_request \<Rightarrow> auth_response aio" where
  "handler_DismissOnboarding h r =
     (if aq_method r \<noteq> ''POST'' then not_allowed
      else onboarding_user r (\<lambda>userID u. do {
        res \<leftarrow> on_users (DismissOnboarding userID (usr_WorkspaceID u));
        case res of Inl e \<Rightarrow> reply 500 (AText ''internal error'') | Inr _ \<Rightarrow> reply 200 (AStatus ''dismissed'') }))"

text \<open>The guards: the request is checked, then its session; the handler gets the principal.\<close>

definition SameOrigin :: "(auth_request \<Rightarrow> auth_response aio) \<Rightarrow> auth_request \<Rightarrow> auth_response aio" where
  "SameOrigin serve_next r = (if \<not> req_same_origin r then reply 403 (AError ''cross-origin request rejected'') else serve_next r)"

definition require_auth :: "AuthHandler \<Rightarrow> (Principal option \<Rightarrow> auth_request \<Rightarrow> auth_response aio) \<Rightarrow> auth_request \<Rightarrow> auth_response aio" where
  "require_auth h serve_next = SameOrigin (\<lambda>r.
     case req_cookie r of
       None \<Rightarrow> reply 401 (AText ''unauthorized'')
     | Some sessionID \<Rightarrow> do {
         res \<leftarrow> sessions_Get sessionID;
         case res of
           Inl e \<Rightarrow> State_Monad.return (session_error h e)
         | Inr userID \<Rightarrow> do {
             found \<leftarrow> on_users (GetUserWorkspace userID);
             case found of
               Inl e \<Rightarrow> reply 401 (AText ''workspace not found'')
             | Inr u \<Rightarrow>
                 let ctx = Some \<lparr>pr_UserID = userID, pr_WorkspaceID = usr_WorkspaceID u, pr_Role = usr_Role u, pr_Global = False\<rparr> in
                 if \<not> snd (PrincipalFromContext ctx) then reply 403 (AError ''forbidden'') else serve_next ctx r }})"

definition require_role :: "string list \<Rightarrow> (Principal option \<Rightarrow> auth_request \<Rightarrow> auth_response aio) \<Rightarrow> Principal option \<Rightarrow> auth_request \<Rightarrow> auth_response aio" where
  "require_role allowed serve_next ctx r =
     (case RequireRole allowed ctx of
        Inl (status, msg) \<Rightarrow> reply status (AError msg)
      | Inr ctx' \<Rightarrow> serve_next ctx' r)"

definition key_response :: "AuthHandler \<Rightarrow> UserAPIKey \<Rightarrow> keyResponse" where
  "key_response h k =
     \<lparr>kr_ID = key_ID k, kr_Name = key_Name k, kr_KeyPrefix = key_KeyPrefix k,
      kr_LastUsedAt = (case key_LastUsedAt k of None \<Rightarrow> [] | Some t \<Rightarrow> ah_fmt_time h t), kr_CreatedAt = ah_fmt_time h (key_CreatedAt k)\<rparr>"

definition workspaceID :: "Principal option \<Rightarrow> int" where
  "workspaceID ctx = fst (WorkspaceIDFromContext ctx)"

definition with_user :: "Principal option \<Rightarrow> (int \<Rightarrow> auth_response aio) \<Rightarrow> auth_response aio" where
  "with_user ctx serve_next =
     (case UserIDFromContext ctx of (userID, ok) \<Rightarrow> if \<not> ok then reply 401 (AError ''unauthorized'') else serve_next userID)"

definition handler_ListAPIKeys :: "AuthHandler \<Rightarrow> Principal option \<Rightarrow> auth_request \<Rightarrow> auth_response aio" where
  "handler_ListAPIKeys h ctx r =
     (if aq_method r \<noteq> ''GET'' then not_allowed
      else with_user ctx (\<lambda>userID. do {
        res \<leftarrow> on_users (ListAPIKeys userID (workspaceID ctx));
        case res of
          Inl e \<Rightarrow> reply 500 (AText ''internal error'')
        | Inr keys \<Rightarrow> reply 200 (AKeys (map (key_response h) keys)) }))"

definition handler_CreateAPIKey :: "AuthHandler \<Rightarrow> Principal option \<Rightarrow> auth_request \<Rightarrow> auth_response aio" where
  "handler_CreateAPIKey h ctx r =
     (if aq_method r \<noteq> ''POST'' then not_allowed
      else with_user ctx (\<lambda>userID.
        case ah_dec_name h (aq_body r) of
          None \<Rightarrow> reply 400 (AText ''invalid JSON body'')
        | Some raw \<Rightarrow>
           let name = TrimSpace raw in
           if name = [] then reply 400 (AError ''name is required'')
           else if length name > 64 then reply 400 (AError ''name must be 64 characters or less'')
           else do {
             generated \<leftarrow> GenerateAPIKey;
             case generated of
               Inl e \<Rightarrow> reply 500 (AText ''internal error'')
             | Inr rawKey \<Rightarrow> do {
                 created \<leftarrow> on_users (CreateAPIKey userID (workspaceID ctx) name (HashAPIKey (ah_sha256 h) rawKey) (APIKeyPrefix rawKey));
                 case created of
                   Inl e \<Rightarrow> if Contains (Error_text e) ''unique'' then reply 409 (AError ''key name already exists'')
                            else reply 500 (AText ''internal error'')
                 | Inr k \<Rightarrow> reply 201 (ANewKey \<lparr>ckr_ID = key_ID k, ckr_Name = key_Name k, ckr_Key = rawKey,
                     ckr_KeyPrefix = APIKeyPrefix rawKey, ckr_CreatedAt = ah_fmt_time h (key_CreatedAt k)\<rparr>) }}))"

definition handler_DeleteAPIKey :: "AuthHandler \<Rightarrow> Principal option \<Rightarrow> auth_request \<Rightarrow> auth_response aio" where
  "handler_DeleteAPIKey h ctx r =
     (if aq_method r \<noteq> ''DELETE'' then not_allowed
      else with_user ctx (\<lambda>userID.
        case ah_dec_id h (aq_body r) of
          None \<Rightarrow> reply 400 (AText ''invalid JSON body'')
        | Some i \<Rightarrow>
           if i \<le> 0 then reply 400 (AError ''id is required'')
           else do {
             res \<leftarrow> on_users (DeleteAPIKey userID (workspaceID ctx) i);
             case res of
               Inl e \<Rightarrow> if Contains (Error_text e) ''not found'' then reply 404 (AText ''not found'')
                        else reply 500 (AText ''internal error'')
             | Inr _ \<Rightarrow> reply 200 (AStatus ''deleted'') }))"

text \<open>
  \<open>New\<close> of \<open>src/internal/httpserver/server.go\<close>: the handler of each path, with the method its
  pattern names, or any. A pattern for \<open>GET\<close> also takes \<open>HEAD\<close>; a method that no pattern of the path
  takes falls through to the pattern \<open>/\<close>, whose handler answers 404 for any other path.
\<close>

type_synonym auth_route = "string \<times> string option \<times> (auth_request \<Rightarrow> auth_response aio)"

text \<open>Executing a template that was not loaded is a panic: the connection is closed without a response, status 0.\<close>

definition template_panic :: auth_response where
  "template_panic = (0, None, AText ''panic: nil pointer dereference'')"

definition handleDashboard :: "AuthHandler \<Rightarrow> bool option \<Rightarrow> Principal option \<Rightarrow> auth_request \<Rightarrow> auth_response aio" where
  "handleDashboard h dashboard ctx r =
     (case UserIDFromContext ctx of (userID, ok) \<Rightarrow>
        if \<not> ok then reply 401 (AText ''unauthorized'')
        else (case dashboard of
            None \<Rightarrow> State_Monad.return template_panic
          | Some executes \<Rightarrow>
              if \<not> executes then reply 500 (AText ''template error'')
              else reply 200 (ADashboard userID (workspaceID ctx) (ah_loginPath h))))"

definition auth_routes :: "AuthHandler \<Rightarrow> bool option \<Rightarrow> auth_route list" where
  "auth_routes h dashboard =
     [(ah_loginPath h, Some ''GET'', LoginPage h), (ah_loginPath h, Some ''POST'', SameOrigin (Login h)),
      (''/logout'', None, SameOrigin (Logout h)), (''/me'', None, Me h)] @
     (if ah_allowSignup h
      then [(''/signup'', Some ''GET'', SignupPage h), (''/api/v1/auth/signup'', Some ''POST'', SameOrigin (Signup h))] else []) @
     [(''/api/v1/onboarding/checklist'', None, require_auth h (\<lambda>ctx. GetOnboardingChecklist h)),
      (''/api/v1/user/keys'', None, require_auth h (handler_ListAPIKeys h)),
      (''/api/v1/user/keys/create'', Some ''POST'', require_auth h (require_role [''admin'', ''operator''] (handler_CreateAPIKey h))),
      (''/api/v1/user/keys'', Some ''DELETE'', require_auth h (handler_DeleteAPIKey h)),
      (''/dashboard'', None, require_auth h (handleDashboard h dashboard))]"

definition takes_method :: "string option \<Rightarrow> string \<Rightarrow> bool" where
  "takes_method pattern method =
     (case pattern of None \<Rightarrow> True | Some m \<Rightarrow> m = method \<or> m = ''GET'' \<and> method = ''HEAD'')"

text \<open>A pattern that names a method is more specific than one that does not.\<close>

definition auth_serve :: "AuthHandler \<Rightarrow> bool option \<Rightarrow> string \<Rightarrow> auth_request \<Rightarrow> auth_response aio" where
  "auth_serve h dashboard path r =
     (let fits = filter (\<lambda>(p, m, _). p = path \<and> takes_method m (aq_method r)) (auth_routes h dashboard);
          named = filter (\<lambda>(_, m, _). m \<noteq> None) fits
      in case named @ fits of
           [] \<Rightarrow> reply 404 (AText ''404 page not found'')
         | (_, _, handle) # _ \<Rightarrow> handle r)"

end
