(* ===== verification/Auth_Frames.thy ===== *)
theory Auth_Frames
  imports Auth_Handlers
begin

text \<open>
  Frames of the authentication handlers: what a request keeps is what its calls keep. The locales
  name the calls by what they write; the interpretations give the invariant of the tables of users
  and that the tables of the message service are left alone.
\<close>

section \<open>Definitions\<close>

definition auth_env_same :: "auth_world \<Rightarrow> auth_world \<Rightarrow> bool" where
  "auth_env_same w w' \<longleftrightarrow> aw_step w \<le> aw_step w' \<and> aw_other w' = aw_other w \<and> aw_clock w' = aw_clock w \<and> aw_fault w' = aw_fault w \<and>
     aw_random w' = aw_random w \<and> aw_bcrypt w' = aw_bcrypt w"

definition auth_others :: "(auth_state \<Rightarrow> auth_state \<Rightarrow> bool) \<Rightarrow> auth_world \<Rightarrow> bool" where
  "auth_others S w \<longleftrightarrow> (\<forall>n st. S st (aw_other w n st))"

definition auth_moves :: "(auth_state \<Rightarrow> auth_state \<Rightarrow> bool) \<Rightarrow> auth_world \<Rightarrow> auth_world \<Rightarrow> bool" where
  "auth_moves S w w' \<longleftrightarrow> auth_env_same w w' \<and> (auth_others S w \<longrightarrow> S (aw_state w) (aw_state w'))"

text \<open>No other process acts.\<close>

definition auth_alone :: "auth_world \<Rightarrow> bool" where
  "auth_alone w \<longleftrightarrow> aw_other w = (\<lambda>n st. st)"

definition keeps_users :: "auth_state \<Rightarrow> auth_state \<Rightarrow> bool" where
  "keeps_users st st' \<longleftrightarrow> (users_inv (as_users st) \<longrightarrow> users_inv (as_users st'))"

text \<open>Of the tables of the message service, only the list of workspaces grows.\<close>

definition mail_tables :: "auth_state \<Rightarrow> db" where
  "mail_tables st = (udb_tables (as_users st))\<lparr>db_workspaces := [], db_workspace_seq := 0\<rparr>"

definition mail_tables_kept :: "auth_state \<Rightarrow> auth_state \<Rightarrow> bool" where
  "mail_tables_kept st st' \<longleftrightarrow> mail_tables st' = mail_tables st \<and>
     set (db_workspaces (udb_tables (as_users st))) \<subseteq> set (db_workspaces (udb_tables (as_users st')))"

text \<open>
  A relation on the state that other processes keep as well: what a routine keeps is what its calls
  keep.
\<close>

locale auth_relation = frame_relation S for S :: "auth_state \<Rightarrow> auth_state \<Rightarrow> bool"
begin

lemma auth_refl: "auth_moves S w w"
  by (simp add: auth_moves_def auth_env_same_def refl)

lemma auth_trans: "auth_moves S w w' \<Longrightarrow> auth_moves S w' w'' \<Longrightarrow> auth_moves S w w''"
  by (auto simp: auth_moves_def auth_env_same_def auth_others_def intro: trans)

lemma step_moves:
  assumes "S (seen_state w) st"
  shows "auth_moves S w (auth_step n st w)"
proof -
  have "auth_others S w \<Longrightarrow> S (aw_state w) (seen_state w)" by (simp add: auth_others_def seen_state_def)
  with assms show ?thesis by (auto simp: auth_moves_def auth_env_same_def auth_step_def intro: trans)
qed

lemma call_moves:
  assumes "\<And>t st. S st (snd (f t st))"
  shows "state_io_rel (auth_moves S) (auth_call f)"
proof (rule state_io_relI)
  fix w r w'
  assume run: "run_state (auth_call f) w = (r, w')"
  have "S (seen_state w) (snd (f (aw_clock w (aw_step w)) (seen_state w)))" by (rule assms)
  with run refl show "auth_moves S w w'"
    by (auto simp: auth_call_def Let_def split: fault.splits prod.splits intro!: step_moves)
qed

lemma users_moves:
  assumes "\<And>t st. S st (st\<lparr>as_users := snd (op t (as_users st))\<rparr>)"
  shows "state_io_rel (auth_moves S) (on_users op)"
  unfolding on_users_def by (rule call_moves) (use assms in \<open>simp add: case_prod_unfold\<close>)

lemma reads_moves:
  assumes "\<And>t d. snd (op t d) = d"
  shows "state_io_rel (auth_moves S) (on_users op)"
  by (rule users_moves) (simp add: assms refl)

lemma draws_moves:
  "state_io_rel (auth_moves S) rand_bytes" "state_io_rel (auth_moves S) (hashPassword p)"
  by (rule state_io_relI, auto simp: rand_bytes_def hashPassword_def refl intro!: step_moves)+

end

sublocale auth_relation \<subseteq> auth: frame_relation "auth_moves S"
  by unfold_locales (auto intro: auth_refl auth_trans)

text \<open>What the handlers do to the tables and the sessions, beside opening sessions.\<close>

locale auth_accounts = auth_relation S for S :: "auth_state \<Rightarrow> auth_state \<Rightarrow> bool" +
  assumes session_dropped: "S st (st\<lparr>as_sessions := (as_sessions st)(k := None)\<rparr>)"
    and account_created: "S st (st\<lparr>as_users := snd (CreateUserWithWorkspace email hash name t (as_users st))\<rparr>)"
    and workspace_created: "S st (st\<lparr>as_users := snd (CreateWorkspaceForUser u name t (as_users st))\<rparr>)"
    and hash_updated: "S st (st\<lparr>as_users := snd (UpdateUserPasswordHash u hash t (as_users st))\<rparr>)"
    and onboarding_dismissed: "S st (st\<lparr>as_users := snd (DismissOnboarding u ws t (as_users st))\<rparr>)"
    and key_created: "S st (st\<lparr>as_users := snd (CreateAPIKey u ws name hash prefix t (as_users st))\<rparr>)"
    and key_deleted: "S st (st\<lparr>as_users := snd (DeleteAPIKey u ws i t (as_users st))\<rparr>)"
begin

lemma writes_moves:
  "state_io_rel (auth_moves S) (on_users (CreateUserWithWorkspace email hash name))"
  "state_io_rel (auth_moves S) (on_users (CreateWorkspaceForUser u name))"
  "state_io_rel (auth_moves S) (on_users (UpdateUserPasswordHash u hash))"
  "state_io_rel (auth_moves S) (on_users (DismissOnboarding u ws))"
  "state_io_rel (auth_moves S) (on_users (CreateAPIKey u ws name hash prefix))"
  "state_io_rel (auth_moves S) (on_users (DeleteAPIKey u ws i))"
  by (rule users_moves, rule account_created workspace_created hash_updated onboarding_dismissed key_created key_deleted)+

lemma queries_moves:
  "state_io_rel (auth_moves S) (on_users (GetUserWorkspace u))" "state_io_rel (auth_moves S) (on_users (GetUserByEmail email))"
  "state_io_rel (auth_moves S) (on_users (EmailExists email))" "state_io_rel (auth_moves S) (on_users (ListAPIKeys u ws))"
  by (rule reads_moves, simp add: GetUserWorkspace_def GetUserByEmail_def EmailExists_def ListAPIKeys_def split: option.split list.split)+

lemma sessions_moves: "state_io_rel (auth_moves S) (sessions_Delete k)" "state_io_rel (auth_moves S) (sessions_Get k)"
proof -
  have del: "S st (st\<lparr>as_sessions := snd (session_Delete f k (as_sessions st))\<rparr>)" for f k st
    by (simp add: session_Delete_def session_dropped refl split: fault.split)
  then have get: "S st (st\<lparr>as_sessions := snd (session_Get f g k t (as_sessions st))\<rparr>)" for f g k t st
    by (simp add: session_Get_def refl split: fault.split option.split)
  show "state_io_rel (auth_moves S) (sessions_Delete k)"
    by (rule state_io_relI) (auto simp: sessions_Delete_def Let_def case_prod_unfold intro!: step_moves del)
  show "state_io_rel (auth_moves S) (sessions_Get k)"
    by (rule state_io_relI) (auto simp: sessions_Get_def Let_def case_prod_unfold intro!: step_moves get)
qed

lemma reply_moves: "state_io_rel (auth_moves S) (reply s b)" "state_io_rel (auth_moves S) not_allowed"
  by (simp_all add: reply_def not_allowed_def auth.within_return)

lemmas moves = auth.within writes_moves queries_moves sessions_moves reply_moves draws_moves

lemma user_workspace_moves: "state_io_rel (auth_moves S) (user_workspace u)"
  unfolding user_workspace_def by (intro moves)

lemma page_moves:
  "state_io_rel (auth_moves S) (LoginPage h r)" "state_io_rel (auth_moves S) (SignupPage h r)"
  "state_io_rel (auth_moves S) (Logout h r)" "state_io_rel (auth_moves S) (Me h r)"
  "state_io_rel (auth_moves S) (handleDashboard h ok ctx r)"
  unfolding LoginPage_def SignupPage_def page_def Logout_def Me_def handleDashboard_def by (intro moves)+

lemma onboarding_user_moves:
  "(\<And>u uw. state_io_rel (auth_moves S) (f u uw)) \<Longrightarrow> state_io_rel (auth_moves S) (onboarding_user r f)"
  unfolding onboarding_user_def by (intro moves)

lemma GetOnboardingChecklistItems_moves: "state_io_rel (auth_moves S) (GetOnboardingChecklistItems ws)"
  unfolding GetOnboardingChecklistItems_def by (intro moves reads_moves) (simp_all add: has_active_account_def)

lemma onboarding_moves:
  "state_io_rel (auth_moves S) (GetOnboardingChecklist h r)" "state_io_rel (auth_moves S) (handler_DismissOnboarding h r)"
  unfolding GetOnboardingChecklist_def handler_DismissOnboarding_def
  by (intro moves onboarding_user_moves GetOnboardingChecklistItems_moves)+

lemma key_handler_moves:
  "state_io_rel (auth_moves S) (handler_ListAPIKeys h ctx r)" "state_io_rel (auth_moves S) (handler_CreateAPIKey h ctx r)"
  "state_io_rel (auth_moves S) (handler_DeleteAPIKey h ctx r)"
  unfolding handler_ListAPIKeys_def handler_CreateAPIKey_def handler_DeleteAPIKey_def with_user_def GenerateAPIKey_def
  by (intro moves)+

lemma guarded_moves:
  "state_io_rel (auth_moves S) (f r) \<Longrightarrow> state_io_rel (auth_moves S) (SameOrigin f r)"
  "(\<And>ctx. state_io_rel (auth_moves S) (g ctx r)) \<Longrightarrow> state_io_rel (auth_moves S) (require_auth h g r)"
  "(\<And>ctx. state_io_rel (auth_moves S) (g ctx r)) \<Longrightarrow> state_io_rel (auth_moves S) (require_role roles g ctx r)"
  unfolding require_auth_def SameOrigin_def require_role_def by (intro moves; assumption)+

end

text \<open>What they do to the keys of the login limiter.\<close>

locale auth_writes = auth_accounts S for S :: "auth_state \<Rightarrow> auth_state \<Rightarrow> bool" +
  assumes fails_free: "S st (st\<lparr>as_fails := cs\<rparr>)"
    and blocks_free: "S st (st\<lparr>as_blocks := bs\<rparr>)"
begin

lemma limiter_moves:
  "state_io_rel (auth_moves S) (IsLocked l ip)" "state_io_rel (auth_moves S) (RecordFailure l ip)"
  "state_io_rel (auth_moves S) (Reset l ip)"
proof -
  have ops: "state_io_rel (auth_moves S) (set_block k ttl)" "state_io_rel (auth_moves S) (del_fails k)"
    "state_io_rel (auth_moves S) (del_block k)" for k ttl
    by (simp_all add: set_block_def del_fails_def del_block_def call_moves fails_free blocks_free)
  show "state_io_rel (auth_moves S) (IsLocked l ip)"
    unfolding IsLocked_def by (intro auth.within call_moves) (simp_all add: refl)
  show "state_io_rel (auth_moves S) (RecordFailure l ip)"
    unfolding RecordFailure_def by (intro auth.within call_moves ops) (simp_all add: fails_free split: prod.split)
  show "state_io_rel (auth_moves S) (Reset l ip)"
    unfolding Reset_def by (intro auth.within ops)
qed

end

text \<open>And opening sessions.\<close>

locale auth_opening = auth_accounts S for S :: "auth_state \<Rightarrow> auth_state \<Rightarrow> bool" +
  assumes sessions_free: "S st (st\<lparr>as_sessions := ss\<rparr>)"
begin

lemma sessions_Create_moves: "state_io_rel (auth_moves S) (sessions_Create u ttl)"
  by (rule state_io_relI) (auto simp: sessions_Create_def Let_def case_prod_unfold intro!: step_moves sessions_free)

lemma logged_in_moves: "state_io_rel (auth_moves S) (logged_in h user password rememberMe)"
  unfolding logged_in_def by (intro moves user_workspace_moves sessions_Create_moves)

end

locale auth_requests = auth_writes S + auth_opening S for S :: "auth_state \<Rightarrow> auth_state \<Rightarrow> bool"
begin

lemma login_moves: "state_io_rel (auth_moves S) (Login h r)" "state_io_rel (auth_moves S) (Signup h r)"
  unfolding Login_def attempt_login_def refuse_login_def Signup_def create_account_def
  by (intro moves limiter_moves logged_in_moves sessions_Create_moves)+

lemma route_moves:
  assumes "(p, m, handle) \<in> set (auth_routes h rendered)"
  shows "state_io_rel (auth_moves S) (handle r)"
  using assms unfolding auth_routes_def
  by (auto simp: split: if_splits intro!: guarded_moves login_moves page_moves onboarding_moves key_handler_moves)

lemma serve_moves: "state_io_rel (auth_moves S) (auth_serve h rendered path r)"
proof -
  let ?fits = "filter (\<lambda>(p, m, _). p = path \<and> takes_method m (aq_method r)) (auth_routes h rendered)"
  let ?all = "filter (\<lambda>(_, m, _). m \<noteq> None) ?fits @ ?fits"
  show ?thesis
  proof (cases ?all)
    case Nil
    then show ?thesis unfolding auth_serve_def Let_def by (simp add: reply_moves)
  next
    case (Cons x xs)
    then have "x \<in> set ?all" by simp
    then have "x \<in> set (auth_routes h rendered)" by auto
    with Cons show ?thesis unfolding auth_serve_def Let_def by (cases x) (simp add: route_moves)
  qed
qed

end

interpretation users_kept: auth_requests keeps_users
  by unfold_locales (auto simp: keeps_users_def keeps)

interpretation mail_kept: auth_requests mail_tables_kept
  by unfold_locales
     (auto simp: mail_tables_kept_def mail_tables_def CreateUserWithWorkspace_def CreateWorkspaceForUser_def UpdateUserPasswordHash_def
        DismissOnboarding_def CreateAPIKey_def DeleteAPIKey_def insert_user_def insert_workspace_def insert_member_def Let_def
        split: prod.splits sum.splits if_splits)

end
