(* ===== verification/Auth_Sessions.thy ===== *)
theory Auth_Sessions
  imports Auth_Frames
begin

text \<open>
  Sessions, accounts and keys: who gets a session, that a new account can log in, and the life of
  an API key.
\<close>

section \<open>Definitions\<close>

text \<open>No session is opened but for the user \<open>u\<close>, or none at all.\<close>

definition opens_for :: "int \<Rightarrow> auth_state \<Rightarrow> auth_state \<Rightarrow> bool" where
  "opens_for u st st' \<longleftrightarrow>
     (\<forall>k s. as_sessions st' k = Some s \<longrightarrow> as_sessions st k = Some s \<or> ses_user_id s = FormatInt u)"

definition opens_none :: "auth_state \<Rightarrow> auth_state \<Rightarrow> bool" where
  "opens_none st st' \<longleftrightarrow> as_sessions st' \<subseteq>\<^sub>m as_sessions st"

text \<open>The password of a login request is that of the user.\<close>

definition password_accepted :: "AuthHandler \<Rightarrow> auth_request \<Rightarrow> users_db \<Rightarrow> User \<Rightarrow> bool" where
  "password_accepted h r d u \<longleftrightarrow> u \<in> set (udb_users d) \<and>
     (\<exists>req. ah_dec_login h (aq_body r) = Some req \<and> usr_Email u = ToLower (TrimSpace (lor_Email req)) \<and>
        verifyPassword (ah_sha256 h) (ah_bcrypt_accepts h) (TrimSpace (lor_Password req)) (usr_PasswordHash u))"

text \<open>Every call is executed, and nobody else acts.\<close>

definition auth_calm :: "auth_world \<Rightarrow> bool" where
  "auth_calm w \<longleftrightarrow> auth_alone w \<and> aw_fault w = (\<lambda>n. Executed)"

text \<open>
  What is documented of bcrypt: a generated hash begins with its version and accepts the password
  it was generated from.
\<close>

definition bcrypt_correct :: "auth_world \<Rightarrow> AuthHandler \<Rightarrow> bool" where
  "bcrypt_correct w h \<longleftrightarrow>
     (\<forall>n p hash. aw_bcrypt w n p = Inr hash \<longrightarrow> isBcryptHash hash \<and> ah_bcrypt_accepts h hash p)"

definition demo_limiter :: LoginRateLimiter where
  "demo_limiter = \<lparr>ll_maxFailures = 2, ll_failureWindow = 5 * Minute, ll_lockout = 10 * Minute\<rparr>"

definition demo_auth :: AuthHandler where
  "demo_auth = \<lparr>ah_cookieSecure = True, ah_allowSignup = True, ah_loginPath = ''/login'', ah_loginLimiter = Some demo_limiter,
     ah_signupTemplate = Some True, ah_loginTemplate = Some True, ah_sha256 = rev, ah_bcrypt_accepts = (\<lambda>hash p. hash = ''$2'' @ p),
     ah_fmt_time = FormatInt, ah_dec_signup = (\<lambda>s. Some \<lparr>sur_Email = '' New@example.org'', sur_Password = s\<rparr>),
     ah_dec_login = (\<lambda>s. Some (if length s < 8 then \<lparr>lor_Email = ''A@example.com'', lor_Password = s, lor_RememberMe = False\<rparr>
        else \<lparr>lor_Email = ''new@example.org '', lor_Password = s, lor_RememberMe = True\<rparr>)),
     ah_dec_name = (\<lambda>s. Some s), ah_dec_id = (\<lambda>s. Some 2)\<rparr>"

definition demo_auth_world :: auth_world where
  "demo_auth_world = \<lparr>aw_step = 0, aw_clock = (\<lambda>n. Second), aw_fault = (\<lambda>n. Executed), aw_random = (\<lambda>n. Inr ''N''),
     aw_bcrypt = (\<lambda>n p. Inr (''$2'' @ p)), aw_other = (\<lambda>n st. st),
     aw_state = \<lparr>as_users = demo_users, as_sessions = Map.empty, as_fails = Map.empty, as_blocks = Map.empty\<rparr>\<rparr>"

definition demo_post :: "string \<Rightarrow> auth_request" where
  "demo_post body = \<lparr>req_key = None, req_cookie = None, req_same_origin = True, aq_method = ''POST'', aq_body = body,
     aq_forwarded_for = [], aq_real_ip = [], aq_remote_addr = ''192.0.2.1:40000''\<rparr>"

definition demo_sign_in :: "auth_response \<times> auth_world" where
  "demo_sign_in = run_state (auth_serve demo_auth (Some True) ''/login'' (demo_post ''x'')) demo_auth_world"

definition demo_operator :: Principal where
  "demo_operator = \<lparr>pr_UserID = 1, pr_WorkspaceID = 2, pr_Role = ''operator'', pr_Global = False\<rparr>"

definition demo_new_key :: "auth_response \<times> auth_world" where
  "demo_new_key = run_state (handler_CreateAPIKey demo_auth (Some demo_operator) (demo_post ''deploy'')) demo_auth_world"

definition demo_sign_up :: "auth_response \<times> auth_world" where
  "demo_sign_up = run_state (Signup demo_auth (demo_post ''long enough'')) demo_auth_world"

interpretation opens_for: auth_writes "opens_for u" for u
  by unfold_locales (fastforce simp: opens_for_def split: if_splits)+

interpretation opens_none: auth_writes opens_none
  by unfold_locales (auto simp: opens_none_def map_le_def dom_def split: if_splits)

lemma sessions_Create_opens: "state_io_rel (auth_moves (opens_for u)) (sessions_Create u ttl)"
proof (rule state_io_relI)
  fix w r w'
  assume run: "run_state (sessions_Create u ttl) w = (r, w')"
  have "opens_for u st (st\<lparr>as_sessions := snd (session_Create random f g u ttl t (as_sessions st))\<rparr>)" for random f g t st
    by (auto simp: opens_for_def session_Create_def HSet_session_def Expire_session_def Let_def split: sum.splits fault.splits option.splits if_splits)
  with run show "auth_moves (opens_for u) w w'"
    by (auto simp: sessions_Create_def Let_def case_prod_unfold intro!: opens_for.step_moves)
qed

lemma logged_in_opens: "state_io_rel (auth_moves (opens_for (usr_ID user))) (logged_in h user password rememberMe)"
  unfolding logged_in_def
  by (intro opens_for.moves opens_for.user_workspace_moves sessions_Create_opens)

lemma alone_step:
  assumes "auth_alone w"
  shows "seen_state w = aw_state w" "auth_alone (auth_step n st w)" "aw_state (auth_step n st w) = st"
  using assms by (simp_all add: auth_alone_def seen_state_def auth_step_def)

lemma alone_moves:
  assumes "state_io_rel (auth_moves S) m" "run_state m w = (a, w')" "auth_alone w" "\<And>st. S st st"
  shows "S (aw_state w) (aw_state w')" "auth_alone w'"
  using state_io_relD [OF assms(1,2)] assms(3,4) by (auto simp: auth_moves_def auth_env_same_def auth_others_def auth_alone_def)

lemma on_users_read:
  assumes "run_state (on_users op) w = (r, w')" "auth_alone w" "\<And>t d. snd (op t d) = d"
  shows "aw_state w' = aw_state w" "auth_alone w'" "r = Inr x \<Longrightarrow> \<exists>t. fst (op t (as_users (aw_state w))) = Inr x"
  using assms by (auto simp: on_users_def auth_call_def Let_def alone_step case_prod_unfold split: fault.splits)

lemma IsLocked_read:
  assumes "run_state (IsLocked l ip) w = (r, w')" "auth_alone w"
  shows "aw_state w' = aw_state w" "auth_alone w'"
  using assms by (auto simp: IsLocked_def auth_call_def Let_def alone_step split: fault.splits option.splits)

lemma opens_none_for: "opens_none st st' \<Longrightarrow> opens_for u st st'"
  by (auto simp: opens_none_def opens_for_def map_le_def dom_def)

lemma attempt_login_opens:
  assumes al: "auth_alone w" and run: "run_state (attempt_login h ip email password rememberMe) w = (a, w')"
  shows "opens_none (aw_state w) (aw_state w') \<or>
    (\<exists>u \<in> set (udb_users (as_users (aw_state w))). usr_Email u = email \<and>
       verifyPassword (ah_sha256 h) (ah_bcrypt_accepts h) password (usr_PasswordHash u) \<and>
       opens_for (usr_ID u) (aw_state w) (aw_state w'))"
proof -
  obtain found w1 where 1: "run_state (on_users (GetUserByEmail email)) w = (found, w1)" by (metis surj_pair)
  have read: "snd (GetUserByEmail email t d) = d" for t d by (simp add: GetUserByEmail_def split: option.split)
  note w1 = on_users_read [OF 1 al read]
  have refused: "opens_none (aw_state w1) (aw_state w')" if "run_state (refuse_login h ip) w1 = (a, w')"
    by (rule alone_moves(1) [OF _ that w1(2) opens_none.refl]) (unfold refuse_login_def, intro opens_none.moves opens_none.limiter_moves)
  show ?thesis
  proof (cases found)
    case (Inl e)
    with run 1 refused w1 show ?thesis
      by (auto simp: attempt_login_def reply_def opens_none.refl split: if_splits)
  next
    case (Inr u)
    then have u: "u \<in> set (udb_users (as_users (aw_state w)))" "usr_Email u = email"
      using w1(3) by (auto simp: GetUserByEmail_def find_Some_iff split: option.splits)
    let ?go = "do { _ \<leftarrow> Reset (ah_loginLimiter h) ip; logged_in h u password rememberMe }"
    have opens: "opens_for (usr_ID u) (aw_state w1) (aw_state w')" if "run_state ?go w1 = (a, w')"
      by (rule alone_moves(1) [OF _ that w1(2) opens_for.refl]) (intro opens_for.moves opens_for.limiter_moves logged_in_opens)
    show ?thesis
    proof (cases "verifyPassword (ah_sha256 h) (ah_bcrypt_accepts h) password (usr_PasswordHash u)")
      case False
      with run 1 Inr refused w1 show ?thesis by (simp add: attempt_login_def)
    next
      case True
      with run 1 Inr have "run_state ?go w1 = (a, w')" by (simp add: attempt_login_def)
      from opens [OF this] True u w1 show ?thesis by auto
    qed
  qed
qed

lemma Login_opens:
  assumes al: "auth_alone w" and run: "run_state (Login h r) w = (a, w')"
  shows "opens_none (aw_state w) (aw_state w') \<or>
    aq_method r = ''POST'' \<and>
    (\<exists>u. password_accepted h r (as_users (aw_state w)) u \<and> opens_for (usr_ID u) (aw_state w) (aw_state w'))"
proof -
  obtain locked w1 where 1: "run_state (IsLocked (ah_loginLimiter h) (clientIP r)) w = (locked, w1)" by (metis surj_pair)
  note w1 = IsLocked_read [OF 1 al]
  consider (early) "aw_state w' = aw_state w"
    | (tried) req where "ah_dec_login h (aq_body r) = Some req" "aq_method r = ''POST''"
      "run_state (attempt_login h (clientIP r) (ToLower (TrimSpace (lor_Email req))) (TrimSpace (lor_Password req)) (lor_RememberMe req))
         w1 = (a, w')"
    using run 1 w1 by (auto simp: Login_def Let_def not_allowed_def reply_def split: if_splits option.splits)
  then show ?thesis
  proof cases
    case early
    then show ?thesis by (simp add: opens_none_def)
  next
    case tried
    from attempt_login_opens [OF w1(2) tried(3)] tried(1,2) w1(1) show ?thesis by (auto simp: password_accepted_def)
  qed
qed

lemma CreateUserWithWorkspace_id:
  assumes "fst (CreateUserWithWorkspace email hash name t d) = Inr u"
  shows "usr_ID u = udb_user_seq d + 1"
  using assms by (auto simp: CreateUserWithWorkspace_def insert_user_def Let_def User.extend_def split: prod.splits sum.splits if_splits)

lemma create_account_opens:
  assumes al: "auth_alone w" and run: "run_state (create_account h email password) w = (a, w')"
  shows "opens_for (udb_user_seq (as_users (aw_state w)) + 1) (aw_state w) (aw_state w')"
proof -
  let ?S = "opens_for (udb_user_seq (as_users (aw_state w)) + 1)"
  obtain hashed w1 where 1: "run_state (hashPassword password) w = (hashed, w1)" by (metis surj_pair)
  then have w1: "aw_state w1 = aw_state w" "auth_alone w1" using al by (auto simp: hashPassword_def alone_step)
  show ?thesis
  proof (cases hashed)
    case (Inl e)
    with run 1 w1 show ?thesis by (auto simp: create_account_def reply_def opens_for.refl)
  next
    case (Inr hash)
    let ?op = "CreateUserWithWorkspace email hash (default_workspace email)"
    obtain created w2 where 2: "run_state (on_users ?op) w1 = (created, w2)" by (metis surj_pair)
    have w2: "?S (aw_state w1) (aw_state w2)" "auth_alone w2"
      using alone_moves [OF opens_for.writes_moves(1) 2 w1(2) opens_for.refl] by blast+
    show ?thesis
    proof (cases created)
      case (Inl e)
      with run 1 2 \<open>hashed = Inr hash\<close> w1 w2 show ?thesis by (auto simp: create_account_def reply_def)
    next
      case (Inr u)
      with 2 w1 obtain t where "fst (?op t (as_users (aw_state w))) = Inr u"
        by (auto simp: on_users_def auth_call_def Let_def alone_step case_prod_unfold split: fault.splits)
      then have u: "usr_ID u = udb_user_seq (as_users (aw_state w)) + 1" by (rule CreateUserWithWorkspace_id)
      obtain session w3 where 3: "run_state (sessions_Create (usr_ID u) standardSessionTTL) w2 = (session, w3)" by (metis surj_pair)
      have "w' = w3" using run 1 2 3 Inr \<open>hashed = Inr hash\<close> by (simp add: create_account_def)
      then have "?S (aw_state w2) (aw_state w')"
        using alone_moves(1) [OF sessions_Create_opens 3 w2(2) opens_for.refl] u by simp
      with w1 w2 show ?thesis using opens_for.trans by metis
    qed
  qed
qed

lemma Signup_opens:
  assumes al: "auth_alone w" and run: "run_state (Signup h r) w = (a, w')"
  shows "opens_none (aw_state w) (aw_state w') \<or>
    aq_method r = ''POST'' \<and> ah_allowSignup h \<and> opens_for (udb_user_seq (as_users (aw_state w)) + 1) (aw_state w) (aw_state w')"
proof -
  have read: "aw_state w1 = aw_state w \<and> auth_alone w1" if "run_state (on_users (EmailExists e)) w = (x, w1)" for e x w1
    using on_users_read [OF that al] by (simp add: EmailExists_def)
  consider (early) "aw_state w' = aw_state w"
    | (created) email password w1 where "aq_method r = ''POST''" "ah_allowSignup h" "aw_state w1 = aw_state w" "auth_alone w1"
      "run_state (create_account h email password) w1 = (a, w')"
    using run
    by (auto simp: Signup_def Let_def not_allowed_def reply_def split: if_splits option.splits prod.splits sum.splits dest: read)
  then show ?thesis
  proof cases
    case early
    then show ?thesis by (simp add: opens_none.refl)
  next
    case created
    from create_account_opens [OF created(4,5)] created show ?thesis by simp
  qed
qed

lemma route_opens:
  assumes "(p, m, handle) \<in> set (auth_routes h rendered)"
  shows "p = ah_loginPath h \<and> handle = SameOrigin (Login h) \<or>
    p = ''/api/v1/auth/signup'' \<and> handle = SameOrigin (Signup h) \<or> state_io_rel (auth_moves opens_none) (handle r)"
  using assms unfolding auth_routes_def
  by (auto split: if_splits intro!: opens_none.guarded_moves opens_none.page_moves opens_none.onboarding_moves opens_none.key_handler_moves)

lemma served_route:
  assumes "run_state (auth_serve h rendered path r) w = (a, w')"
  shows "w' = w \<and> fst a = 404 \<or> (\<exists>m handle. (path, m, handle) \<in> set (auth_routes h rendered) \<and> run_state (handle r) w = (a, w'))"
proof -
  let ?fits = "filter (\<lambda>(p, m, _). p = path \<and> takes_method m (aq_method r)) (auth_routes h rendered)"
  let ?all = "filter (\<lambda>(_, m, _). m \<noteq> None) ?fits @ ?fits"
  show ?thesis
  proof (cases ?all)
    case Nil
    with assms show ?thesis unfolding auth_serve_def Let_def by (auto simp: reply_def)
  next
    case (Cons x xs)
    then have "x \<in> set ?all" by simp
    then obtain m handle where x: "x = (path, m, handle)" "(path, m, handle) \<in> set (auth_routes h rendered)" by auto
    have "run_state (handle r) w = (a, w')" using assms Cons x(1) unfolding auth_serve_def Let_def by simp
    with x(2) show ?thesis by blast
  qed
qed

text \<open>
  C11 A session is opened only for a user whose password was given, or whose account was just
  created. Under any faults, when a request to the server leaves a session that was not there
  before, the request was a same-origin POST, and either to the login path with a body that names the
  address and an accepted password of a stored user, who is the user of the session; or to the
  sign-up path of an instance that allows it, and the user of the session has the next id of the
  sequence.
\<close>

theorem session_needs_credentials:
  assumes al: "auth_alone w" and run: "run_state (auth_serve h rendered path r) w = (a, w')"
    and new: "as_sessions (aw_state w') k = Some s" "as_sessions (aw_state w) k \<noteq> Some s"
  shows "req_same_origin r \<and> aq_method r = ''POST'' \<and>
    (path = ah_loginPath h \<and>
       (\<exists>u. password_accepted h r (as_users (aw_state w)) u \<and> ses_user_id s = FormatInt (usr_ID u)) \<or>
     path = ''/api/v1/auth/signup'' \<and> ah_allowSignup h \<and>
       ses_user_id s = FormatInt (udb_user_seq (as_users (aw_state w)) + 1))"
proof -
  have grown: "\<not> opens_none (aw_state w) (aw_state w')" using new by (auto simp: opens_none_def map_le_def dom_def)
  have opened: "ses_user_id s = FormatInt u" if "opens_for u (aw_state w) (aw_state w')" for u
    using that new by (auto simp: opens_for_def)
  obtain m handle where handle: "(path, m, handle) \<in> set (auth_routes h rendered)" "run_state (handle r) w = (a, w')"
    using served_route [OF run] grown opens_none.refl by blast
  have "\<not> state_io_rel (auth_moves opens_none) (handle r)"
    using alone_moves(1) [of opens_none, OF _ handle(2) al] grown opens_none.refl by blast
  then consider (login) "path = ah_loginPath h" "handle = SameOrigin (Login h)"
    | (signup) "path = ''/api/v1/auth/signup''" "handle = SameOrigin (Signup h)"
    using route_opens [OF handle(1)] by blast
  then show ?thesis
  proof cases
    case login
    with handle(2) grown have origin: "req_same_origin r" "run_state (Login h r) w = (a, w')"
      by (auto simp: SameOrigin_def reply_def opens_none.refl split: if_splits)
    from Login_opens [OF al origin(2)] grown origin(1) login(1) show ?thesis by (blast intro: opened)
  next
    case signup
    with handle(2) grown have origin: "req_same_origin r" "run_state (Signup h r) w = (a, w')"
      by (auto simp: SameOrigin_def reply_def opens_none.refl split: if_splits)
    from Signup_opens [OF al origin(2)] grown have "aq_method r = ''POST''" "ah_allowSignup h"
      "opens_for (udb_user_seq (as_users (aw_state w)) + 1) (aw_state w) (aw_state w')" by blast+
    with origin(1) opened signup(1) show ?thesis by simp
  qed
qed

text \<open>
  C24 The tables of users stay consistent under every request to the server, whatever calls fail and
  whatever the other processes do that keep them so; and of the tables of the message service no
  request to these routes changes more than that it adds workspaces.
\<close>

theorem auth_requests_keep_tables:
  assumes "run_state (auth_serve h rendered path r) w = (a, w')"
  shows "(auth_others keeps_users w \<and> users_inv (as_users (aw_state w)) \<longrightarrow> users_inv (as_users (aw_state w'))) \<and>
    (auth_others mail_tables_kept w \<longrightarrow> mail_tables_kept (aw_state w) (aw_state w'))"
  using state_io_relD [OF users_kept.serve_moves assms] state_io_relD [OF mail_kept.serve_moves assms]
  by (simp add: auth_moves_def keeps_users_def)

section \<open>API keys\<close>

lemma CreateAPIKey_created:
  assumes "fst (CreateAPIKey u ws name hash prefix t d) = Inr k"
  shows "key_UserID k = u \<and> key_WorkspaceID k = ws \<and> key_Name k = name \<and>
    (\<exists>m \<in> set (udb_members d). mem_user_id m = u \<and> mem_workspace_id m = ws \<and> mem_role m \<in> {''admin'', ''operator''}) \<and>
    snd (CreateAPIKey u ws name hash prefix t d) =
      d\<lparr>udb_keys := udb_keys d @ [\<lparr>krow_key = k, krow_hash = hash\<rparr>], udb_key_seq := udb_key_seq d + 1\<rparr>"
  using assms by (auto simp: CreateAPIKey_def Let_def split: if_splits)

lemma on_users_done:
  assumes "run_state (on_users op) w = (Inr x, w')" and "auth_alone w"
  shows "\<exists>t. fst (op t (as_users (aw_state w))) = Inr x \<and> as_users (aw_state w') = snd (op t (as_users (aw_state w)))"
  using assms by (auto simp: on_users_def auth_call_def Let_def alone_step case_prod_unfold split: fault.splits)

lemma handler_CreateAPIKey_created:
  assumes al: "auth_alone w" and run: "run_state (handler_CreateAPIKey h ctx r) w = ((201, c, ANewKey k), w')"
  shows "\<exists>p t key b. ctx = Some p \<and> \<not> pr_Global p \<and>
    fst (CreateAPIKey (pr_UserID p) (pr_WorkspaceID p) (ckr_Name k) (HashAPIKey (ah_sha256 h) (ckr_Key k)) (ckr_KeyPrefix k) t
      (as_users (aw_state w))) = Inr key \<and>
    as_users (aw_state w') = snd (CreateAPIKey (pr_UserID p) (pr_WorkspaceID p) (ckr_Name k) (HashAPIKey (ah_sha256 h) (ckr_Key k))
      (ckr_KeyPrefix k) t (as_users (aw_state w))) \<and>
    ckr_ID k = key_ID key \<and> ckr_Key k = ''mk_'' @ Base64_Encode base64_url b \<and> ckr_KeyPrefix k = APIKeyPrefix (ckr_Key k)"
proof -
  have ctx: "\<exists>p. ctx = Some p \<and> \<not> pr_Global p \<and> UserIDFromContext ctx = (pr_UserID p, True) \<and> workspaceID ctx = pr_WorkspaceID p"
    if "snd (UserIDFromContext ctx)"
    using that by (cases ctx) (auto simp: UserIDFromContext_def PrincipalFromContext_def workspaceID_def WorkspaceIDFromContext_def)
  have "snd (UserIDFromContext ctx)"
    using run by (auto simp: handler_CreateAPIKey_def with_user_def reply_def not_allowed_def split: if_splits prod.splits)
  then obtain p where p: "ctx = Some p" "\<not> pr_Global p" "UserIDFromContext ctx = (pr_UserID p, True)" "workspaceID ctx = pr_WorkspaceID p"
    using ctx by blast
  obtain g w1 where 1: "run_state GenerateAPIKey w = (g, w1)" by (metis surj_pair)
  then have w1: "aw_state w1 = aw_state w" "auth_alone w1" and g: "g = Inr x \<Longrightarrow> \<exists>b. x = ''mk_'' @ Base64_Encode base64_url b" for x
    using al by (auto simp: GenerateAPIKey_def rand_bytes_def alone_step split: sum.splits)
  obtain name rawKey key w2 where g': "g = Inr rawKey"
    and 2: "run_state (on_users (CreateAPIKey (pr_UserID p) (pr_WorkspaceID p) name (HashAPIKey (ah_sha256 h) rawKey) (APIKeyPrefix rawKey))) w1
      = (Inr key, w')"
    and k: "k = \<lparr>ckr_ID = key_ID key, ckr_Name = key_Name key, ckr_Key = rawKey, ckr_KeyPrefix = APIKeyPrefix rawKey,
      ckr_CreatedAt = ah_fmt_time h (key_CreatedAt key)\<rparr>"
    using run 1 p(3,4)
    by (auto simp: handler_CreateAPIKey_def with_user_def reply_def not_allowed_def Let_def split: if_splits option.splits prod.splits sum.splits)
  obtain t where t: "fst (CreateAPIKey (pr_UserID p) (pr_WorkspaceID p) name (HashAPIKey (ah_sha256 h) rawKey) (APIKeyPrefix rawKey) t
      (as_users (aw_state w))) = Inr key"
    "as_users (aw_state w') = snd (CreateAPIKey (pr_UserID p) (pr_WorkspaceID p) name (HashAPIKey (ah_sha256 h) rawKey) (APIKeyPrefix rawKey) t
      (as_users (aw_state w)))"
    using on_users_done [OF 2 w1(2)] w1(1) by auto
  have "key_Name key = name" using CreateAPIKey_created [OF t(1)] by simp
  with p(1,2) t k g g' show ?thesis by auto
qed

lemma unknown_key:
  assumes "\<forall>r \<in> set (udb_keys d). krow_hash r \<noteq> hash"
  shows "fst (AuthenticateAPIKey hash t d) = Inl ErrNoRows"
proof -
  have "find (\<lambda>r. krow_hash r = hash \<and> key_member d r \<noteq> None) (udb_keys d) = None"
    using assms by (auto simp: find_None_iff)
  then show ?thesis by (simp add: AuthenticateAPIKey_def)
qed

lemma deleted_key_gone:
  assumes inv: "users_inv d" and row: "\<lparr>krow_key = key, krow_hash = hash\<rparr> \<in> set (udb_keys d)"
    and del: "fst (DeleteAPIKey (key_UserID key) (key_WorkspaceID key) (key_ID key) t d) = Inr ()"
  shows "fst (AuthenticateAPIKey hash t' (snd (DeleteAPIKey (key_UserID key) (key_WorkspaceID key) (key_ID key) t d))) = Inl ErrNoRows"
proof -
  let ?named = "key_named (key_UserID key) (key_WorkspaceID key) (key_ID key)"
  have only: "krow_key r = key" if "r \<in> set (udb_keys d)" "krow_hash r = hash" for r
  proof -
    have "inj_on krow_hash (set (udb_keys d))" using users_invD(7) [OF inv] by (simp add: distinct_map)
    from inj_onD [OF this _ that(1) row] that(2) have "r = \<lparr>krow_key = key, krow_hash = hash\<rparr>" by simp
    then show ?thesis by simp
  qed
  then have "krow_hash r \<noteq> hash" if "r \<in> set (filter (\<lambda>r. \<not> ?named r) (udb_keys d))" for r
    using that by (auto simp: key_named_def)
  moreover have "snd (DeleteAPIKey (key_UserID key) (key_WorkspaceID key) (key_ID key) t d) =
      d\<lparr>udb_keys := filter (\<lambda>r. \<not> ?named r) (udb_keys d)\<rparr>"
    using del by (auto simp: DeleteAPIKey_def split: if_splits)
  ultimately show ?thesis by (simp add: unknown_key)
qed

lemma handler_DeleteAPIKey_deleted:
  assumes al: "auth_alone w" and ctx: "ctx = Some p" "\<not> pr_Global p"
    and run: "run_state (handler_DeleteAPIKey h ctx r) w = ((200, c, b), w')" and i: "ah_dec_id h (aq_body r) = Some i"
  shows "\<exists>t. fst (DeleteAPIKey (pr_UserID p) (pr_WorkspaceID p) i t (as_users (aw_state w))) = Inr () \<and>
    as_users (aw_state w') = snd (DeleteAPIKey (pr_UserID p) (pr_WorkspaceID p) i t (as_users (aw_state w)))"
proof -
  have p: "UserIDFromContext ctx = (pr_UserID p, snd (PrincipalFromContext ctx))" "workspaceID ctx = pr_WorkspaceID p"
    using ctx by (simp_all add: UserIDFromContext_def PrincipalFromContext_def workspaceID_def WorkspaceIDFromContext_def)
  have "run_state (on_users (DeleteAPIKey (pr_UserID p) (pr_WorkspaceID p) i)) w = (Inr (), w')"
    using run i p
    by (auto simp: handler_DeleteAPIKey_def with_user_def reply_def not_allowed_def Let_def split: if_splits prod.splits sum.splits)
  from on_users_done [OF this al] show ?thesis by blast
qed

text \<open>
  C30 The life of an API key. A key that was handed out is a new random text behind \<open>mk_\<close>, stored
  only as a hash and a prefix of 8 characters; presented, it authenticates as its creator in the
  workspace of the session with a role of the creator there; and once its creator had it deleted it
  authenticates no more.
\<close>

theorem api_key_lifecycle:
  assumes al: "auth_alone w" and inv: "users_inv (as_users (aw_state w))"
    and run: "run_state (handler_CreateAPIKey h ctx r) w = ((201, c, ANewKey k), w')"
    and hashed: "hash = HashAPIKey (ah_sha256 h) (ckr_Key k)"
  shows "\<exists>p role. ctx = Some p \<and> role \<in> {''admin'', ''operator''} \<and>
    (\<exists>b. ckr_Key k = ''mk_'' @ Base64_Encode base64_url b) \<and> ckr_KeyPrefix k = APIKeyPrefix (ckr_Key k) \<and>
    fst (AuthenticateAPIKey hash t (as_users (aw_state w'))) =
      Inr \<lparr>aki_UserID = pr_UserID p, aki_WorkspaceID = pr_WorkspaceID p, aki_Role = role\<rparr> \<and>
    (\<forall>r' c' b' w''. ah_dec_id h (aq_body r') = Some (ckr_ID k) \<longrightarrow>
       run_state (handler_DeleteAPIKey h ctx r') w' = ((200, c', b'), w'') \<longrightarrow>
       fst (AuthenticateAPIKey hash t (as_users (aw_state w''))) = Inl ErrNoRows)"
proof -
  obtain p t0 key b where p: "ctx = Some p" "\<not> pr_Global p"
    and made: "fst (CreateAPIKey (pr_UserID p) (pr_WorkspaceID p) (ckr_Name k) hash (ckr_KeyPrefix k) t0 (as_users (aw_state w))) = Inr key"
    and d': "as_users (aw_state w') = snd (CreateAPIKey (pr_UserID p) (pr_WorkspaceID p) (ckr_Name k) hash (ckr_KeyPrefix k) t0 (as_users (aw_state w)))"
    and k: "ckr_ID k = key_ID key" "ckr_Key k = ''mk_'' @ Base64_Encode base64_url b" "ckr_KeyPrefix k = APIKeyPrefix (ckr_Key k)"
    using handler_CreateAPIKey_created [OF al run] unfolding hashed by blast
  let ?d' = "as_users (aw_state w')" and ?row = "\<lparr>krow_key = key, krow_hash = hash\<rparr>"
  have al': "auth_alone w'" using alone_moves(2) [OF users_kept.key_handler_moves(2) run al users_kept.refl] .
  have inv': "users_inv ?d'" unfolding d' by (rule CreateAPIKey_inv [OF inv])
  obtain m where m: "m \<in> set (udb_members ?d')" "mem_user_id m = pr_UserID p" "mem_workspace_id m = pr_WorkspaceID p"
    "mem_role m \<in> {''admin'', ''operator''}" and key: "key_UserID key = pr_UserID p" "key_WorkspaceID key = pr_WorkspaceID p"
    and row: "?row \<in> set (udb_keys ?d')"
    using CreateAPIKey_created [OF made] d' by auto
  have "fst (AuthenticateAPIKey hash t ?d') = Inr \<lparr>aki_UserID = pr_UserID p, aki_WorkspaceID = pr_WorkspaceID p, aki_Role = mem_role m\<rparr>"
    unfolding AuthenticateAPIKey_iff [OF inv'] using row m key by (intro bexI [OF _ row] bexI [OF _ m(1)]) simp
  moreover have "fst (AuthenticateAPIKey hash t (as_users (aw_state w''))) = Inl ErrNoRows"
    if "ah_dec_id h (aq_body r') = Some (ckr_ID k)" "run_state (handler_DeleteAPIKey h ctx r') w' = ((200, c', b'), w'')" for r' c' b' w''
    using handler_DeleteAPIKey_deleted [OF al' p that(2,1)] deleted_key_gone [OF inv' row] key k(1) by auto
  ultimately show ?thesis using p(1) m(4) k by blast
qed

lemma calm_step: "auth_calm w \<Longrightarrow> auth_calm (auth_step n st w)"
  by (simp add: auth_calm_def auth_alone_def auth_step_def)

lemma calm_call:
  assumes "auth_calm w"
  shows "run_state (auth_call f) w =
    (case f (aw_clock w (aw_step w)) (aw_state w) of (r, st) \<Rightarrow> (r, auth_step 1 st w))"
  using assms by (simp add: auth_calm_def auth_call_def alone_step Let_def)

lemma calm_users:
  assumes "auth_calm w" and "op (aw_clock w (aw_step w)) (as_users (aw_state w)) = (x, d)"
  shows "run_state (on_users op) w = (x, auth_step 1 ((aw_state w)\<lparr>as_users := d\<rparr>) w)"
  using assms by (simp add: on_users_def calm_call)

lemma calm_create:
  assumes "auth_calm w" and "aw_random w (aw_step w) = Inr b"
  shows "run_state (sessions_Create u ttl) w =
    (Inr (EncodeToString b), auth_step 2 ((aw_state w)\<lparr>as_sessions :=
       Expire_session (''session:'' @ EncodeToString b) ttl (aw_clock w (aw_step w))
         (HSet_session (''session:'' @ EncodeToString b) u (Unix (aw_clock w (aw_step w) + ttl)) (aw_clock w (aw_step w)) (as_sessions (aw_state w)))\<rparr>) w)"
  using assms by (simp add: sessions_Create_def session_Create_def generateSessionID_def auth_calm_def alone_step Let_def)

lemma find_last: "\<forall>y \<in> set xs. \<not> P y \<Longrightarrow> P x \<Longrightarrow> find P (xs @ [x]) = Some x"
  by (induction xs) auto

text \<open>A new account is found by its address, and its workspace by its id.\<close>

lemma new_account:
  assumes inv: "users_inv d" and made: "CreateUserWithWorkspace email hash name t d = (Inr u, d')"
  shows "GetUserByEmail email t' d' = (Inr \<lparr>usr_ID = usr_ID u, usr_Email = email, usr_PasswordHash = hash, usr_CreatedAt = t\<rparr>, d') \<and>
    GetUserWorkspace (usr_ID u) t' d' = (Inr (u\<lparr>usr_PasswordHash := []\<rparr>), d') \<and> usr_Role u = ''admin''"
proof -
  let ?i = "udb_user_seq d + 1" and ?ws = "db_workspace_seq (udb_tables d) + 1"
  let ?u = "\<lparr>usr_ID = ?i, usr_Email = email, usr_PasswordHash = hash, usr_CreatedAt = t\<rparr>"
  let ?m = "\<lparr>mem_user_id = ?i, mem_workspace_id = ?ws, mem_role = ''admin'', mem_created_at = t, mem_onboarding_seen_at = None\<rparr>"
  have ids: "usr_ID v \<noteq> ?i" if "v \<in> set (udb_users d)" for v using users_invD(3) [OF inv that] by simp
  have members: "mem_user_id m \<noteq> ?i" if "m \<in> set (udb_members d)" for m
    using users_invD(6) [OF inv that] ids by (elim conjE imageE) simp
  have fresh: "map_of (db_workspaces (udb_tables d)) ?ws = None"
    using inv by (auto simp: users_inv_def map_of_eq_None_iff)
  have email: "\<forall>v \<in> set (udb_users d). usr_Email v \<noteq> email"
    and d': "d' = d\<lparr>udb_users := udb_users d @ [?u], udb_user_seq := ?i,
      udb_tables := (udb_tables d)\<lparr>db_workspaces := db_workspaces (udb_tables d) @ [(?ws, name)], db_workspace_seq := ?ws\<rparr>,
      udb_members := udb_members d @ [?m]\<rparr>"
    and u: "u = User.extend ?u \<lparr>usr_WorkspaceID = ?ws, usr_WorkspaceName = name, usr_Role = ''admin''\<rparr>"
    using made by (auto simp: CreateUserWithWorkspace_def insert_user_def insert_workspace_def insert_member_def Let_def split: if_splits)
  have by_email: "find (\<lambda>v. usr_Email v = email) (udb_users d') = Some ?u"
    using email by (simp add: d' find_last)
  have by_id: "find (\<lambda>v. usr_ID v = ?i) (udb_users d') = Some ?u"
    using ids by (simp add: d' find_last)
  have "filter (\<lambda>m. mem_user_id m = ?i \<and> has_workspace (mem_workspace_id m) (udb_tables d')) (udb_members d') = [?m]"
    using members by (simp add: d' has_workspace_def)
  then have mem: "memberships ?i d' = [?m]" by (simp add: memberships_def)
  have "workspace_name ?ws d' = name" using fresh by (simp add: workspace_name_def d' map_add_def)
  with by_email by_id mem show ?thesis
    by (simp add: GetUserByEmail_def GetUserWorkspace_def u User.extend_def)
qed

lemma calm_Reset:
  assumes "auth_calm w"
  shows "\<exists>w' x. run_state (Reset l ip) w = (x, w') \<and> auth_calm w' \<and> as_users (aw_state w') = as_users (aw_state w) \<and>
    aw_random w' = aw_random w \<and> aw_bcrypt w' = aw_bcrypt w"
  using assms
  by (cases l) (auto simp: Reset_def del_fails_def del_block_def calm_call calm_step auth_step_def [of _ _ w] alone_step auth_calm_def auth_alone_def auth_step_def seen_state_def auth_call_def Let_def)

lemma calm_IsLocked:
  assumes "auth_calm w" and "l = None \<or> as_blocks (aw_state w) (blockKey ip) = None"
  shows "\<exists>w'. run_state (IsLocked l ip) w = (Inr False, w') \<and> auth_calm w' \<and> aw_state w' = aw_state w \<and>
    aw_random w' = aw_random w \<and> aw_bcrypt w' = aw_bcrypt w"
  using assms
  by (cases l) (auto simp: IsLocked_def calm_call calm_step alone_step auth_calm_def auth_alone_def auth_step_def)

lemma logged_in_works:
  assumes calm: "auth_calm w" and b: "isBcryptHash (usr_PasswordHash user)"
    and ws: "\<And>t. GetUserWorkspace (usr_ID user) t (as_users (aw_state w)) = (Inr u, as_users (aw_state w))"
    and random: "\<And>n. \<exists>b. aw_random w n = Inr b"
  shows "\<exists>c s w'. run_state (logged_in h user password rememberMe) w = ((200, Some c, AUser u), w') \<and>
    as_sessions (aw_state w') (''session:'' @ ck_value c) = Some s \<and> ses_user_id s = FormatInt (usr_ID user)"
proof -
  let ?w1 = "auth_step 1 (aw_state w) w"
  have 1: "run_state (user_workspace user) w = (Inr u, ?w1)"
    using calm_users [OF calm, of "GetUserWorkspace (usr_ID user)"] ws by (simp add: user_workspace_def)
  have calm1: "auth_calm ?w1" by (rule calm_step [OF calm])
  obtain b where "aw_random ?w1 (aw_step ?w1) = Inr b" using random by (auto simp: auth_step_def)
  note 2 = calm_create [OF calm1 this]
  show ?thesis
    using b 1 2 [of "usr_ID user" "if rememberMe then extendedSessionTTL else standardSessionTTL"]
    by (simp add: logged_in_def Let_def sessionCookie_def auth_step_def HSet_session_def Expire_session_def)
qed

lemma calm_hash:
  assumes "auth_calm w"
  shows "run_state (hashPassword p) w = (aw_bcrypt w (aw_step w) p, auth_step 1 (aw_state w) w)"
  using assms by (simp add: hashPassword_def auth_calm_def alone_step)

lemma create_account_done:
  assumes calm: "auth_calm w" and random: "\<And>n. \<exists>b. aw_random w n = Inr b"
    and run: "run_state (create_account h email password) w = ((201, c, AUser u), w')"
  shows "\<exists>hash n t. aw_bcrypt w n password = Inr hash \<and>
    CreateUserWithWorkspace email hash (default_workspace email) t (as_users (aw_state w)) = (Inr u, as_users (aw_state w')) \<and>
    auth_calm w' \<and> aw_random w' = aw_random w \<and> aw_bcrypt w' = aw_bcrypt w \<and> as_blocks (aw_state w') = as_blocks (aw_state w)"
proof -
  let ?w1 = "auth_step 1 (aw_state w) w"
  have calm1: "auth_calm ?w1" by (rule calm_step [OF calm])
  obtain hash where hash: "aw_bcrypt w (aw_step w) password = Inr hash"
    using run by (cases "aw_bcrypt w (aw_step w) password") (auto simp: create_account_def calm_hash [OF calm] reply_def)
  let ?op = "CreateUserWithWorkspace email hash (default_workspace email)"
  let ?t = "aw_clock ?w1 (aw_step ?w1)"
  obtain x d where 2: "?op ?t (as_users (aw_state ?w1)) = (x, d)" by (metis surj_pair)
  let ?w2 = "auth_step 1 ((aw_state ?w1)\<lparr>as_users := d\<rparr>) ?w1"
  note made = calm_users [OF calm1, of ?op, OF 2]
  have calm2: "auth_calm ?w2" by (rule calm_step [OF calm1])
  obtain b where b: "aw_random ?w2 (aw_step ?w2) = Inr b" using random by (auto simp: auth_step_def)
  obtain v where v: "x = Inr v"
    using run made by (cases x) (auto simp: create_account_def calm_hash [OF calm] hash reply_def)
  have "v = u" "aw_random w' = aw_random w" "aw_bcrypt w' = aw_bcrypt w" "auth_calm w'"
    "as_users (aw_state w') = d" "as_blocks (aw_state w') = as_blocks (aw_state w)"
    using run made v calm_create [OF calm2 b, of "usr_ID v" standardSessionTTL] calm
    by (auto simp: create_account_def calm_hash [OF calm] hash auth_step_def auth_calm_def auth_alone_def)
  with 2 v hash show ?thesis by (auto simp: auth_step_def)
qed

text \<open>
  C29 Who signs up can log in. When an account was created, by calls that were all executed, a later
  login with the same address, in whatever case and with whatever blanks around it, and the same
  password is answered with the account and its workspace, of which the user is the administrator,
  unless the client is locked out; and the cookie names a session of that user.
\<close>

theorem signup_then_login:
  assumes calm: "auth_calm w" and inv: "users_inv (as_users (aw_state w))" and bcrypt: "bcrypt_correct w h"
    and random: "\<And>n. \<exists>b. aw_random w n = Inr b"
    and signup: "run_state (Signup h r) w = ((201, c, AUser u), w')" "ah_dec_signup h (aq_body r) = Some su"
    and login: "aq_method r' = ''POST''" "ah_dec_login h (aq_body r') = Some lo"
      "ToLower (TrimSpace (lor_Email lo)) = ToLower (TrimSpace (sur_Email su))" "TrimSpace (lor_Password lo) = TrimSpace (sur_Password su)"
    and unlocked: "ah_loginLimiter h = None \<or> as_blocks (aw_state w) (blockKey (clientIP r')) = None"
  shows "\<exists>c' s w''. run_state (Login h r') w' = ((200, Some c', AUser (u\<lparr>usr_PasswordHash := []\<rparr>)), w'') \<and> usr_Role u = ''admin'' \<and>
    as_sessions (aw_state w'') (''session:'' @ ck_value c') = Some s \<and> ses_user_id s = FormatInt (usr_ID u)"
proof -
  let ?email = "ToLower (TrimSpace (sur_Email su))" and ?password = "TrimSpace (sur_Password su)"
  let ?w0 = "auth_step 1 (aw_state w) w"
  have "run_state (on_users (EmailExists ?email)) w = (fst (EmailExists ?email (aw_clock w (aw_step w)) (as_users (aw_state w))), ?w0)"
    using calm_users [OF calm, of "EmailExists ?email"] by (simp add: EmailExists_def)
  then have made: "run_state (create_account h ?email ?password) ?w0 = ((201, c, AUser u), w')"
    and ne: "?email \<noteq> []" "?password \<noteq> []"
    using signup by (auto simp: Signup_def Let_def not_allowed_def reply_def split: if_splits prod.splits sum.splits)
  have r0: "\<exists>b. aw_random ?w0 n = Inr b" for n using random by (simp add: auth_step_def)
  obtain hash n t where hash: "aw_bcrypt w n ?password = Inr hash"
    and new: "CreateUserWithWorkspace ?email hash (default_workspace ?email) t (as_users (aw_state w)) = (Inr u, as_users (aw_state w'))"
    and w': "auth_calm w'" "aw_random w' = aw_random w" "aw_bcrypt w' = aw_bcrypt w" "as_blocks (aw_state w') = as_blocks (aw_state w)"
    using create_account_done [OF calm_step [OF calm] r0 made] by (auto simp: auth_step_def)
  note account = new_account [OF inv new]
  let ?user = "\<lparr>usr_ID = usr_ID u, usr_Email = ?email, usr_PasswordHash = hash, usr_CreatedAt = t\<rparr>"
  have ok: "isBcryptHash hash" "verifyPassword (ah_sha256 h) (ah_bcrypt_accepts h) ?password hash"
    using bcrypt hash by (auto simp: bcrypt_correct_def verifyPassword_def)
  obtain w1 where 1: "run_state (IsLocked (ah_loginLimiter h) (clientIP r')) w' = (Inr False, w1)" "auth_calm w1"
    "aw_state w1 = aw_state w'" "aw_random w1 = aw_random w'"
    using calm_IsLocked [OF w'(1), of "ah_loginLimiter h" "clientIP r'"] unlocked w'(4) by auto
  have 2: "run_state (on_users (GetUserByEmail ?email)) w1 = (Inr ?user, auth_step 1 (aw_state w1) w1)"
    using calm_users [OF 1(2), of "GetUserByEmail ?email"] account 1(3) by simp
  obtain w3 x where 3: "run_state (Reset (ah_loginLimiter h) (clientIP r')) (auth_step 1 (aw_state w1) w1) = (x, w3)" "auth_calm w3"
    "as_users (aw_state w3) = as_users (aw_state w')" "aw_random w3 = aw_random w'"
    using calm_Reset [OF calm_step [OF 1(2)], of "ah_loginLimiter h" "clientIP r'" 1 "aw_state w1"] 1(3,4)
    by (elim exE conjE) (simp add: auth_step_def)
  have "\<exists>c s w''. run_state (logged_in h ?user ?password (lor_RememberMe lo)) w3 = ((200, Some c, AUser (u\<lparr>usr_PasswordHash := []\<rparr>)), w'') \<and>
    as_sessions (aw_state w'') (''session:'' @ ck_value c) = Some s \<and> ses_user_id s = FormatInt (usr_ID ?user)"
    by (rule logged_in_works [OF 3(2)]) (use ok account 3(3,4) w'(2) random in simp_all)
  with login ne 1(1) 2 3(1) ok account show ?thesis by (simp add: Login_def attempt_login_def Let_def)
qed

lemma demo_auth_calm: "auth_calm demo_auth_world" "auth_alone demo_auth_world" "users_inv (as_users (aw_state demo_auth_world))"
  "bcrypt_correct demo_auth_world demo_auth"
  using demo_users_inv
  by (simp_all add: auth_calm_def auth_alone_def demo_auth_world_def bcrypt_correct_def demo_auth_def isBcryptHash_def HasPrefix_def)

text \<open>The hypotheses hold for a login of the stored user with the right password.\<close>

theorem session_needs_credentials_witness:
  "\<exists>u. password_accepted demo_auth (demo_post ''x'') demo_users u \<and> FormatInt (usr_ID u) = ''1''"
proof -
  let ?s = "\<lparr>ses_user_id = ''1'', ses_expires_at = ''604801'', ses_gone_at = Some (604801 * Second)\<rparr>"
  have "as_sessions (aw_state (snd demo_sign_in)) ''session:4e'' = Some ?s" by code_simp
  moreover have "as_sessions (aw_state demo_auth_world) ''session:4e'' \<noteq> Some ?s" by (simp add: demo_auth_world_def)
  moreover have "run_state (auth_serve demo_auth (Some True) ''/login'' (demo_post ''x'')) demo_auth_world = (fst demo_sign_in, snd demo_sign_in)"
    by (simp add: demo_sign_in_def)
  ultimately show ?thesis
    using session_needs_credentials [OF demo_auth_calm(2)] by (fastforce simp: demo_auth_world_def)
qed

text \<open>The hypotheses hold for that login.\<close>

theorem auth_requests_keep_tables_witness: "users_inv (as_users (aw_state (snd demo_sign_in)))"
proof -
  have "auth_others keeps_users demo_auth_world" by (simp add: auth_others_def demo_auth_world_def users_kept.refl)
  then show ?thesis
    using auth_requests_keep_tables [of demo_auth "Some True" "''/login''" "demo_post ''x''" demo_auth_world "fst demo_sign_in" "snd demo_sign_in"]
      demo_auth_calm(3) by (simp add: demo_sign_in_def)
qed

text \<open>The hypotheses hold for an operator who creates a key and deletes it.\<close>

theorem api_key_lifecycle_witness:
  "fst (AuthenticateAPIKey (HashAPIKey rev ''mk_Tg=='') 9 (as_users (aw_state (snd demo_new_key)))) \<noteq> Inl ErrNoRows \<and>
   fst (AuthenticateAPIKey (HashAPIKey rev ''mk_Tg=='') 9 (as_users (aw_state (snd (run_state (handler_DeleteAPIKey demo_auth (Some demo_operator)
     ((demo_post [])\<lparr>aq_method := ''DELETE''\<rparr>)) (snd demo_new_key)))))) = Inl ErrNoRows"
proof -
  let ?k = "\<lparr>ckr_ID = 2, ckr_Name = ''deploy'', ckr_Key = ''mk_Tg=='', ckr_KeyPrefix = ''mk_Tg=='', ckr_CreatedAt = FormatInt Second\<rparr>"
  let ?r = "(demo_post [])\<lparr>aq_method := ''DELETE''\<rparr>"
  let ?del = "run_state (handler_DeleteAPIKey demo_auth (Some demo_operator) ?r) (snd demo_new_key)"
  have made: "fst demo_new_key = (201, None, ANewKey ?k)" by code_simp
  have deleted: "fst ?del = (200, None, AStatus ''deleted'')" by code_simp
  have "run_state (handler_CreateAPIKey demo_auth (Some demo_operator) (demo_post ''deploy'')) demo_auth_world = ((201, None, ANewKey ?k), snd demo_new_key)"
    using made by (simp add: demo_new_key_def prod_eq_iff)
  from api_key_lifecycle [OF demo_auth_calm(2,3) this refl, of 9] deleted show ?thesis
    by (auto simp: demo_auth_def prod_eq_iff)
qed

text \<open>The hypotheses hold for a new account.\<close>

theorem signup_then_login_witness:
  "fst (fst (run_state (Login demo_auth (demo_post ''long enough'')) (snd demo_sign_up))) = 200"
proof -
  let ?u = "\<lparr>usr_ID = 2, usr_Email = ''new@example.org'', usr_PasswordHash = ''$2long enough'', usr_CreatedAt = Second,
    usr_WorkspaceID = 3, usr_WorkspaceName = ''new'' @ [CHR 0x27] @ ''s workspace'', usr_Role = ''admin''\<rparr>"
  have "fst demo_sign_up = (201, Some \<lparr>ck_value = ''4e'', ck_secure = True, ck_maxAge = 604800\<rparr>, AUser ?u)" by code_simp
  then have up: "run_state (Signup demo_auth (demo_post ''long enough'')) demo_auth_world =
      ((201, Some \<lparr>ck_value = ''4e'', ck_secure = True, ck_maxAge = 604800\<rparr>, AUser ?u), snd demo_sign_up)"
    by (simp add: demo_sign_up_def prod_eq_iff)
  have dec: "ah_dec_signup demo_auth (aq_body (demo_post ''long enough'')) = Some \<lparr>sur_Email = '' New@example.org'', sur_Password = ''long enough''\<rparr>"
    "aq_method (demo_post ''long enough'') = ''POST''"
    "ah_dec_login demo_auth (aq_body (demo_post ''long enough'')) =
       Some \<lparr>lor_Email = ''new@example.org '', lor_Password = ''long enough'', lor_RememberMe = True\<rparr>"
    by (simp_all add: demo_auth_def demo_post_def)
  have "ToLower (TrimSpace ''new@example.org '') = ToLower (TrimSpace '' New@example.org'')" by code_simp
  moreover have "\<exists>b. aw_random demo_auth_world n = Inr b" for n by (simp add: demo_auth_world_def)
  moreover have "as_blocks (aw_state demo_auth_world) k = None" for k by (simp add: demo_auth_world_def)
  ultimately show ?thesis
    using signup_then_login [OF demo_auth_calm(1,3,4) _ up dec] by fastforce
qed

end
