(* ===== verification/Login_Limits.thy ===== *)
theory Login_Limits
  imports Auth_Sessions
begin

text \<open>
  The bound that the login limiter puts on password guessing.
\<close>

section \<open>Definitions\<close>

text \<open>Logins one after the other, and the guesses of one client that were refused.\<close>

fun run_logins :: "AuthHandler \<Rightarrow> auth_request list \<Rightarrow> auth_response list aio" where
  "run_logins h [] = State_Monad.return []"
| "run_logins h (r # rs) = do { a \<leftarrow> Login h r; answers \<leftarrow> run_logins h rs; State_Monad.return (a # answers) }"

definition guesses :: "string \<Rightarrow> auth_request list \<Rightarrow> auth_response list \<Rightarrow> nat" where
  "guesses ip rs answers = length (filter (\<lambda>(r, a). clientIP r = ip \<and> fst a = 401) (zip rs answers))"

text \<open>The keys of one client in Redis.\<close>

definition client_keys_same :: "string \<Rightarrow> auth_state \<Rightarrow> auth_state \<Rightarrow> bool" where
  "client_keys_same ip st st' \<longleftrightarrow>
     as_fails st' (failKey ip) = as_fails st (failKey ip) \<and> as_blocks st' (blockKey ip) = as_blocks st (blockKey ip)"

text \<open>After \<open>g\<close> refused guesses, up to \<open>finish\<close>: locked out, or \<open>g\<close> failures are counted.\<close>

definition guess_count :: "LoginRateLimiter \<Rightarrow> go_time \<Rightarrow> string \<Rightarrow> int \<Rightarrow> auth_state \<Rightarrow> bool" where
  "guess_count l finish ip g st \<longleftrightarrow>
     (\<exists>mark. as_blocks st (blockKey ip) = Some mark \<and> (\<forall>now < finish. block_live now mark) \<and> g \<le> ll_maxFailures l) \<or>
     as_fails st (failKey ip) = None \<and> g = 0 \<or>
     (\<exists>c. as_fails st (failKey ip) = Some c \<and> (\<forall>now < finish. live_counter now c) \<and> ctr_value c = g \<and> g < ll_maxFailures l)"

text \<open>The clock of the steps from \<open>w\<close> to \<open>w'\<close>.\<close>

definition clock_within :: "go_time \<Rightarrow> go_time \<Rightarrow> auth_world \<Rightarrow> auth_world \<Rightarrow> bool" where
  "clock_within start finish w w' \<longleftrightarrow>
     (\<forall>n. aw_step w \<le> n \<and> n < aw_step w' \<longrightarrow> start \<le> aw_clock w n \<and> aw_clock w n < finish)"

definition nothing_kept :: "auth_state \<Rightarrow> auth_state \<Rightarrow> bool" where
  "nothing_kept st st' \<longleftrightarrow> True"

definition demo_guesses :: "auth_response list \<times> auth_world" where
  "demo_guesses = run_state (run_logins demo_auth (map demo_post [''a'', ''b'', ''c''])) demo_auth_world"

interpretation client_keys: auth_opening "client_keys_same ip" for ip
  by unfold_locales (auto simp: client_keys_same_def)

lemma other_client_keys:
  assumes "ip' \<noteq> ip"
  shows "state_io_rel (auth_moves (client_keys_same ip)) (RecordFailure l ip')"
    "state_io_rel (auth_moves (client_keys_same ip)) (Reset l ip')"
proof -
  have keys: "failKey ip' \<noteq> failKey ip" "blockKey ip' \<noteq> blockKey ip" using assms by (simp_all add: failKey_def blockKey_def)
  have ops: "state_io_rel (auth_moves (client_keys_same ip)) (set_block (blockKey ip') ttl)"
    "state_io_rel (auth_moves (client_keys_same ip)) (del_fails (failKey ip'))"
    "state_io_rel (auth_moves (client_keys_same ip)) (del_block (blockKey ip'))" for ttl
    using keys by (auto simp: set_block_def del_fails_def del_block_def client_keys_same_def intro!: client_keys.call_moves)
  have incr: "client_keys_same ip st (st\<lparr>as_fails := snd (redis_incr t (failKey ip') (as_fails st))\<rparr>)"
    "client_keys_same ip st (st\<lparr>as_fails := redis_expire t (failKey ip') ttl (as_fails st)\<rparr>)" for t st ttl
    using keys by (auto simp: client_keys_same_def redis_incr_def redis_expire_def Let_def split: option.split)
  show "state_io_rel (auth_moves (client_keys_same ip)) (RecordFailure l ip')"
    unfolding RecordFailure_def by (intro client_keys.moves ops client_keys.call_moves) (simp_all add: incr case_prod_unfold)
  show "state_io_rel (auth_moves (client_keys_same ip)) (Reset l ip')"
    unfolding Reset_def by (intro client_keys.moves ops)
qed

lemma IsLocked_same: "state_io_rel (auth_moves (client_keys_same ip)) (IsLocked l ip')"
  unfolding IsLocked_def by (intro client_keys.moves client_keys.call_moves) (simp_all add: client_keys.refl)

lemma other_client_login:
  assumes "clientIP r \<noteq> ip"
  shows "state_io_rel (auth_moves (client_keys_same ip)) (Login h r)"
  using assms unfolding Login_def attempt_login_def refuse_login_def
  by (intro client_keys.moves client_keys.logged_in_moves other_client_keys IsLocked_same) simp_all

lemma logged_in_answers:
  assumes "run_state (logged_in h user password rememberMe) w = (a, w')"
  shows "fst a = 200 \<or> fst a = 500"
  using assms by (auto simp: logged_in_def reply_def Let_def split: prod.splits sum.splits)

lemma attempt_login_cases:
  assumes calm: "auth_calm w" and run: "run_state (attempt_login h ip email password rememberMe) w = (a, w')"
  obtains (refused) x where "fst a = 401" "run_state (RecordFailure (ah_loginLimiter h) ip) (auth_step 1 (aw_state w) w) = (x, w')"
    | (entered) "fst a = 200 \<or> fst a = 500"
proof -
  let ?w1 = "auth_step 1 (aw_state w) w"
  obtain found where found: "run_state (on_users (GetUserByEmail email)) w = (found, ?w1)" "found = Inl ErrNoRows \<or> (\<exists>u. found = Inr u)"
    using calm_users [OF calm, of "GetUserByEmail email"] by (cases "fst (GetUserByEmail email (aw_clock w (aw_step w)) (as_users (aw_state w)))")
      (auto simp: GetUserByEmail_def split: option.splits)
  have norows: "errors_Is (\<lambda>x. x = ErrNoRows \<or> x = DeadlineExceeded) ErrNoRows" by (simp add: ErrNoRows_def)
  consider "run_state (refuse_login h ip) ?w1 = (a, w')"
    | u w2 where "run_state (logged_in h u password rememberMe) w2 = (a, w')"
    using run found norows by (auto simp: attempt_login_def split: if_splits prod.splits)
  then show thesis
  proof cases
    case 1
    then show thesis by (auto simp: refuse_login_def reply_def split: prod.splits intro: refused)
  next
    case 2
    from entered [OF logged_in_answers [OF 2]] show thesis .
  qed
qed

lemma login_cases:
  assumes calm: "auth_calm w" and limiter: "ah_loginLimiter h = Some l" and run: "run_state (Login h r) w = (a, w')"
  obtains (same) "fst a \<noteq> 401" "aw_state w' = aw_state w"
    | (refused) x where "fst a = 401"
      "\<forall>mark. as_blocks (aw_state w) (blockKey (clientIP r)) = Some mark \<longrightarrow> \<not> block_live (aw_clock w (aw_step w)) mark"
      "run_state (RecordFailure (Some l) (clientIP r)) (auth_step 2 (aw_state w) w) = (x, w')"
    | (entered) "fst a = 200 \<or> fst a = 500"
proof -
  let ?w1 = "auth_step 1 (aw_state w) w"
  let ?locked = "case as_blocks (aw_state w) (blockKey (clientIP r)) of None \<Rightarrow> False | Some mark \<Rightarrow> block_live (aw_clock w (aw_step w)) mark"
  have locked: "run_state (IsLocked (Some l) (clientIP r)) w = (Inr ?locked, ?w1)" by (simp add: IsLocked_def calm_call [OF calm])
  have twice: "auth_step 1 (aw_state ?w1) ?w1 = auth_step 2 (aw_state w) w" by (simp add: auth_step_def)
  consider "fst a \<noteq> 401" "aw_state w' = aw_state w"
    | email password rememberMe where "\<not> ?locked" "run_state (attempt_login h (clientIP r) email password rememberMe) ?w1 = (a, w')"
    using run locked limiter
    by (auto simp: Login_def Let_def not_allowed_def reply_def auth_step_def split: if_splits option.splits)
  then show thesis
  proof cases
    case 1
    then show thesis by (rule same)
  next
    case 2
    then have open': "\<forall>mark. as_blocks (aw_state w) (blockKey (clientIP r)) = Some mark \<longrightarrow> \<not> block_live (aw_clock w (aw_step w)) mark"
      by (auto split: option.splits)
    from calm_step [OF calm] 2(2) show thesis
      by (rule attempt_login_cases) (use open' twice limiter in \<open>auto intro: refused entered\<close>)
  qed
qed

text \<open>What a failure does to the two keys, with the clocks of its commands.\<close>

lemma RecordFailure_keys:
  assumes calm: "auth_calm w" and run: "run_state (RecordFailure (Some l) ip) w = (x, w')"
    and incr: "redis_incr (aw_clock w (aw_step w)) (failKey ip) (as_fails (aw_state w)) = (n, cs)"
  shows "\<exists>i j. aw_step w < aw_step w' \<and> aw_step w < i \<and> aw_step w < j \<and> (n = 1 \<longrightarrow> i < aw_step w') \<and>
    (n \<ge> ll_maxFailures l \<longrightarrow>
       as_blocks (aw_state w') (blockKey ip) = Some (if ll_lockout l = 0 then None else Some (aw_clock w j + ll_lockout l)) \<and> j < aw_step w') \<and>
    (\<not> n \<ge> ll_maxFailures l \<longrightarrow> as_fails (aw_state w') (failKey ip) =
       (if n = 1 then redis_expire (aw_clock w i) (failKey ip) (ll_failureWindow l) cs else cs) (failKey ip))"
proof -
  have calm': "auth_calm (auth_step k st w)" for k st by (rule calm_step [OF calm])
  have steps: "auth_step k st (auth_step m st' w) = auth_step (m + k) st w" "aw_state (auth_step k st w) = st"
    "aw_clock (auth_step k st w) = aw_clock w" "aw_step (auth_step k st w) = aw_step w + k" for k m st st'
    by (simp_all add: auth_step_def)
  note run' = run [unfolded RecordFailure_def set_block_def del_fails_def option.case run_state_bind calm_call [OF calm] incr prod.case sum.case]
  show ?thesis
  proof (cases "n = 1")
    case True
    with run' show ?thesis
      by (intro exI [of _ "aw_step w + 1"] exI [of _ "aw_step w + 2"]) (auto simp: calm_call [OF calm'] steps Let_def split: if_splits)
  next
    case False
    with run' show ?thesis
      by (intro exI [of _ "aw_step w + 1"] exI [of _ "aw_step w + 1"]) (auto simp: calm_call [OF calm'] steps Let_def split: if_splits)
  qed
qed

lemma RecordFailure_counts:
  assumes calm: "auth_calm w" and run: "run_state (RecordFailure (Some l) ip) w = (x, w')"
    and finish: "finish = start + min (ll_failureWindow l) (ll_lockout l)" and clock: "clock_within start finish w w'"
    and count: "guess_count l finish ip g (aw_state w)" "0 \<le> g"
    and free: "\<forall>mark. as_blocks (aw_state w) (blockKey ip) = Some mark \<longrightarrow> \<not> (\<forall>now < finish. block_live now mark)"
    and l: "ll_maxFailures l \<ge> 1"
  shows "guess_count l finish ip (g + 1) (aw_state w')"
proof -
  let ?k = "failKey ip" and ?t = "aw_clock w (aw_step w)"
  obtain n cs where incr: "redis_incr ?t ?k (as_fails (aw_state w)) = (n, cs)" by (metis surj_pair)
  obtain i j where ij: "aw_step w < aw_step w'" "aw_step w < i" "aw_step w < j" "n = 1 \<longrightarrow> i < aw_step w'"
    and keys: "n \<ge> ll_maxFailures l \<longrightarrow>
       as_blocks (aw_state w') (blockKey ip) = Some (if ll_lockout l = 0 then None else Some (aw_clock w j + ll_lockout l)) \<and> j < aw_step w'"
      "\<not> n \<ge> ll_maxFailures l \<longrightarrow> as_fails (aw_state w') ?k =
       (if n = 1 then redis_expire (aw_clock w i) ?k (ll_failureWindow l) cs else cs) ?k"
    using RecordFailure_keys [OF calm run incr] by blast
  have within: "start \<le> aw_clock w m \<and> aw_clock w m < finish" if "aw_step w \<le> m" "m < aw_step w'" for m
    using clock that by (simp add: clock_within_def)
  have now: "?t < finish" using within [of "aw_step w"] ij(1) by simp
  have counted: "n = g + 1 \<and> (\<exists>c. cs ?k = Some c \<and> ctr_value c = g + 1 \<and> (n = 1 \<or> (\<forall>now < finish. live_counter now c)))"
    and most: "g + 1 \<le> ll_maxFailures l"
    using count free incr now l by (auto simp: guess_count_def redis_incr_def Let_def live_counter_def split: if_splits option.splits)
  then obtain c where c: "n = g + 1" "cs ?k = Some c" "ctr_value c = g + 1" "n = 1 \<or> (\<forall>now < finish. live_counter now c)" by blast
  show ?thesis
  proof (cases "n \<ge> ll_maxFailures l")
    case True
    have "start \<le> aw_clock w j" using within [of j] ij keys(1) True by simp
    then have "\<forall>now < finish. block_live now (if ll_lockout l = 0 then None else Some (aw_clock w j + ll_lockout l))"
      by (auto simp: block_live_def finish)
    with keys(1) True most show ?thesis by (auto simp: guess_count_def)
  next
    case False
    have "start \<le> aw_clock w i" if "n = 1" using within [of i] ij that by simp
    then have "\<exists>c'. as_fails (aw_state w') ?k = Some c' \<and> (\<forall>now < finish. live_counter now c') \<and> ctr_value c' = g + 1"
      using keys(2) False c by (auto simp: redis_expire_def live_counter_def finish)
    with False c(1) show ?thesis by (auto simp: guess_count_def)
  qed
qed

lemma calm_env: "auth_calm w \<Longrightarrow> auth_env_same w w' \<Longrightarrow> auth_calm w'"
  by (simp add: auth_calm_def auth_env_same_def auth_alone_def)

interpretation steps: auth_requests nothing_kept
  by unfold_locales (simp_all add: nothing_kept_def)

lemma Login_env: "run_state (Login h r) w = (a, w') \<Longrightarrow> auth_env_same w w'"
  using state_io_relD [OF steps.login_moves(1)] by (auto simp: auth_moves_def)

lemma auth_env_trans: "auth_env_same w w' \<Longrightarrow> auth_env_same w' w'' \<Longrightarrow> auth_env_same w w''"
  by (simp add: auth_env_same_def)

lemma run_logins_env: "run_state (run_logins h rs) w = (as, w') \<Longrightarrow> auth_env_same w w'"
proof (induction rs arbitrary: w as)
  case (Cons r rs)
  then obtain a w1 bs where "run_state (Login h r) w = (a, w1)" "run_state (run_logins h rs) w1 = (bs, w')"
    by (auto split: prod.splits)
  from auth_env_trans [OF Login_env [OF this(1)] Cons.IH [OF this(2)]] show ?case .
qed (simp add: auth_env_same_def)

lemma clock_within_split:
  assumes "clock_within start finish w w'" "auth_env_same w w1" "auth_env_same w1 w'"
  shows "clock_within start finish w w1" "clock_within start finish w1 w'"
  using assms by (auto simp: clock_within_def auth_env_same_def)

lemma login_counts:
  assumes calm: "auth_calm w" and limiter: "ah_loginLimiter h = Some l" "ll_maxFailures l \<ge> 1"
    and finish: "finish = start + min (ll_failureWindow l) (ll_lockout l)" and clock: "clock_within start finish w w'"
    and run: "run_state (Login h r) w = (a, w')" and failed: "clientIP r = ip \<longrightarrow> fst a \<noteq> 200 \<and> fst a \<noteq> 500"
    and count: "guess_count l finish ip g (aw_state w)" "0 \<le> g"
  shows "guess_count l finish ip (g + (if clientIP r = ip \<and> fst a = 401 then 1 else 0)) (aw_state w')"
proof (cases "clientIP r = ip")
  case False
  have "client_keys_same ip (aw_state w) (aw_state w')"
    by (rule alone_moves(1) [OF other_client_login [OF False] run _ client_keys.refl]) (use calm in \<open>simp add: auth_calm_def\<close>)
  with count False show ?thesis by (simp add: guess_count_def client_keys_same_def)
next
  case True
  from calm limiter(1) run show ?thesis
  proof (cases rule: login_cases)
    case same
    with count show ?thesis by simp
  next
    case (refused x)
    let ?w2 = "auth_step 2 (aw_state w) w"
    have env: "auth_env_same w ?w2" "auth_env_same ?w2 w'"
      using Login_env [OF run] state_io_relD [OF steps.limiter_moves(2) refused(3)]
      by (simp_all add: auth_env_same_def auth_step_def auth_moves_def)
    have "start \<le> aw_clock w (aw_step w)" "aw_clock w (aw_step w) < finish"
      using clock env by (auto simp: clock_within_def auth_env_same_def auth_step_def)
    then have "\<forall>mark. as_blocks (aw_state ?w2) (blockKey ip) = Some mark \<longrightarrow> \<not> (\<forall>now < finish. block_live now mark)"
      using refused(2) True by (auto simp: auth_step_def)
    with RecordFailure_counts [OF calm_step [OF calm] refused(3) finish clock_within_split(2) [OF clock env]] count limiter(2) True refused(1)
    show ?thesis by (simp add: auth_step_def)
  next
    case entered
    with failed True show ?thesis by simp
  qed
qed

lemma run_logins_count:
  assumes "auth_calm w" and limiter: "ah_loginLimiter h = Some l" "ll_maxFailures l \<ge> 1"
    and finish: "finish = start + min (ll_failureWindow l) (ll_lockout l)" and "clock_within start finish w w'"
    and "run_state (run_logins h rs) w = (as, w')"
    and "\<forall>(r, a) \<in> set (zip rs as). clientIP r = ip \<longrightarrow> fst a \<noteq> 200 \<and> fst a \<noteq> 500"
    and "guess_count l finish ip g (aw_state w)" "0 \<le> g"
  shows "guess_count l finish ip (g + int (guesses ip rs as)) (aw_state w')"
  using assms(1,5-)
proof (induction rs arbitrary: w as g)
  case Nil
  then show ?case by (simp add: guesses_def)
next
  case (Cons r rs)
  then obtain a w1 bs where 1: "run_state (Login h r) w = (a, w1)" and 2: "run_state (run_logins h rs) w1 = (bs, w')"
    and as: "as = a # bs" by (auto split: prod.splits)
  note env = Login_env [OF 1] run_logins_env [OF 2]
  note clock = clock_within_split [OF Cons.prems(2) env]
  let ?g = "g + (if clientIP r = ip \<and> fst a = 401 then 1 else 0)"
  have "guess_count l finish ip ?g (aw_state w1)"
    by (rule login_counts [OF Cons.prems(1) limiter finish clock(1) 1 _ Cons.prems(5,6)]) (use Cons.prems(4) as in simp)
  from Cons.IH [OF calm_env [OF Cons.prems(1) env(1)] clock(2) 2 _ this] Cons.prems(4,6) as
  show ?case by (cases "clientIP r = ip \<and> fst a = 401") (auto simp: guesses_def algebra_simps)
qed



end
