(* ===== verification/Access_Log.thy ===== *)
theory Access_Log
  imports Go_Base
begin

text \<open>
  The access log (\<open>src/internal/httpserver/logging.go\<close>): the writer it puts around that of \<open>net/http\<close>,
  and for which handlers the line it writes is true.
\<close>

section \<open>Definitions\<close>

text \<open>
  The response writer of \<open>net/http\<close>: the status that was sent, if any, and the body. The first
  final status counts, a later one is ignored, an informational one is not final; a body that comes
  first sends 200, and so does the end of a handler that wrote nothing. Of a body with a status that
  has none nothing is taken, of another as much as the connection takes.
\<close>

record response_writer =
  rw_status :: "int option"
  rw_body :: string

definition http_WriteHeader :: "int \<Rightarrow> response_writer \<Rightarrow> response_writer" where
  "http_WriteHeader code rw =
     (if rw_status rw \<noteq> None \<or> 100 \<le> code \<and> code \<le> 199 \<and> code \<noteq> 101 then rw else rw\<lparr>rw_status := Some code\<rparr>)"

definition body_allowed :: "int \<Rightarrow> bool" where
  "body_allowed code \<longleftrightarrow> code \<ge> 200 \<and> code \<noteq> 204 \<and> code \<noteq> 304"

definition http_Write :: "string \<Rightarrow> nat \<Rightarrow> response_writer \<Rightarrow> nat \<times> response_writer" where
  "http_Write p room rw =
     (let code = (case rw_status rw of None \<Rightarrow> 200 | Some c \<Rightarrow> c);
          n = (if body_allowed code then min room (length p) else 0)
      in (n, rw\<lparr>rw_status := Some code, rw_body := rw_body rw @ take n p\<rparr>))"

definition http_finish :: "response_writer \<Rightarrow> int \<times> string" where
  "http_finish rw = (case rw_status rw of None \<Rightarrow> 200 | Some c \<Rightarrow> c, rw_body rw)"

record statusWriter =
  sw_ResponseWriter :: response_writer
  sw_status :: int
  sw_bytes :: int

definition statusWriter_WriteHeader :: "int \<Rightarrow> statusWriter \<Rightarrow> statusWriter" where
  "statusWriter_WriteHeader code w = w\<lparr>sw_status := code, sw_ResponseWriter := http_WriteHeader code (sw_ResponseWriter w)\<rparr>"

definition statusWriter_Write :: "string \<Rightarrow> nat \<Rightarrow> statusWriter \<Rightarrow> statusWriter" where
  "statusWriter_Write p room w =
     (let w = (if sw_status w = 0 then w\<lparr>sw_status := 200\<rparr> else w)
      in case http_Write p room (sw_ResponseWriter w) of
           (n, rw) \<Rightarrow> w\<lparr>sw_ResponseWriter := rw, sw_bytes := sw_bytes w + int n\<rparr>)"

text \<open>What a handler does with its writer, and the request with its log: the response and the logged status and length.\<close>

datatype write_call =
    CallWriteHeader int
  | CallWrite string nat

fun handler_writes :: "write_call list \<Rightarrow> statusWriter \<Rightarrow> statusWriter" where
  "handler_writes [] w = w"
| "handler_writes (CallWriteHeader code # calls) w = handler_writes calls (statusWriter_WriteHeader code w)"
| "handler_writes (CallWrite p room # calls) w = handler_writes calls (statusWriter_Write p room w)"

definition withAccessLog :: "write_call list \<Rightarrow> (int \<times> string) \<times> int \<times> int" where
  "withAccessLog calls =
     (let sw = handler_writes calls \<lparr>sw_ResponseWriter = \<lparr>rw_status = None, rw_body = []\<rparr>, sw_status = 0, sw_bytes = 0\<rparr>
      in (http_finish (sw_ResponseWriter sw), sw_status sw, sw_bytes sw))"

text \<open>The statuses a handler sets.\<close>

fun set_statuses :: "write_call list \<Rightarrow> int list" where
  "set_statuses [] = []"
| "set_statuses (CallWriteHeader code # calls) = code # set_statuses calls"
| "set_statuses (CallWrite p room # calls) = set_statuses calls"

definition sent_status :: "write_call list \<Rightarrow> int" where
  "sent_status calls = (case calls of CallWriteHeader code # _ \<Rightarrow> code | _ \<Rightarrow> 200)"

definition final_codes :: "write_call list \<Rightarrow> bool" where
  "final_codes calls \<longleftrightarrow> (\<forall>code \<in> set (set_statuses calls). code \<ge> 200)"

section \<open>What the log says\<close>

lemma Write_effect:
  "rw_status (sw_ResponseWriter (statusWriter_Write p room w)) = Some (case rw_status (sw_ResponseWriter w) of None \<Rightarrow> 200 | Some c \<Rightarrow> c)"
  "sw_status (statusWriter_Write p room w) = (if sw_status w = 0 then 200 else sw_status w)"
  "sw_bytes (statusWriter_Write p room w) - int (length (rw_body (sw_ResponseWriter (statusWriter_Write p room w)))) =
     sw_bytes w - int (length (rw_body (sw_ResponseWriter w)))"
  by (simp_all add: statusWriter_Write_def http_Write_def Let_def)

lemma WriteHeader_effect:
  "rw_status (sw_ResponseWriter w) = Some c \<Longrightarrow> rw_status (sw_ResponseWriter (statusWriter_WriteHeader code w)) = Some c"
  "sw_status (statusWriter_WriteHeader code w) = code" "sw_bytes (statusWriter_WriteHeader code w) = sw_bytes w"
  "rw_body (sw_ResponseWriter (statusWriter_WriteHeader code w)) = rw_body (sw_ResponseWriter w)"
  by (simp_all add: statusWriter_WriteHeader_def http_WriteHeader_def)

lemmas write_effects = Write_effect WriteHeader_effect

lemma writes_status:
  assumes "rw_status (sw_ResponseWriter w) = Some c"
  shows "rw_status (sw_ResponseWriter (handler_writes calls w)) = Some c"
  using assms by (induction calls w rule: handler_writes.induct) (simp_all add: write_effects)

lemma writes_logged:
  assumes "sw_status w \<noteq> 0" and "final_codes calls"
  shows "sw_status (handler_writes calls w) = last (sw_status w # set_statuses calls)"
  using assms by (induction calls w rule: handler_writes.induct) (simp_all add: write_effects final_codes_def)

lemma writes_length:
  "sw_bytes (handler_writes calls w) - int (length (rw_body (sw_ResponseWriter (handler_writes calls w)))) =
     sw_bytes w - int (length (rw_body (sw_ResponseWriter w)))"
  by (induction calls w rule: handler_writes.induct) (simp_all add: write_effects)

text \<open>
  The access log has the length of the body of every response. It has the status that was sent
  exactly for the handlers that write something and whose last status, if they set one, is that of
  their first call: a handler that writes nothing is logged with status 0 though 200 is sent, and one
  that sets a status after the response has begun is logged with the status nobody got.
\<close>

lemma access_log_right:
  assumes "final_codes calls"
  shows "withAccessLog calls = ((c, body), logged, bytes) \<Longrightarrow>
    c = sent_status calls \<and> bytes = int (length body) \<and>
    (logged = c \<longleftrightarrow> calls \<noteq> [] \<and> last (sent_status calls # set_statuses calls) = sent_status calls)"
proof -
  let ?new = "\<lparr>sw_ResponseWriter = \<lparr>rw_status = None, rw_body = []\<rparr>, sw_status = 0, sw_bytes = 0\<rparr> :: statusWriter"
  assume log: "withAccessLog calls = ((c, body), logged, bytes)"
  have bytes: "bytes = int (length body)"
    using writes_length [of calls ?new] log by (auto simp: withAccessLog_def http_finish_def Let_def)
  show ?thesis
  proof (cases calls)
    case Nil
    with log bytes show ?thesis by (auto simp: withAccessLog_def http_finish_def sent_status_def)
  next
    case (Cons call rest)
    define w where "w = handler_writes [call] ?new"
    have w: "rw_status (sw_ResponseWriter w) = Some (sent_status calls)" "sw_status w = sent_status calls" "sent_status calls \<noteq> 0"
      using assms by (cases call; simp add: w_def Cons sent_status_def statusWriter_WriteHeader_def http_WriteHeader_def statusWriter_Write_def
          http_Write_def final_codes_def Let_def)+
    have run: "handler_writes calls ?new = handler_writes rest w" by (cases call) (simp_all add: w_def Cons)
    have final: "final_codes rest" using assms by (cases call) (simp_all add: Cons final_codes_def)
    have c: "c = sent_status calls" using log writes_status [OF w(1), of rest] by (simp add: withAccessLog_def http_finish_def run Let_def)
    have "logged = last (sent_status calls # set_statuses rest)"
      using log writes_logged [OF _ final, of w] w(2,3) by (simp add: withAccessLog_def run Let_def)
    moreover have "last (sent_status calls # set_statuses calls) = last (sent_status calls # set_statuses rest)"
      by (cases call) (simp_all add: Cons sent_status_def)
    ultimately show ?thesis using bytes c Cons by simp
  qed
qed

text \<open>A page whose template fails after the status was sent, answered with \<open>http.Error\<close>, and a handler that writes nothing.\<close>

lemma access_log_wrong:
  "withAccessLog [CallWriteHeader 200, CallWriteHeader 500, CallWrite ''x'' 10] = ((200, ''x''), 500, 1)"
  "withAccessLog [] = ((200, []), 0, 0)"
  by code_simp+

end
