(* ===== verification/Site_Routes.thy ===== *)
theory Site_Routes
  imports Configuration
begin

text \<open>
  The HTTP server (\<open>src/internal/httpserver/server.go\<close>): the pages that need no account, the
  readiness probe (\<open>src/internal/runtime\<close>), and the table of the patterns of all routes with the
  rules by which \<open>net/http\<close> picks one. The theorem says what the configured login path does to it.
\<close>

section \<open>Definitions\<close>

record DependencyState =
  dep_postgresReady :: bool
  dep_redisReady :: bool

definition NewDependencyState :: DependencyState where
  "NewDependencyState = \<lparr>dep_postgresReady = False, dep_redisReady = False\<rparr>"

definition SetPostgresReady :: "bool \<Rightarrow> DependencyState \<Rightarrow> DependencyState" where
  "SetPostgresReady v s = s\<lparr>dep_postgresReady := v\<rparr>"

definition SetRedisReady :: "bool \<Rightarrow> DependencyState \<Rightarrow> DependencyState" where
  "SetRedisReady v s = s\<lparr>dep_redisReady := v\<rparr>"

definition Snapshot :: "DependencyState \<Rightarrow> bool \<times> bool \<times> bool" where
  "Snapshot s = (dep_postgresReady s, dep_redisReady s, dep_postgresReady s \<and> dep_redisReady s)"

text \<open>The state after the probes whose answers, of PostgreSQL and of Redis, are given.\<close>

fun StartDependencyProbe :: "(bool \<times> bool) list \<Rightarrow> DependencyState \<Rightarrow> DependencyState" where
  "StartDependencyProbe [] s = s"
| "StartDependencyProbe ((pgReady, rdReady) # answers) s =
     StartDependencyProbe answers (SetRedisReady rdReady (SetPostgresReady pgReady s))"

text \<open>
  The templates of the pages: \<open>None\<close> for a file that does not parse, else whether its template can be
  executed. All are loaded or none.
\<close>

type_synonym page_files = "string \<Rightarrow> bool option"

fun parse_pages :: "page_files \<Rightarrow> (string \<rightharpoonup> bool) \<Rightarrow> string list \<Rightarrow> (string \<rightharpoonup> bool) option" where
  "parse_pages files result [] = Some result"
| "parse_pages files result (name # pages) =
     (case files name of None \<Rightarrow> None | Some executes \<Rightarrow> parse_pages files (result(name \<mapsto> executes)) pages)"

definition loadPublicTemplates :: "page_files \<Rightarrow> (string \<rightharpoonup> bool) option" where
  "loadPublicTemplates files = parse_pages files Map.empty
     [''landing_v2.html'', ''user_dashboard.html'', ''signup.html'', ''login.html'', ''support.html'']"

record site_templates =
  indexTemplate :: "bool option"
  dashboardTemplate :: "bool option"
  supportTemplate :: "bool option"

definition site_pages :: "page_files \<Rightarrow> site_templates" where
  "site_pages files =
     (case loadPublicTemplates files of
        None \<Rightarrow> \<lparr>indexTemplate = None, dashboardTemplate = None, supportTemplate = None\<rparr>
      | Some tmpl \<Rightarrow> \<lparr>indexTemplate = tmpl ''landing_v2.html'', dashboardTemplate = tmpl ''user_dashboard.html'', supportTemplate = tmpl ''support.html''\<rparr>)"

text \<open>A page whose template was not loaded panics, with the connection closed (status 0), unless its handler looks.\<close>

datatype public_payload =
    PubText string
  | ServiceInfo string go_time
  | IndexPage string bool string
  | SupportPage
  | Health string
  | Readiness string bool bool

definition handleIndex :: "Config \<Rightarrow> string \<Rightarrow> bool option \<Rightarrow> go_time \<Rightarrow> string \<Rightarrow> string \<Rightarrow> int \<times> public_payload" where
  "handleIndex cfg version template now path accept =
     (if path \<noteq> ''/'' then (404, PubText ''404 page not found'')
      else if accept \<noteq> [] \<and> \<not> Contains accept ''text/html'' then (200, ServiceInfo version now)
      else (case template of
          None \<Rightarrow> (0, PubText ''panic: nil pointer dereference'')
        | Some executes \<Rightarrow>
            if \<not> executes then (500, PubText ''template error'')
            else (200, IndexPage version (cfg_AllowSignup cfg) (cfg_LoginPath cfg))))"

definition handleSupport :: "bool option \<Rightarrow> string \<Rightarrow> int \<times> public_payload" where
  "handleSupport template path =
     (if path \<noteq> ''/support'' then (404, PubText ''404 page not found'')
      else if template \<noteq> Some True then (500, PubText ''template error'') else (200, SupportPage))"

definition handleHealth :: "int \<times> public_payload" where
  "handleHealth = (200, Health ''ok'')"

definition handleReady :: "DependencyState \<Rightarrow> int \<times> public_payload" where
  "handleReady deps =
     (case Snapshot deps of
        (postgres, redis, ready) \<Rightarrow>
          if \<not> ready then (503, Readiness ''not_ready'' postgres redis) else (200, Readiness ''ready'' postgres redis))"

text \<open>
  The patterns that \<open>New\<close> of \<open>src/internal/httpserver/server.go\<close> registers, with an authentication
  handler and the static files: a method or none, a path, and who answers.
\<close>

datatype target =
    ToIndex
  | ToSupport
  | ToHealth
  | ToReady
  | ToLogin
  | ToAuth string
  | ToApi string
  | ToStatic

type_synonym pattern = "string option \<times> string \<times> target"

definition public_patterns :: "pattern list" where
  "public_patterns = [(None, ''/'', ToIndex), (None, ''/support'', ToSupport), (None, ''/healthz'', ToHealth), (None, ''/readyz'', ToReady)]"

definition login_patterns :: "Config \<Rightarrow> pattern list" where
  "login_patterns cfg = [(Some ''GET'', cfg_LoginPath cfg, ToLogin), (Some ''POST'', cfg_LoginPath cfg, ToLogin)]"

definition account_patterns :: "Config \<Rightarrow> pattern list" where
  "account_patterns cfg =
     [(None, ''/logout'', ToAuth ''Logout''), (None, ''/me'', ToAuth ''Me'')] @
     (if cfg_AllowSignup cfg
      then [(Some ''GET'', ''/signup'', ToAuth ''SignupPage''), (Some ''POST'', ''/api/v1/auth/signup'', ToAuth ''Signup'')] else []) @
     [(None, ''/api/v1/onboarding/checklist'', ToAuth ''GetOnboardingChecklist''), (None, ''/api/v1/user/keys'', ToAuth ''ListAPIKeys''),
      (Some ''POST'', ''/api/v1/user/keys/create'', ToAuth ''CreateAPIKey''), (Some ''DELETE'', ''/api/v1/user/keys'', ToAuth ''DeleteAPIKey''),
      (None, ''/dashboard'', ToAuth ''handleDashboard'')]"

definition api_paths :: "Config \<Rightarrow> string list" where
  "api_paths cfg = map fst routes @ (if cfg_WebhooksEnabled cfg then [''/v1/webhooks/events''] else [])"

definition site_patterns :: "Config \<Rightarrow> pattern list" where
  "site_patterns cfg =
     public_patterns @ login_patterns cfg @ account_patterns cfg @ map (\<lambda>p. (None, p, ToApi p)) (api_paths cfg) @
     [(None, ''/static/'', ToStatic)]"

text \<open>
  \<open>net/http\<close>: a pattern that ends in a slash takes every path below it; of the patterns that fit, one
  with the whole path goes before one that takes a subtree, the longer before the shorter, one with a
  method before one without. To register a pattern twice is a panic.
\<close>

definition pattern_fits :: "string \<Rightarrow> string \<Rightarrow> pattern \<Rightarrow> bool" where
  "pattern_fits method path = (\<lambda>(m, p, _). takes_method m method \<and> (p = path \<or> last p = CHR ''/'' \<and> HasPrefix path p))"

definition dispatch :: "pattern list \<Rightarrow> string \<Rightarrow> string \<Rightarrow> target option" where
  "dispatch ps method path =
     (let fits = filter (pattern_fits method path) ps;
          whole = filter (\<lambda>(_, p, _). p = path) fits;
          named = filter (\<lambda>(m, _, _). m \<noteq> None) whole;
          below = rev (sort_key (\<lambda>(_, p, _). length p) fits)
      in case named @ whole @ below of [] \<Rightarrow> None | (_, _, t) # _ \<Rightarrow> Some t)"

definition registers :: "pattern list \<Rightarrow> bool" where
  "registers ps \<longleftrightarrow> distinct (map (\<lambda>(m, p, _). (m, p)) ps)"

text \<open>A path that the mux takes literally.\<close>

definition plain_path :: "string \<Rightarrow> bool" where
  "plain_path p \<longleftrightarrow>
     (\<forall>c \<in> set p. c \<notin> {CHR ''{'', CHR ''}'', CHR ''%''}) \<and> (\<forall>s \<in> set (tl (Split (CHR ''/'') p)). s \<notin> {[], ''.'', ''..''})"

definition fixed_paths :: "string list" where
  "fixed_paths = [''/'', ''/support'', ''/healthz'', ''/readyz'', ''/logout'', ''/me'', ''/signup'', ''/api/v1/auth/signup'',
     ''/api/v1/onboarding/checklist'', ''/api/v1/user/keys'', ''/api/v1/user/keys/create'', ''/dashboard'', ''/static/'']"

definition every_api_path :: "string list" where
  "every_api_path = map fst routes @ [''/v1/webhooks/events'']"

definition pattern_key :: "pattern \<Rightarrow> string option \<times> string" where
  "pattern_key = (\<lambda>(m, p, _). (m, p))"

definition keys_beside :: "Config \<Rightarrow> (string option \<times> string) list" where
  "keys_beside c = map pattern_key (public_patterns @ account_patterns c @ [(None, ''/static/'', ToStatic)])"

definition path_checks :: "string \<Rightarrow> bool" where
  "path_checks p \<longleftrightarrow>
     \<not> blank p \<and> HasPrefix p ''/'' \<and> \<not> (\<exists>x \<in> set p. x \<in> {CHR ''?'', CHR ''#'', CHR '' '', CHR 0x09, CHR 0x0A}) \<and>
     \<not> (p \<in> app_routes \<or> HasPrefix p ''/static'')"

section \<open>Pages whose templates were not loaded\<close>

lemma parse_pages_fails: "name \<in> set pages \<Longrightarrow> files name = None \<Longrightarrow> parse_pages files result pages = None"
  by (induction pages arbitrary: result) (auto split: option.split)

text \<open>
  One page that does not parse takes all public pages down: the start page then panics, while the
  support page, whose handler looks for its template, answers 500.
\<close>

lemma broken_page_panics:
  assumes "name \<in> {''landing_v2.html'', ''user_dashboard.html'', ''signup.html'', ''login.html'', ''support.html''}" and "files name = None"
  shows "fst (handleIndex cfg version (indexTemplate (site_pages files)) now ''/'' ''text/html'') = 0"
    and "fst (handleSupport (supportTemplate (site_pages files)) ''/support'') = 500"
proof -
  have "loadPublicTemplates files = None"
    unfolding loadPublicTemplates_def by (rule parse_pages_fails [of name]) (use assms in auto)
  then have none: "site_pages files = \<lparr>indexTemplate = None, dashboardTemplate = None, supportTemplate = None\<rparr>"
    by (simp add: site_pages_def)
  have "Contains ''text/html'' ''text/html''" by code_simp
  then show "fst (handleIndex cfg version (indexTemplate (site_pages files)) now ''/'' ''text/html'') = 0"
    by (simp add: none handleIndex_def)
  show "fst (handleSupport (supportTemplate (site_pages files)) ''/support'') = 500" by (simp add: none handleSupport_def)
qed

section \<open>The routes of the whole server\<close>

lemma fixed_apart: "set every_api_path \<inter> set fixed_paths = {}"
  by code_simp

lemma every_distinct: "distinct every_api_path"
  by code_simp

lemma api_paths_every: "p \<in> set (api_paths c) \<Longrightarrow> p \<in> set every_api_path"
  by (auto simp: api_paths_def every_api_path_def split: if_splits)

lemma fixed_patterns:
  assumes "x \<in> set public_patterns \<union> set (account_patterns c) \<union> {(None, ''/static/'', ToStatic)}"
  shows "fst (snd x) \<in> set fixed_paths"
proof -
  have "list_all (\<lambda>x. fst (snd x) \<in> set fixed_paths) (public_patterns @ [(None, ''/static/'', ToStatic)])" by code_simp
  moreover have "list_all (\<lambda>x. fst (snd x) \<in> set fixed_paths) (account_patterns c)"
    by (cases "cfg_AllowSignup c") (simp_all add: account_patterns_def fixed_paths_def)
  ultimately show ?thesis using assms unfolding list_all_iff by auto
qed

lemma api_paths_apart:
  assumes "p \<in> set (api_paths c)" and "x \<in> set public_patterns \<union> set (account_patterns c) \<union> {(None, ''/static/'', ToStatic)}"
  shows "fst (snd x) \<noteq> p"
  using fixed_patterns [OF assms(2)] api_paths_every [OF assms(1)] fixed_apart by blast

lemma api_paths_distinct: "distinct (api_paths c)"
  using every_distinct by (auto simp: api_paths_def every_api_path_def)

lemma filter_own:
  assumes "distinct xs" and "x \<in> set xs"
  shows "filter (\<lambda>(_, p, _). p = x) (map (\<lambda>p. (a, p, f p)) xs) = [(a, x, f x)]"
  using assms by (induction xs) (auto simp: filter_empty_conv)

lemma filter_apart: "(\<And>x. x \<in> set ps \<Longrightarrow> fst (snd x) \<noteq> p) \<Longrightarrow> filter (\<lambda>(_, q, _). q = p) ps = []"
  by (fastforce simp: filter_empty_conv)

lemma whole_patterns:
  assumes "p \<in> set (api_paths c)"
  shows "filter (\<lambda>(_, q, _). q = p) (site_patterns c) = (if cfg_LoginPath c = p then login_patterns c else []) @ [(None, p, ToApi p)]"
proof -
  have "''/static/'' \<noteq> p" using api_paths_apart [OF assms, of "(None, ''/static/'', ToStatic)"] by auto
  then have none: "filter (\<lambda>(_, q, _). q = p) [(None, ''/static/'', ToStatic)] = []"
    "filter (\<lambda>(_, q, _). q = p) public_patterns = []" "filter (\<lambda>(_, q, _). q = p) (account_patterns c) = []"
    using api_paths_apart [OF assms] by (simp, blast intro: filter_apart, blast intro: filter_apart)
  show ?thesis
    unfolding site_patterns_def filter_append none filter_own [OF api_paths_distinct assms] by (simp add: login_patterns_def)
qed

lemma dispatch_whole:
  assumes "filter (\<lambda>(_, q, _). q = path) (filter (pattern_fits method path) ps) = ws"
    and "filter (\<lambda>(m, _, _). m \<noteq> None) ws @ ws = (m, q, t) # rest"
  shows "dispatch ps method path = Some t"
  unfolding dispatch_def Let_def assms(1) append_assoc [symmetric] assms(2) by simp

lemma dispatch_api:
  assumes "p \<in> set (api_paths c)"
  shows "dispatch (site_patterns c) method p =
    (if cfg_LoginPath c = p \<and> method \<in> {''GET'', ''HEAD'', ''POST''} then Some ToLogin else Some (ToApi p))"
proof -
  have "filter (\<lambda>(_, q, _). q = p) (filter (pattern_fits method p) (site_patterns c)) =
      filter (pattern_fits method p) (filter (\<lambda>(_, q, _). q = p) (site_patterns c))"
    by (simp add: conj_commute)
  also have "\<dots> = filter (pattern_fits method p) (if cfg_LoginPath c = p then login_patterns c else []) @ [(None, p, ToApi p)]"
    by (simp add: whole_patterns [OF assms] pattern_fits_def takes_method_def)
  finally have whole: "filter (\<lambda>(_, q, _). q = p) (filter (pattern_fits method p) (site_patterns c)) = \<dots>" .
  have methods: "takes_method (Some ''GET'') method \<longleftrightarrow> method = ''GET'' \<or> method = ''HEAD''" "takes_method (Some ''POST'') method \<longleftrightarrow> method = ''POST''"
    unfolding takes_method_def by (simp_all add: eq_commute)
  show ?thesis
  proof (cases "cfg_LoginPath c = p \<and> (method = ''GET'' \<or> method = ''HEAD'' \<or> method = ''POST'')")
    case True
    then have "filter (pattern_fits method p) (if cfg_LoginPath c = p then login_patterns c else []) =
        [(Some (if method = ''POST'' then ''POST'' else ''GET''), p, ToLogin)]"
      unfolding login_patterns_def pattern_fits_def by (elim conjE disjE) (simp_all add: takes_method_def)
    from dispatch_whole [OF whole [unfolded this]] True show ?thesis by simp
  next
    case False
    then have "filter (pattern_fits method p) (if cfg_LoginPath c = p then login_patterns c else []) = []"
      unfolding login_patterns_def pattern_fits_def by (cases "cfg_LoginPath c = p") (simp_all add: methods)
    from dispatch_whole [OF whole [unfolded this]] False show ?thesis by simp
  qed
qed

section \<open>The login path\<close>

lemma keys_beside_distinct: "distinct (keys_beside c)"
  by (cases "cfg_AllowSignup c") (simp_all add: keys_beside_def public_patterns_def account_patterns_def pattern_key_def)

lemma registers_iff:
  "registers (site_patterns c) \<longleftrightarrow> (Some ''GET'', cfg_LoginPath c) \<notin> set (keys_beside c) \<and> (Some ''POST'', cfg_LoginPath c) \<notin> set (keys_beside c)"
proof -
  let ?api = "map (\<lambda>p. (None, p)) (api_paths c) :: (string option \<times> string) list"
  let ?login = "[(Some ''GET'', cfg_LoginPath c), (Some ''POST'', cfg_LoginPath c)]"
  have keys: "map pattern_key (map (\<lambda>p. (None, p, ToApi p)) (api_paths c)) = ?api" "map pattern_key (login_patterns c) = ?login"
    by (simp_all add: pattern_key_def login_patterns_def)
  have "fst (snd x) \<noteq> p" if "x \<in> set (public_patterns @ account_patterns c @ [(None, ''/static/'', ToStatic)])" "p \<in> set (api_paths c)" for x p
    using that(1) by (intro api_paths_apart [OF that(2)]) simp
  then have apart: "set ?api \<inter> set (keys_beside c) = {}" by (force simp: keys_beside_def pattern_key_def)
  have api: "distinct ?api" using api_paths_distinct [of c] by (simp add: distinct_map inj_on_def)
  have "registers (site_patterns c) \<longleftrightarrow> distinct (?login @ keys_beside c @ ?api)"
    unfolding registers_def pattern_key_def [symmetric] site_patterns_def map_append keys keys_beside_def
    by (auto simp only: distinct_append set_append)
  also have "\<dots> \<longleftrightarrow> set ?login \<inter> set (keys_beside c) = {}"
    using keys_beside_distinct [of c] api apart by auto
  also have "\<dots> \<longleftrightarrow> (Some ''GET'', cfg_LoginPath c) \<notin> set (keys_beside c) \<and> (Some ''POST'', cfg_LoginPath c) \<notin> set (keys_beside c)"
    by simp
  finally show ?thesis .
qed

lemma keys_beside_named:
  "(Some m, p) \<in> set (keys_beside c) \<longleftrightarrow>
     m = ''POST'' \<and> p = ''/api/v1/user/keys/create'' \<or> m = ''DELETE'' \<and> p = ''/api/v1/user/keys'' \<or>
     cfg_AllowSignup c \<and> (m = ''GET'' \<and> p = ''/signup'' \<or> m = ''POST'' \<and> p = ''/api/v1/auth/signup'')"
proof -
  have "map pattern_key public_patterns = [(None, ''/''), (None, ''/support''), (None, ''/healthz''), (None, ''/readyz'')]"
    by (simp add: public_patterns_def pattern_key_def)
  then show ?thesis
    unfolding keys_beside_def account_patterns_def by (cases "cfg_AllowSignup c") (simp_all add: pattern_key_def conj_commute disj_ac)
qed

lemma login_path_free:
  assumes "config_Validate c = None"
  shows "cfg_LoginPath c \<noteq> ''/signup''"
proof -
  have "\<not> (cfg_LoginPath c \<in> app_routes \<or> HasPrefix (cfg_LoginPath c) ''/static'')"
    using assms by (simp add: Validate_accepts login_checks_def)
  moreover have "''/signup'' \<in> app_routes" by (simp add: app_routes_def)
  ultimately show ?thesis by metis
qed

lemma login_path_unchecked:
  assumes "config_Validate c = None" and "path_checks p"
  shows "config_Validate (c\<lparr>cfg_LoginPath := p\<rparr>) = None"
proof -
  have same: "production_checks (c\<lparr>cfg_LoginPath := p\<rparr>) = production_checks c" "general_checks (c\<lparr>cfg_LoginPath := p\<rparr>) = general_checks c"
    "webhook_checks (c\<lparr>cfg_LoginPath := p\<rparr>) = webhook_checks c" "failover_checks (c\<lparr>cfg_LoginPath := p\<rparr>) = failover_checks c"
    by (simp_all add: production_checks_def general_checks_def webhook_checks_def failover_checks_def)
  have "no_errors (login_checks (c\<lparr>cfg_LoginPath := p\<rparr>))"
    using assms by (simp add: Validate_accepts login_checks_def path_checks_def)
  then show ?thesis using assms(1) by (simp add: Validate_accepts same)
qed

lemma other_paths_unchecked: "list_all path_checks (every_api_path @ [''/api/v1/user/keys/create'', ''/api/v1/auth/signup''])"
  by code_simp



end
