(* ===== verification/Migrations.thy ===== *)
theory Migrations
  imports Redis_Queue
begin

text \<open>
  The migrations (\<open>src/internal/migrate/migrate.go\<close>). A schema is the list of recorded names and the
  list of committed scripts; what PostgreSQL answers to a script is a parameter, and each call has its
  fate. The theorem says that an upgrade that fails anywhere is finished by the next one.
\<close>

section \<open>Definitions\<close>

text \<open>
  The embedded files, name and text, a directory without one. The database answers a script according
  to the scripts it has executed before; each call has its fate.
\<close>

datatype migration_call =
    EnsureTable
  | ReadDir
  | IsApplied string
  | ReadFile string
  | BeginTx string
  | ExecScript string
  | InsertName string
  | Commit string

record migrator =
  mig_files :: "(string \<times> string option) list"
  mig_execute :: "string list \<Rightarrow> string \<Rightarrow> go_error option"
  mig_fault :: "migration_call \<Rightarrow> fault"

text \<open>The table \<open>schema_migrations\<close> and the scripts whose transactions are committed.\<close>

record schema =
  schema_migrations :: "string list"
  schema_scripts :: "string list"

definition HasSuffix :: "string \<Rightarrow> string \<Rightarrow> bool" where
  "HasSuffix s p \<longleftrightarrow> HasPrefix (rev s) (rev p)"

definition call_error :: "fault \<Rightarrow> go_error option" where
  "call_error f = (case f of Executed \<Rightarrow> None | Refused e \<Rightarrow> Some e | Unacknowledged e \<Rightarrow> Some e)"

definition ensureMigrationsTable :: "migrator \<Rightarrow> go_error option" where
  "ensureMigrationsTable g = call_error (mig_fault g EnsureTable)"

definition isApplied :: "migrator \<Rightarrow> schema \<Rightarrow> string \<Rightarrow> bool result" where
  "isApplied g s name =
     (case call_error (mig_fault g (IsApplied name)) of Some e \<Rightarrow> Inl e | None \<Rightarrow> Inr (name \<in> set (schema_migrations s)))"

definition migration_names :: "migrator \<Rightarrow> string list" where
  "migration_names g = sort (filter (\<lambda>n. HasSuffix n ''.up.sql'') (map fst (filter (\<lambda>f. snd f \<noteq> None) (mig_files g))))"

definition migration_text :: "migrator \<Rightarrow> string \<Rightarrow> string" where
  "migration_text g name = (case map_of (mig_files g) name of Some (Some raw) \<Rightarrow> raw | _ \<Rightarrow> [])"

text \<open>
  The body of the loop for one name. What runs in a transaction that is rolled back has no effect;
  a commit whose answer is lost has its effect and still is an error.
\<close>

definition apply_migration :: "migrator \<Rightarrow> string \<Rightarrow> schema \<Rightarrow> go_error option \<times> schema" where
  "apply_migration g name s =
     (case isApplied g s name of
        Inl e \<Rightarrow> (Some e, s)
      | Inr True \<Rightarrow> (None, s)
      | Inr False \<Rightarrow>
     case call_error (mig_fault g (ReadFile name)) of Some e \<Rightarrow> (Some e, s) | None \<Rightarrow>
     let raw = migration_text g name;
         s' = s\<lparr>schema_migrations := schema_migrations s @ [name], schema_scripts := schema_scripts s @ [raw]\<rparr> in
     case call_error (mig_fault g (BeginTx name)) of Some e \<Rightarrow> (Some e, s) | None \<Rightarrow>
     case (case mig_execute g (schema_scripts s) raw of Some e \<Rightarrow> Some e | None \<Rightarrow> call_error (mig_fault g (ExecScript name))) of
       Some e \<Rightarrow> (Some (ErrText (''apply migration '' @ name)), s)
     | None \<Rightarrow>
     case (if name \<in> set (schema_migrations s) then Some (ErrConstraint ''schema_migrations_pkey'') else call_error (mig_fault g (InsertName name))) of
       Some e \<Rightarrow> (Some (ErrText (''record migration '' @ name)), s)
     | None \<Rightarrow>
     case mig_fault g (Commit name) of
       Executed \<Rightarrow> (None, s')
     | Refused e \<Rightarrow> (Some e, s)
     | Unacknowledged e \<Rightarrow> (Some e, s'))"

fun apply_migrations :: "migrator \<Rightarrow> string list \<Rightarrow> schema \<Rightarrow> go_error option \<times> schema" where
  "apply_migrations g [] s = (None, s)"
| "apply_migrations g (name # names) s =
     (case apply_migration g name s of
        (Some e, s') \<Rightarrow> (Some e, s')
      | (None, s') \<Rightarrow> apply_migrations g names s')"

definition Up :: "migrator \<Rightarrow> schema \<Rightarrow> go_error option \<times> schema" where
  "Up g s =
     (case ensureMigrationsTable g of Some e \<Rightarrow> (Some e, s) | None \<Rightarrow>
      case call_error (mig_fault g ReadDir) of Some e \<Rightarrow> (Some e, s) | None \<Rightarrow> apply_migrations g (migration_names g) s)"

text \<open>The migrations that are due, and a schema after some of them.\<close>

definition due :: "string list \<Rightarrow> schema \<Rightarrow> string list" where
  "due names s = filter (\<lambda>n. n \<notin> set (schema_migrations s)) names"

definition upgraded :: "migrator \<Rightarrow> string list \<Rightarrow> schema \<Rightarrow> schema" where
  "upgraded g ns s = s\<lparr>schema_migrations := schema_migrations s @ ns, schema_scripts := schema_scripts s @ map (migration_text g) ns\<rparr>"

definition demo_migrator :: migrator where
  "demo_migrator =
     \<lparr>mig_files = [(''2.up.sql'', Some ''B''), (''1.up.sql'', Some ''A''), (''2.down.sql'', Some ''C'')],
      mig_execute = (\<lambda>_ _. None),
      mig_fault = (\<lambda>c. if c = Commit ''2.up.sql'' then Refused (ErrDriver ''connection lost'') else Executed)\<rparr>"

lemma upgraded_Nil [simp]: "upgraded g [] s = s"
  by (simp add: upgraded_def)

lemma upgraded_Cons: "upgraded g (n # ns) s = upgraded g ns (upgraded g [n] s)"
  by (simp add: upgraded_def)

lemma upgraded_recorded [simp]: "schema_migrations (upgraded g ns s) = schema_migrations s @ ns"
  by (simp add: upgraded_def)

lemma due_Cons: "due (n # ns) s = (if n \<in> set (schema_migrations s) then due ns s else n # due ns s)"
  by (simp add: due_def)

lemma due_upgraded: "n \<notin> set ns \<Longrightarrow> due ns (upgraded g [n] s) = due ns s"
  by (auto simp: due_def intro: filter_cong)

lemma applied_kept: "n \<in> set (schema_migrations s) \<Longrightarrow> snd (apply_migration g n s) = s"
  by (simp add: apply_migration_def isApplied_def split: option.splits)

lemma applied_skipped:
  "n \<in> set (schema_migrations s) \<Longrightarrow> apply_migration g n s = (call_error (mig_fault g (IsApplied n)), s)"
  by (simp add: apply_migration_def isApplied_def split: option.splits)

lemma apply_migration_cases:
  assumes "n \<notin> set (schema_migrations s)"
  obtains e where "apply_migration g n s = (Some e, s)" | e where "apply_migration g n s = (e, upgraded g [n] s)"
proof -
  have "snd (apply_migration g n s) = s \<and> fst (apply_migration g n s) \<noteq> None \<or> snd (apply_migration g n s) = upgraded g [n] s"
    using assms by (auto simp: apply_migration_def isApplied_def upgraded_def Let_def split: option.splits fault.splits)
  with that show ?thesis by (metis not_None_eq prod.collapse)
qed

lemma apply_migration_heard:
  assumes "apply_migration g n s = (None, s')"
  shows "call_error (mig_fault g (IsApplied n)) = None"
  using assms by (cases "call_error (mig_fault g (IsApplied n))") (simp_all add: apply_migration_def isApplied_def)

lemma apply_migrations_prefix:
  assumes "distinct names" and "apply_migrations g names s = (err, s')"
  shows "\<exists>k. s' = upgraded g (take k (due names s)) s \<and> (err = None \<longrightarrow> length (due names s) \<le> k)"
  using assms
proof (induction names arbitrary: s)
  case Nil
  then show ?case by (auto simp: due_def intro: exI [of _ 0])
next
  case (Cons n names)
  show ?case
  proof (cases "n \<in> set (schema_migrations s)")
    case True
    then have step: "apply_migration g n s = (call_error (mig_fault g (IsApplied n)), s)" by (rule applied_skipped)
    show ?thesis
    proof (cases "call_error (mig_fault g (IsApplied n))")
      case None
      with Cons step True show ?thesis by (simp add: due_Cons)
    next
      case (Some e)
      with Cons.prems(2) step show ?thesis by (intro exI [of _ 0]) auto
    qed
  next
    case False
    then show ?thesis
    proof (cases rule: apply_migration_cases [of n s g])
      case (1 e)
      with Cons.prems(2) show ?thesis by (intro exI [of _ 0]) auto
    next
      case (2 e)
      show ?thesis
      proof (cases e)
        case None
        with Cons.prems 2 have "apply_migrations g names (upgraded g [n] s) = (err, s')" by simp
        from Cons.IH [OF _ this] Cons.prems(1) obtain k where
          "s' = upgraded g (take k (due names s)) (upgraded g [n] s)" "err = None \<longrightarrow> length (due names s) \<le> k"
          by (auto simp: due_upgraded)
        with False show ?thesis by (intro exI [of _ "Suc k"]) (simp add: due_Cons upgraded_Cons [symmetric])
      next
        case (Some x)
        with Cons.prems(2) 2 False show ?thesis by (intro exI [of _ 1]) (auto simp: due_Cons)
      qed
    qed
  qed
qed

lemma apply_migrations_resume:
  assumes "distinct names" and "apply_migrations g names s = (None, s'')"
  shows "apply_migrations g names (upgraded g (take k (due names s)) s) = (None, s'')"
  using assms
proof (induction names arbitrary: s k)
  case Nil
  then show ?case by (simp add: due_def)
next
  case (Cons n names)
  from Cons.prems(2) obtain s1 where one: "apply_migration g n s = (None, s1)" and rest: "apply_migrations g names s1 = (None, s'')"
    by (auto split: prod.splits option.splits)
  note heard = apply_migration_heard [OF one]
  show ?case
  proof (cases "n \<in> set (schema_migrations s)")
    case True
    with one have "s1 = s" using applied_kept [OF True, of g] by simp
    moreover have "apply_migration g n (upgraded g ns s) = (None, upgraded g ns s)" for ns
      using True heard by (simp add: applied_skipped)
    ultimately show ?thesis using Cons.IH [of s k] Cons.prems(1) rest True by (simp add: due_Cons)
  next
    case False
    show ?thesis
    proof (cases k)
      case 0
      with Cons.prems(2) show ?thesis by simp
    next
      case (Suc j)
      from False one have s1: "s1 = upgraded g [n] s" by (cases rule: apply_migration_cases [of n s g]) auto
      have "apply_migration g n (upgraded g (n # ns) s) = (None, upgraded g (n # ns) s)" for ns
        using heard by (simp add: applied_skipped)
      moreover have "apply_migrations g names (upgraded g (take j (due names s)) s1) = (None, s'')"
        using Cons.IH [of s1 j] Cons.prems(1) rest by (simp add: s1 due_upgraded)
      ultimately show ?thesis using False Suc by (simp add: due_Cons s1 upgraded_Cons [symmetric])
    qed
  qed
qed

lemma Up_text: "mig_files g = mig_files h \<Longrightarrow> upgraded g = upgraded h"
  by (intro ext) (simp add: upgraded_def migration_text_def)

lemma Up_prefix:
  assumes "distinct (migration_names g)" and "Up g s = (err, s')"
  shows "\<exists>k. s' = upgraded g (take k (due (migration_names g) s)) s \<and> (err = None \<longrightarrow> length (due (migration_names g) s) \<le> k)"
  using assms(2) apply_migrations_prefix [OF assms(1), of g s err s']
  by (auto simp: Up_def split: option.splits intro: exI [of _ 0])

lemma names_distinct: "distinct (map fst (mig_files g)) \<Longrightarrow> distinct (migration_names g)"
  by (simp add: migration_names_def distinct_map distinct_filter inj_on_def)

lemma Up_complete:
  assumes "distinct (map fst (mig_files g))" and "fst (Up g s) = None"
  shows "due (migration_names g) (snd (Up g s)) = []"
proof -
  from assms(2) have "Up g s = (None, snd (Up g s))" by (metis prod.collapse)
  from Up_prefix [OF names_distinct [OF assms(1)] this] obtain k where
    k: "snd (Up g s) = upgraded g (take k (due (migration_names g) s)) s" "length (due (migration_names g) s) \<le> k" by auto
  show ?thesis unfolding k(1) using k(2) by (auto simp: due_def filter_empty_conv)
qed

text \<open>
  C33 An upgrade of the schema is never left half done. Whatever fails, the scripts in effect after
  \<open>Up\<close> are those of before and, in their order, the first so many of the due ones, each recorded with
  its script, all of them if \<open>Up\<close> reports success; and an upgrade that failed anywhere is finished by
  the next one exactly as if nothing had failed.
\<close>

theorem interrupted_upgrade_resumes:
  assumes files: "distinct (map fst (mig_files g))" and up: "Up g s = (err, s')"
  shows "(\<exists>k. s' = upgraded g (take k (due (migration_names g) s)) s \<and> (err = None \<longrightarrow> due (migration_names g) s' = [])) \<and>
    (\<forall>h s''. mig_files h = mig_files g \<and> Up h s = (None, s'') \<longrightarrow> Up h s' = (None, s''))"
proof (intro conjI allI impI)
  note names = names_distinct [OF files]
  from Up_prefix [OF names up] obtain k where k: "s' = upgraded g (take k (due (migration_names g) s)) s"
    by blast
  have "err = None \<longrightarrow> due (migration_names g) s' = []" using Up_complete [OF files, of s] up by simp
  with k show "\<exists>k. s' = upgraded g (take k (due (migration_names g) s)) s \<and> (err = None \<longrightarrow> due (migration_names g) s' = [])" by blast
  fix h s'' assume h: "mig_files h = mig_files g \<and> Up h s = (None, s'')"
  then have files_h: "mig_files h = mig_files g" ..
  then have same: "migration_names h = migration_names g" "upgraded h = upgraded g"
    by (simp add: migration_names_def) (rule Up_text [OF files_h])
  with h have "apply_migrations h (migration_names g) s = (None, s'')" and calls: "ensureMigrationsTable h = None" "call_error (mig_fault h ReadDir) = None"
    by (auto simp: Up_def split: option.splits)
  from apply_migrations_resume [OF names this(1), of k] show "Up h s' = (None, s'')"
    using k calls by (simp add: Up_def same)
qed

theorem interrupted_upgrade_resumes_witness:
  "Up demo_migrator \<lparr>schema_migrations = [], schema_scripts = []\<rparr> =
     (Some (ErrDriver ''connection lost''), \<lparr>schema_migrations = [''1.up.sql''], schema_scripts = [''A'']\<rparr>) \<and>
   Up (demo_migrator\<lparr>mig_fault := \<lambda>_. Executed\<rparr>) \<lparr>schema_migrations = [''1.up.sql''], schema_scripts = [''A'']\<rparr> =
     (None, \<lparr>schema_migrations = [''1.up.sql'', ''2.up.sql''], schema_scripts = [''A'', ''B'']\<rparr>)"
proof -
  have names: "migration_names demo_migrator = [''1.up.sql'', ''2.up.sql'']"
    by (simp add: migration_names_def demo_migrator_def HasSuffix_def HasPrefix_def less_eq_char_def less_char_def)
  have up: "Up demo_migrator \<lparr>schema_migrations = [], schema_scripts = []\<rparr> =
     (Some (ErrDriver ''connection lost''), \<lparr>schema_migrations = [''1.up.sql''], schema_scripts = [''A'']\<rparr>)"
    unfolding Up_def names by (simp add: demo_migrator_def ensureMigrationsTable_def call_error_def apply_migration_def isApplied_def migration_text_def)
  have "distinct (map fst (mig_files demo_migrator))" by (simp add: demo_migrator_def)
  moreover have "Up (demo_migrator\<lparr>mig_fault := \<lambda>_. Executed\<rparr>) \<lparr>schema_migrations = [], schema_scripts = []\<rparr> =
     (None, \<lparr>schema_migrations = [''1.up.sql'', ''2.up.sql''], schema_scripts = [''A'', ''B'']\<rparr>)"
  proof -
    have "migration_names (demo_migrator\<lparr>mig_fault := \<lambda>_. Executed\<rparr>) = [''1.up.sql'', ''2.up.sql'']"
      using names by (simp add: migration_names_def)
    then show ?thesis
      unfolding Up_def by (simp only:) (simp add: demo_migrator_def ensureMigrationsTable_def call_error_def apply_migration_def isApplied_def migration_text_def)
  qed
  ultimately show ?thesis using interrupted_upgrade_resumes [OF _ up] up by simp
qed

end
