(* ===== verification/Application.thy ===== *)
theory Application
  imports Site_Routes Migrations Auth_Sessions Tenant_Isolation
begin

text \<open>
  The start of the application (\<open>src/internal/app/app.go\<close>): \<open>Run\<close> up to where the server and the
  worker are started, with the constructors it calls. The servers, the cipher, the codecs and the
  templates are the parameters \<open>externals\<close>. The theorem says that an instance that starts meets what
  the theorems about the parts ask of a service, of a limiter and of a verifier.
\<close>

section \<open>Definitions\<close>

text \<open>
  What the application is built from beside its configuration: the cipher, the codecs, the hash
  functions and the templates, which are parameters of the parts, the migrations with the schema they
  find, and whether PostgreSQL and Redis could be reached (\<open>None\<close>) or not.
\<close>

record externals =
  ext_newGCM :: "string \<Rightarrow> AEAD result"
  ext_marshal :: "SMTPAccount \<Rightarrow> string"
  ext_unmarshal :: "string \<Rightarrow> SMTPAccount result"
  ext_jsonb :: "string \<Rightarrow> bool"
  ext_fmt_hour :: "go_time \<Rightarrow> string"
  ext_api :: Handler
  ext_auth :: AuthHandler
  ext_postgres :: "go_error option"
  ext_migrator :: migrator
  ext_schema :: schema
  ext_redis :: "go_error option"
  ext_pages :: page_files

record App =
  app_config :: Config
  app_messages :: MessageService
  app_handler :: Handler
  app_adminAPIKey :: string
  app_operatorAPIKey :: string
  app_auth :: AuthHandler
  app_templates :: site_templates

definition NewRedisLimiter :: "int \<Rightarrow> int \<Rightarrow> RedisLimiter" where
  "NewRedisLimiter workspacePerHour recipientDomainPerHour =
     \<lparr>lim_workspacePerHour = workspacePerHour, lim_recipientDomainPerHour = recipientDomainPerHour\<rparr>"

definition NewLoginRateLimiter :: "int \<Rightarrow> duration \<Rightarrow> duration \<Rightarrow> LoginRateLimiter" where
  "NewLoginRateLimiter maxFailures failureWindow lockout =
     \<lparr>ll_maxFailures = maxFailures, ll_failureWindow = failureWindow, ll_lockout = lockout\<rparr>"

text \<open>The constructors of the handlers set these fields; the others are the parameters.\<close>

definition NewAuthHandler :: "AuthHandler \<Rightarrow> string \<Rightarrow> bool \<Rightarrow> string \<Rightarrow> LoginRateLimiter \<Rightarrow> AuthHandler" where
  "NewAuthHandler params appEnv allowSignup loginPath loginLimiter =
     params\<lparr>ah_cookieSecure := (appEnv = ''production''), ah_allowSignup := allowSignup, ah_loginPath := loginPath,
            ah_loginLimiter := Some loginLimiter\<rparr>"

definition NewHandler :: "Handler \<Rightarrow> MessageService \<Rightarrow> bool \<Rightarrow> string \<Rightarrow> duration \<Rightarrow> Handler" where
  "NewHandler params messages webhooksEnabled webhookSigningSecret webhookMaxSkew =
     params\<lparr>hd_messages := messages, hd_webhooksEnabled := webhooksEnabled,
            hd_verifier := NewVerifier webhookSigningSecret webhookMaxSkew\<rparr>"

definition service_of :: "externals \<Rightarrow> Config \<Rightarrow> AEAD \<Rightarrow> MessageService" where
  "service_of x cfg sealer = NewMessageService
     \<lparr>svc_recovery_store = True, svc_retry_at_store = True, svc_atomic_store = True, svc_queue = SchedulerQueue,
      svc_sender = New (cfg_SMTPHost cfg) (cfg_SMTPPort cfg) (cfg_SMTPUsername cfg) (cfg_SMTPPassword cfg) (cfg_SMTPFrom cfg) (cfg_SMTPTLSMode cfg),
      svc_sealer = sealer, svc_marshal = ext_marshal x, svc_unmarshal = ext_unmarshal x, svc_jsonb = ext_jsonb x,
      svc_limiter = NewRedisLimiter (cfg_RateLimitWorkspacePerHour cfg) (cfg_RateLimitDomainPerHour cfg), svc_fmt_hour = ext_fmt_hour x,
      svc_blockedRecipientDomains = cfg_BlockedRecipientDomains cfg, svc_maxAttempts = cfg_MaxAttempts cfg,
      svc_webhookApplyMaxAttempts = cfg_WebhookApplyMaxAttempts cfg, svc_defaultWorkspaceRate = cfg_RateLimitWorkspacePerHour cfg,
      svc_defaultDomainRate = cfg_RateLimitDomainPerHour cfg, svc_autoFailoverEnabled = cfg_AutoFailoverEnabled cfg,
      svc_autoFailoverFailures = cfg_AutoFailoverFailures cfg, svc_autoFailoverWindow = cfg_AutoFailoverWindow cfg,
      svc_autoFailoverCooldown = cfg_AutoFailoverCooldown cfg\<rparr>"

text \<open>The loader of \<open>src/internal/app/app.go\<close>, for the pages of the authentication handler.\<close>

definition app_loadPublicTemplates :: "page_files \<Rightarrow> (string \<rightharpoonup> bool) option" where
  "app_loadPublicTemplates files = parse_pages files Map.empty [''landing.html'', ''user_dashboard.html'', ''signup.html'', ''login.html'']"

text \<open>\<open>Run\<close> of \<open>src/internal/app/app.go\<close>, up to where the server and the worker are started.\<close>

definition assemble :: "externals \<Rightarrow> Config \<Rightarrow> MessageService \<Rightarrow> App" where
  "assemble x cfg messageService =
     (let loginLimiter = NewLoginRateLimiter (cfg_LoginMaxFailures cfg) (cfg_LoginFailureWindow cfg) (cfg_LoginLockout cfg);
          authHandler = NewAuthHandler (ext_auth x) (cfg_AppEnv cfg) (cfg_AllowSignup cfg) (cfg_LoginPath cfg) loginLimiter;
          apiHandler = NewHandler (ext_api x) messageService (cfg_WebhooksEnabled cfg) (cfg_WebhookSigningSecret cfg) (cfg_WebhookMaxSkew cfg);
          authHandler = (case app_loadPublicTemplates (ext_pages x) of
              None \<Rightarrow> authHandler
            | Some publicTemplates \<Rightarrow> SetTemplates (publicTemplates ''signup.html'') (publicTemplates ''login.html'') authHandler)
      in \<lparr>app_config = cfg, app_messages = messageService, app_handler = apiHandler, app_adminAPIKey = cfg_AdminAPIKey cfg,
          app_operatorAPIKey = cfg_OperatorAPIKey cfg, app_auth = authHandler,
          app_templates = site_pages (ext_pages x)\<rparr>)"

definition app_Run :: "externals \<Rightarrow> environ \<Rightarrow> App result io" where
  "app_Run x e =
     (let cfg = Load e in
      case config_Validate cfg of Some msg \<Rightarrow> State_Monad.return (Inl (ErrText msg)) | None \<Rightarrow>
      case ext_postgres x of Some err \<Rightarrow> State_Monad.return (Inl err) | None \<Rightarrow>
      case fst (Up (ext_migrator x) (ext_schema x)) of Some err \<Rightarrow> State_Monad.return (Inl err) | None \<Rightarrow>
      case ext_redis x of Some err \<Rightarrow> State_Monad.return (Inl err) | None \<Rightarrow>
      case NewSealerFromBase64 (ext_newGCM x) (cfg_EncryptionKeyB64 cfg) of Inl err \<Rightarrow> State_Monad.return (Inl err) | Inr sealer \<Rightarrow>
      let messageService = service_of x cfg sealer in
      do {
        booted \<leftarrow> Bootstrap;
        State_Monad.return (case booted of Inl err \<Rightarrow> Inl err | Inr _ \<Rightarrow> Inr (assemble x cfg messageService)) })"

text \<open>
  The end of \<open>Run\<close>: a signal, after which the server is shut down, or an error of the server or of the
  worker; that the server was closed is not one. The loop of the worker reports none.
\<close>

datatype stop_event =
    SignalReceived string
  | ErrorReported go_error

definition ErrServerClosed :: go_error where
  "ErrServerClosed = ErrText ''http: Server closed''"

definition server_reports :: "go_error \<Rightarrow> stop_event option" where
  "server_reports err = (if errors_Is (\<lambda>x. x = ErrServerClosed) err then None else Some (ErrorReported err))"

definition run_end :: "stop_event \<Rightarrow> go_error option \<Rightarrow> go_error option" where
  "run_end ev shutdown = (case ev of SignalReceived _ \<Rightarrow> shutdown | ErrorReported err \<Rightarrow> Some err)"

text \<open>What the theorems about the parts ask of an instance.\<close>

definition instance_sound :: "App \<Rightarrow> bool" where
  "instance_sound app \<longleftrightarrow>
     svc_recovery_store (app_messages app) \<and> svc_retry_at_store (app_messages app) \<and> svc_atomic_store (app_messages app) \<and>
     svc_queue (app_messages app) = SchedulerQueue \<and> hd_messages (app_handler app) = app_messages app \<and>
     1 \<le> svc_maxAttempts (app_messages app) \<and> 1 \<le> svc_webhookApplyMaxAttempts (app_messages app) \<and>
     1 \<le> lim_workspacePerHour (svc_limiter (app_messages app)) \<and> 1 \<le> lim_recipientDomainPerHour (svc_limiter (app_messages app)) \<and>
     (\<exists>l. ah_loginLimiter (app_auth app) = Some l \<and> 1 \<le> ll_maxFailures l \<and> 0 < ll_failureWindow l \<and> 0 < ll_lockout l)"

definition keys_sound :: "App \<Rightarrow> bool" where
  "keys_sound app \<longleftrightarrow>
     \<not> blank (app_adminAPIKey app) \<and> \<not> blank (app_operatorAPIKey app) \<and> app_adminAPIKey app \<noteq> app_operatorAPIKey app \<and>
     (hd_webhooksEnabled (app_handler app) \<longrightarrow>
        \<not> blank (ver_secret (hd_verifier (app_handler app))) \<and> 0 < ver_maxSkew (hd_verifier (app_handler app))) \<and>
     (let c = DefaultCredentials (svc_sender (app_messages app)) in
      cr_TLSMode c = ''none'' \<longrightarrow> cr_Username c = [] \<and> cr_Password c = [])"

definition demo_externals :: externals where
  "demo_externals =
     \<lparr>ext_newGCM = (\<lambda>key. Inr demo_aead), ext_marshal = (\<lambda>a. acc_Host a), ext_unmarshal = (\<lambda>t. Inl (ErrText t)), ext_jsonb = (\<lambda>t. True),
      ext_fmt_hour = (\<lambda>t. ''h''), ext_api = demo_handler, ext_auth = demo_auth, ext_postgres = None,
      ext_migrator = \<lparr>mig_files = [(''1.up.sql'', Some ''A'')], mig_execute = (\<lambda>_ _. None), mig_fault = (\<lambda>_. Executed)\<rparr>,
      ext_schema = \<lparr>schema_migrations = [], schema_scripts = []\<rparr>, ext_redis = None, ext_pages = (\<lambda>name. Some True)\<rparr>"

section \<open>Starting the application\<close>

lemma boot_workspace:
  assumes "run_state Bootstrap w = (Inr u, w')"
  shows "has_workspace 1 (sh_db (w_shared w'))"
  using assms
  by (auto simp: Bootstrap_def store_def call_def on_db_def EnsureDefaultWorkspace_def has_workspace_def Let_def after_step_def
      split: fault.splits prod.splits)

lemma app_started:
  assumes "run_state (app_Run x e) w = (Inr app, w')"
  obtains sealer where "config_Validate (Load e) = None" "has_workspace 1 (sh_db (w_shared w'))"
    "fst (Up (ext_migrator x) (ext_schema x)) = None"
    "app_config app = Load e" "app_messages app = service_of x (Load e) sealer"
    "app_handler app = NewHandler (ext_api x) (app_messages app) (cfg_WebhooksEnabled (Load e)) (cfg_WebhookSigningSecret (Load e)) (cfg_WebhookMaxSkew (Load e))"
    "ah_loginLimiter (app_auth app) =
       Some (NewLoginRateLimiter (cfg_LoginMaxFailures (Load e)) (cfg_LoginFailureWindow (Load e)) (cfg_LoginLockout (Load e)))"
    "ah_cookieSecure (app_auth app) \<longleftrightarrow> cfg_AppEnv (Load e) = ''production''"
    "app_adminAPIKey app = cfg_AdminAPIKey (Load e)" "app_operatorAPIKey app = cfg_OperatorAPIKey (Load e)"
proof -
  obtain booted w1 where boot: "run_state Bootstrap w = (booted, w1)" by (metis surj_pair)
  from assms boot obtain sealer where "config_Validate (Load e) = None" "fst (Up (ext_migrator x) (ext_schema x)) = None"
    "w' = w1" "booted = Inr ()" "app = assemble x (Load e) (service_of x (Load e) sealer)"
    by (auto simp: app_Run_def Let_def split: option.splits sum.splits)
  with that boot boot_workspace [of w "()" w1] show thesis
    by (simp add: assemble_def NewAuthHandler_def SetTemplates_def Let_def split: option.split)
qed

text \<open>
  C25 An instance that starts is one the other theorems speak of: its store has transactions and
  recovery, its queue schedules retries, every limit and every number of attempts is at least one,
  the windows of the login limiter are positive; the two keys differ and are not blank, the webhook
  secret is not blank and its tolerance positive if webhooks are enabled, the default credentials are
  empty without TLS, cookies are secure exactly in production, the default workspace exists and no
  migration is due.
\<close>

theorem started_instance_sound:
  assumes "run_state (app_Run x e) w = (Inr app, w')" and "distinct (map fst (mig_files (ext_migrator x)))"
  shows "instance_sound app \<and> keys_sound app \<and> (ah_cookieSecure (app_auth app) \<longleftrightarrow> cfg_AppEnv (app_config app) = ''production'') \<and>
    has_workspace 1 (sh_db (w_shared w')) \<and> due (migration_names (ext_migrator x)) (snd (Up (ext_migrator x) (ext_schema x))) = []"
proof -
  from assms(1) obtain sealer where app: "config_Validate (Load e) = None" "app_config app = Load e" "app_messages app = service_of x (Load e) sealer"
    "app_handler app = NewHandler (ext_api x) (app_messages app) (cfg_WebhooksEnabled (Load e)) (cfg_WebhookSigningSecret (Load e)) (cfg_WebhookMaxSkew (Load e))"
    "ah_loginLimiter (app_auth app) =
       Some (NewLoginRateLimiter (cfg_LoginMaxFailures (Load e)) (cfg_LoginFailureWindow (Load e)) (cfg_LoginLockout (Load e)))"
    "ah_cookieSecure (app_auth app) \<longleftrightarrow> cfg_AppEnv (Load e) = ''production''"
    "app_adminAPIKey app = cfg_AdminAPIKey (Load e)" "app_operatorAPIKey app = cfg_OperatorAPIKey (Load e)"
    and ready: "has_workspace 1 (sh_db (w_shared w'))" "fst (Up (ext_migrator x) (ext_schema x)) = None"
    by (rule app_started)
  let ?c = "Load e"
  have valid: "no_errors (general_checks ?c)" "no_errors (login_checks ?c)" "cfg_WebhooksEnabled ?c \<Longrightarrow> no_errors (webhook_checks ?c)"
    using app(1) by (simp_all add: Validate_accepts)
  have general: "1 \<le> cfg_RateLimitWorkspacePerHour ?c" "1 \<le> cfg_RateLimitDomainPerHour ?c" "\<not> blank (cfg_AdminAPIKey ?c)"
    "\<not> blank (cfg_OperatorAPIKey ?c)" "cfg_AdminAPIKey ?c \<noteq> cfg_OperatorAPIKey ?c" "cfg_SMTPTLSMode ?c \<noteq> []"
    "cfg_SMTPTLSMode ?c = ''none'' \<longrightarrow> cfg_SMTPUsername ?c = [] \<and> cfg_SMTPPassword ?c = []"
    using valid(1) by (auto simp: general_checks_def)
  have login: "1 \<le> cfg_LoginMaxFailures ?c" "0 < cfg_LoginFailureWindow ?c" "0 < cfg_LoginLockout ?c"
    using valid(2) by (simp_all add: login_checks_def)
  have hook: "cfg_WebhooksEnabled ?c \<longrightarrow> \<not> blank (cfg_WebhookSigningSecret ?c) \<and> 0 < cfg_WebhookMaxSkew ?c"
    using valid(3) by (auto simp: webhook_checks_def)
  have "instance_sound app"
    using general(1,2) login
    by (simp add: instance_sound_def app service_of_def NewMessageService_def NewHandler_def NewLoginRateLimiter_def
        NewRedisLimiter_def Let_def)
  moreover have "keys_sound app"
    using general(3-) hook
    by (simp add: keys_sound_def app service_of_def NewMessageService_def NewHandler_def NewVerifier_def New_def DefaultCredentials_def Let_def)
  moreover have "ah_cookieSecure (app_auth app) \<longleftrightarrow> cfg_AppEnv (app_config app) = ''production''" by (simp add: app)
  moreover have "due (migration_names (ext_migrator x)) (snd (Up (ext_migrator x) (ext_schema x))) = []"
    by (rule Up_complete [OF assms(2) ready(2)])
  ultimately show ?thesis using ready(1) by blast
qed

theorem started_instance_sound_witness:
  "\<exists>app w'. run_state (app_Run demo_externals demo_production) (demo_world empty_db demo_relay) = (Inr app, w') \<and>
     instance_sound app \<and> keys_sound app \<and> ah_cookieSecure (app_auth app) \<and> has_workspace 1 (sh_db (w_shared w'))"
proof -
  have up: "fst (Up (ext_migrator demo_externals) (ext_schema demo_externals)) = None"
    by (simp add: Up_def demo_externals_def migration_names_def HasSuffix_def HasPrefix_def ensureMigrationsTable_def call_error_def
        apply_migration_def isApplied_def Let_def)
  have key: "NewSealerFromBase64 (ext_newGCM demo_externals) (cfg_EncryptionKeyB64 (Load demo_production)) = Inr demo_aead"
  proof -
    have "Base64_Decode base64_std (cfg_EncryptionKeyB64 (Load demo_production)) = Some ''0123456789abcdef0123456789abcdef''" by code_simp
    then show ?thesis by (simp add: NewSealerFromBase64_def demo_externals_def)
  qed
  have boot: "fst (run_state Bootstrap (demo_world empty_db demo_relay)) = Inr ()"
    by (simp add: Bootstrap_def store_def call_def on_db_def EnsureDefaultWorkspace_def demo_world_def Let_def)
  obtain app w' where run: "run_state (app_Run demo_externals demo_production) (demo_world empty_db demo_relay) = (Inr app, w')"
    using up key boot
    by (cases "run_state Bootstrap (demo_world empty_db demo_relay)")
       (simp add: app_Run_def demo_production_valid Let_def demo_externals_def)
  have "cfg_AppEnv (app_config app) = ''production''"
  proof -
    have "cfg_AppEnv (Load demo_production) = ''production''" by code_simp
    with run show ?thesis by (auto elim: app_started)
  qed
  moreover have "distinct (map fst (mig_files (ext_migrator demo_externals)))" by (simp add: demo_externals_def)
  ultimately show ?thesis using started_instance_sound [OF run] run by blast
qed

end
