(* ===== verification/Worker.thy ===== *)
theory Worker
  imports Service_Reads Message_Delivery Message_Queueing
begin

text \<open>
  The worker (\<open>src/internal/worker/message_worker.go\<close>): one turn of its loop, the loop, and the
  recovery it starts. The theorems take up those on the queue and on deliveries: no run of the worker
  writes to a listed recipient, and a message that was accepted is delivered.
\<close>

section \<open>Definitions\<close>

text \<open>\<open>context.Canceled\<close>, which ends the loop.\<close>

definition Canceled :: go_error where
  "Canceled = ErrDriver ''context canceled''"

text \<open>One turn of the loop of \<open>Run\<close>, and whether the loop goes on.\<close>

definition worker_turn :: "MessageService \<Rightarrow> string option \<Rightarrow> bool io" where
  "worker_turn s arrival = do {
     r \<leftarrow> PopQueue arrival;
     case r of
       Inl e \<Rightarrow>
         if errors_Is (\<lambda>x. x = Canceled) e then State_Monad.return False
         else do { time_Sleep; State_Monad.return True }
     | Inr None \<Rightarrow> State_Monad.return True
     | Inr (Some i) \<Rightarrow> do { _ \<leftarrow> ProcessOne s i; State_Monad.return True } }"

text \<open>
  \<open>Run\<close>, up to the turn in which it finds its context done: the argument has one element for each
  turn before, with what arrives while the turn blocks on the queue.
\<close>

fun worker_Run :: "MessageService \<Rightarrow> string option list \<Rightarrow> unit io" where
  "worker_Run s [] = State_Monad.return ()"
| "worker_Run s (arrival # arrivals) = do {
     go_on \<leftarrow> worker_turn s arrival;
     if go_on then worker_Run s arrivals else State_Monad.return () }"

definition recoverMessages :: "MessageService \<Rightarrow> (go_error option \<times> MessageRecoveryResult) io" where
  "recoverMessages s = RecoverQueue s (30 * Second) (15 * Minute) 100"

text \<open>\<open>runRecovery\<close>, up to the tick before its context is done.\<close>

fun recovery_ticks :: "MessageService \<Rightarrow> nat \<Rightarrow> unit io" where
  "recovery_ticks s 0 = State_Monad.return ()"
| "recovery_ticks s (Suc n) = do { _ \<leftarrow> recoverMessages s; recovery_ticks s n }"

definition runRecovery :: "MessageService \<Rightarrow> nat \<Rightarrow> unit io" where
  "runRecovery s ticks = do { _ \<leftarrow> recoverMessages s; recovery_ticks s ticks }"

text \<open>The sessions of a run: the message of each, and what it put on the wire.\<close>

definition session_of :: "MessageService \<Rightarrow> Message \<times> wire list \<Rightarrow> bool" where
  "session_of s p \<longleftrightarrow>
     (\<exists>rel creds. snd p = snd (Send (svc_sender s) rel creds (msg_ToEmail (fst p)) (msg_Subject (fst p)) (msg_BodyText (fst p))))"

definition same_lists :: "shared \<Rightarrow> shared \<Rightarrow> bool" where
  "same_lists sh sh' \<longleftrightarrow>
     db_suppressions (sh_db sh') = db_suppressions (sh_db sh) \<and> db_unsubscribes (sh_db sh') = db_unsubscribes (sh_db sh)"

definition demo_queued :: world where
  "demo_queued = snd (run_state (QueueMessage demo_service 1 ''a@example.com'' ''c@example.org'' ''s'' ''t'') (demo_world (demo_db ''sent'') demo_relay))"

definition demo_turn :: "bool \<times> world" where
  "demo_turn = run_state (worker_turn demo_service None) demo_queued"

lemma pop_grows: "state_io_rel (moves grows) (PopQueue arrival)"
proof -
  have "grows sh (sh\<lparr>sh_queue := q\<rparr>)" for sh q by (simp add: grows_def)
  then have pops: "grows sh (snd (on_pop f t sh))" for f t and sh :: shared by (simp add: on_pop_def case_prod_unfold)
  show ?thesis unfolding PopQueue_def Dequeue_def by (intro grows.world.within grows.moves_call pops)
qed

lemma pop_silent: "state_io_rel silent (PopQueue arrival)"
  unfolding PopQueue_def Dequeue_def by (intro silent_steps silent_call)

lemma turn_grows: "state_io_rel (moves grows) (worker_turn s arrival)"
  unfolding worker_turn_def by (intro grows.world.within grows.moves_env pop_grows grows.process_within)

lemma unlisted_before:
  assumes "others grows w" and "\<not> checked_listed w m"
  shows "\<not> listed (msg_WorkspaceID m) (msg_ToEmail m) (sh_db (w_shared w))"
proof -
  have g0: "grows (w_shared w) (interfered w)" using assms(1) by (rule others_interfered)
  moreover have "grows (interfered w) (interfered (idle w))" "grows (interfered (idle w)) (interfered (idle (idle w)))"
    using assms(1) others_interfered [of grows "idle w"] others_interfered [of grows "idle (idle w)"] by simp_all
  ultimately have g: "grows (w_shared w) (interfered (idle w))" "grows (w_shared w) (interfered (idle (idle w)))"
    by (blast intro: grows.trans)+
  with assms(2) show ?thesis unfolding listed_def checked_listed_def grows_def by (metis domIff subsetD)
qed

lemma turn_wire:
  assumes oth: "others grows w" and run: "run_state (worker_turn s arrival) w = (r, w')"
  shows "\<exists>ps. w_wire w' = w_wire w @ concat (map snd ps) \<and>
    (\<forall>p \<in> set ps. session_of s p \<and> \<not> listed (msg_WorkspaceID (fst p)) (msg_ToEmail (fst p)) (sh_db (w_shared w)))"
proof -
  obtain x w1 where pop: "run_state (PopQueue arrival) w = (x, w1)" by (metis surj_pair)
  have quiet: "w_wire w1 = w_wire w" by (rule silentD [OF pop_silent pop])
  note grown = state_io_relD [OF pop_grows pop]
  then have g: "grows (w_shared w) (w_shared w1)" and oth1: "others grows w1"
    using oth by (auto simp: moves_def same_env_def others_def)
  consider (idle) "w_wire w' = w_wire w1" | (took) i y where "run_state (ProcessOne s i) w1 = (y, w')"
    using run pop by (auto simp: worker_turn_def time_Sleep_def after_step_def split: sum.splits option.splits if_splits prod.splits)
  then show ?thesis
  proof cases
    case idle
    with quiet show ?thesis by (intro exI [of _ "[]"]) simp
  next
    case took
    show ?thesis
    proof (cases "w_wire w' = w_wire w1")
      case True
      with quiet show ?thesis by (intro exI [of _ "[]"]) simp
    next
      case False
      from claim_precedes_session [OF took False] obtain m rel creds where m: "\<not> checked_listed w1 m"
        "w_wire w' = w_wire w1 @ snd (Send (svc_sender s) rel creds (msg_ToEmail m) (msg_Subject m) (msg_BodyText m))" by blast
      have "\<not> listed (msg_WorkspaceID m) (msg_ToEmail m) (sh_db (w_shared w))"
        using unlisted_before [OF oth1 m(1)] g unfolding listed_def grows_def by (meson domIff subsetD)
      with m(2) quiet show ?thesis
        by (intro exI [of _ "[(m, snd (Send (svc_sender s) rel creds (msg_ToEmail m) (msg_Subject m) (msg_BodyText m)))]"])
           (auto simp: session_of_def)
    qed
  qed
qed


section \<open>A message from its admission to its delivery\<close>

interpretation lists: store_guarantee same_lists
  by unfold_locales
    (auto simp: same_lists_def upd_db_def SetMessageStatus_def SetMessageRetryAt_def TransitionMessageStatus_def CreateMessage_def InsertAttempt_def
      InsertMeteringEvent_def SetActiveSMTPAccount_def UpsertWorkspacePolicy_def ClaimQueuedMessagesForRecovery_def MarkStaleSendingUnknown_def
      update_messages_def Let_def split: if_splits)

lemma alone_others: "alone w \<Longrightarrow> others same_lists w" "alone w \<Longrightarrow> others keeps_tables w"
  by (simp_all add: alone_def others_def lists.refl tables.refl)

lemma QueueMessage_quiet:
  assumes "alone w" and "run_state (QueueMessage s ws frm to subject body) w = (r, w')"
  shows "w_wire w' = w_wire w"
  using assms
proof (cases rule: QueueMessage_cases)
  case (admitted w1)
  then show ?thesis using silentD [OF admit_silent admitted(2)] by (simp add: only_looked_def)
qed (simp add: only_looked_def)

text \<open>The turn in which the worker finds one ready message and nothing else.\<close>

lemma turn_takes_only:
  assumes w: "alone w" "faultless w" and q: "rq_ready (sh_queue (w_shared w)) = [FormatInt i]" "rq_retry (sh_queue (w_shared w)) = []"
    and i: "is_int64 i" and run: "run_state (worker_turn s arrival) w = (go_on, w')"
  shows "\<exists>r. go_on \<and> run_state (ProcessOne s i) (after_step ((w_shared w)\<lparr>sh_queue := pop_ready (sh_queue (w_shared w))\<rparr>) w) = (r, w')"
proof -
  have pop: "popNext t (sh_queue (w_shared w)) = (Some i, pop_ready (sh_queue (w_shared w)))" for t
    using q i by (simp add: popNext_def popNextScript_def first_due_def)
  have "run_state (PopQueue arrival) w = (Inr (Some i), after_step ((w_shared w)\<lparr>sh_queue := pop_ready (sh_queue (w_shared w))\<rparr>) w)"
    using w by (simp add: PopQueue_def Dequeue_def call_def on_pop_def pop alone_def faultless_def interfered_def Let_def)
  with run show ?thesis by (auto simp: worker_turn_def split: prod.splits)
qed

text \<open>What an admission on an empty queue leaves for the worker.\<close>

lemma admitted_for_worker:
  assumes al: "alone w" and ok: "tables_ok (w_shared w)"
    and q: "rq_ready (sh_queue (w_shared w)) = []" "rq_retry (sh_queue (w_shared w)) = []"
    and run: "run_state (QueueMessage s ws frm to subject body) w = (Inr m, w1)" and m: "msg_Status m = ''queued''"
  shows "msg_WorkspaceID m = ws" and "\<not> listed ws (msg_ToEmail m) (sh_db (w_shared w1))"
    and "find_message (msg_ID m) (sh_db (w_shared w1)) = Some m" and "next_no (msg_ID m) (sh_db (w_shared w1)) = 1"
    and "db_attempts (sh_db (w_shared w1)) = db_attempts (sh_db (w_shared w))" and "same_env w w1"
    and "rq_ready (sh_queue (w_shared w1)) = [FormatInt (msg_ID m)]" and "rq_retry (sh_queue (w_shared w1)) = []"
proof -
  let ?d = "sh_db (w_shared w)" and ?d1 = "sh_db (w_shared w1)"
  from QueueMessage_admits [OF al run] obtain t where row: "m = new_row (db_message_seq ?d + 1) ws frm to subject body (listed ws to ?d) t"
    and adm: "admitted_as m (w_shared w) (w_shared w1)" by blast
  have fields: "msg_ID m = db_message_seq ?d + 1" "msg_ToEmail m = to" by (simp_all add: row new_row_def)
  show "msg_WorkspaceID m = ws" by (simp add: row new_row_def)
  show env: "same_env w w1" using state_io_relD [OF lists.queue_message_within run] by (simp add: moves_def)
  have "same_lists (w_shared w) (w_shared w1)"
    using state_io_relD [OF lists.queue_message_within run] alone_others(1) [OF al] by (simp add: moves_def)
  moreover have "\<not> listed ws to ?d" using m by (auto simp: row new_row_def)
  ultimately show "\<not> listed ws (msg_ToEmail m) ?d1" by (simp add: fields listed_def same_lists_def)
  have fresh: "msg_ID m \<notin> set (message_ids ?d)" using ok fields(1) by (auto simp: tables_ok_def message_inv_def)
  then have "msg_ID r \<noteq> msg_ID m" if "r \<in> set (db_messages ?d)" for r using that by (metis image_eqI message_ids_def set_map)
  then have "find (\<lambda>r. msg_ID r = msg_ID m) (db_messages ?d) = None" by (simp add: find_None_iff)
  with adm show "find_message (msg_ID m) ?d1 = Some m" by (simp add: admitted_as_def find_message_def find_append)
  show attempts: "db_attempts ?d1 = db_attempts ?d" using adm by (simp add: admitted_as_def)
  have "attempts_of (msg_ID m) ?d1 = []"
    using ok fresh by (auto simp: attempts_of_def attempts tables_ok_def attempt_inv_def filter_empty_conv)
  then show "next_no (msg_ID m) ?d1 = 1" by (simp add: next_no_def)
  show "rq_ready (sh_queue (w_shared w1)) = [FormatInt (msg_ID m)]" "rq_retry (sh_queue (w_shared w1)) = []"
    using adm q m by (simp_all add: admitted_as_def Enqueue_def)
qed

text \<open>
  C9 A message that is accepted is delivered. If \<open>QueueMessage\<close> of an instance that is alone and whose
  calls succeed returns a queued message while nothing else is queued, and the relay accepts it, then
  the next turn of the worker hands it over in one session, with the credentials of its workspace; the
  row is sent, its first attempt is recorded as accepted, and the queue is empty again.
\<close>

theorem accepted_message_delivered:
  assumes w: "alone w" "faultless w" and ok: "tables_ok (w_shared w)" and svc: "svc_retry_at_store s" "svc_queue s = SchedulerQueue"
    and q: "rq_ready (sh_queue (w_shared w)) = []" "rq_retry (sh_queue (w_shared w)) = []"
    and run: "run_state (QueueMessage s ws frm to subject body) w = (Inr m, w1)"
    and m: "msg_Status m = ''queued''" "is_int64 (msg_ID m)"
    and creds: "credentials_in s ws (sh_db (w_shared w1)) = Inr creds" and relay: "\<forall>n. fst (send_of s (w_relay w n) creds m) = Inr ()"
    and turn: "run_state (worker_turn s arrival) w1 = (go_on, w2)"
  shows "go_on \<and> (\<exists>n. w_wire w2 = w_wire w @ snd (send_of s (w_relay w n) creds m)) \<and>
    (\<exists>t. find_message (msg_ID m) (sh_db (w_shared w2)) = Some (m\<lparr>msg_Status := ''sent'', msg_ScheduledAt := None, msg_UpdatedAt := t\<rparr>)) \<and>
    adds_attempt (msg_ID m) 1 (ProviderName creds) ''accepted by smtp server'' True (sh_db (w_shared w)) (sh_db (w_shared w2)) \<and>
    rq_ready (sh_queue (w_shared w2)) = [] \<and> rq_retry (sh_queue (w_shared w2)) = []"
proof -
  note adm = admitted_for_worker [OF w(1) ok q run m(1)]
  have w1: "alone w1" "faultless w1" "w_relay w1 = w_relay w" using w adm(6) by (simp_all add: same_env_def alone_def faultless_def)
  define v where "v = after_step ((w_shared w1)\<lparr>sh_queue := pop_ready (sh_queue (w_shared w1))\<rparr>) w1"
  from turn_takes_only [OF w1(1,2) adm(7,8) m(2) turn] obtain r where go: "go_on" and proc: "run_state (ProcessOne s (msg_ID m)) v = (r, w2)"
    unfolding v_def by blast
  have v: "alone v" "faultless v" "sh_db (w_shared v) = sh_db (w_shared w1)" "w_wire v = w_wire w" "w_relay v = w_relay w"
    using w1 QueueMessage_quiet [OF w(1) run] by (simp_all add: v_def)
  obtain log where log: "send_of s (w_relay v (w_step v + 6)) creds m = (Inr (), log)"
    using relay v(5) by (metis prod.collapse)
  have nl: "\<not> listed (msg_WorkspaceID m) (msg_ToEmail m) (sh_db (w_shared v))" using adm(1,2) by (simp add: v(3))
  have "w_wire w2 = w_wire v @ log \<and> (\<exists>t. recorded s (m\<lparr>msg_Status := ''sending'', msg_ScheduledAt := None, msg_UpdatedAt := t\<rparr>) 1 creds (Inr ())
       (w_shared v) (w_shared w2))"
    using ProcessOne_records [OF v(1,2) svc _ m(1) nl _ _ _ log proc, of 1] adm(1,3,4) creds by (simp add: v(3) is_int32_def)
  then obtain t' where wire: "w_wire w2 = w_wire w @ log"
    and rec: "recorded s (m\<lparr>msg_Status := ''sending'', msg_ScheduledAt := None, msg_UpdatedAt := t'\<rparr>) 1 creds (Inr ()) (w_shared v) (w_shared w2)"
    using v(4) by auto
  have "w_wire w2 = w_wire w @ snd (send_of s (w_relay w (w_step v + 6)) creds m)" using wire log v(5) by simp
  moreover have "rq_ready (sh_queue (w_shared w2)) = []" "rq_retry (sh_queue (w_shared w2)) = []"
    using rec adm(7,8) by (simp_all add: recorded_def v_def pop_ready_def)
  moreover have "adds_attempt (msg_ID m) 1 (ProviderName creds) ''accepted by smtp server'' True (sh_db (w_shared w)) (sh_db (w_shared w2))"
    "\<exists>t. find_message (msg_ID m) (sh_db (w_shared w2)) = Some (m\<lparr>msg_Status := ''sent'', msg_ScheduledAt := None, msg_UpdatedAt := t\<rparr>)"
    using rec by (simp_all add: recorded_def v(3) adds_attempt_def adm(5))
  ultimately show ?thesis using go by blast
qed

theorem accepted_message_delivered_witness:
  "fst demo_turn \<and> map_option msg_Status (find_message 2 (sh_db (w_shared (snd demo_turn)))) = Some ''sent''"
proof -
  let ?w = "demo_world (demo_db ''sent'') demo_relay"
  let ?run = "run_state (QueueMessage demo_service 1 ''a@example.com'' ''c@example.org'' ''s'' ''t'') ?w"
  have "case fst ?run of Inl e \<Rightarrow> False | Inr m \<Rightarrow> msg_Status m = ''queued'' \<and> msg_ID m = 2" by code_simp
  then obtain m where m: "fst ?run = Inr m" "msg_Status m = ''queued''" "msg_ID m = 2" by (cases "fst ?run") auto
  have run: "?run = (Inr m, demo_queued)" unfolding demo_queued_def by (metis m(1) prod.collapse)
  have w: "alone ?w" "faultless ?w" by (simp_all add: alone_def faultless_def demo_world_def)
  have ok: "tables_ok (w_shared ?w)"
    by (simp add: tables_ok_def demo_world_def demo_db_def demo_message_def empty_db_def message_inv_def attempt_inv_def smtp_inv_def message_ids_def)
  have q: "rq_ready (sh_queue (w_shared ?w)) = []" "rq_retry (sh_queue (w_shared ?w)) = []" by (simp_all add: demo_world_def empty_queue_def)
  have svc: "svc_retry_at_store demo_service" "svc_queue demo_service = SchedulerQueue" by (simp_all add: demo_service_def NewMessageService_def Let_def)
  have "smtp_ranked 1 (sh_db (w_shared demo_queued)) = []" by code_simp
  then have creds: "credentials_in demo_service 1 (sh_db (w_shared demo_queued)) = Inr (DefaultCredentials (svc_sender demo_service))"
    by (simp add: credentials_in_def)
  have "fst (Send (svc_sender demo_service) demo_relay (DefaultCredentials (svc_sender demo_service)) ''c@example.org'' ''s'' ''t'') = Inr ()" by code_simp
  moreover from QueueMessage_admits [OF w(1) run] have "msg_ToEmail m = ''c@example.org''" "msg_Subject m = ''s''" "msg_BodyText m = ''t''"
    by (auto simp: new_row_def)
  ultimately have relay: "\<forall>n. fst (send_of demo_service (w_relay ?w n) (DefaultCredentials (svc_sender demo_service)) m) = Inr ()"
    by (simp add: send_of_def demo_world_def)
  have turn: "run_state (worker_turn demo_service None) demo_queued = (fst demo_turn, snd demo_turn)" by (simp add: demo_turn_def)
  have "is_int64 (msg_ID m)" by (simp add: m is_int64_def min_int64_def max_int64_def)
  from accepted_message_delivered [OF w ok svc q run m(2) this creds relay turn] m(3) show ?thesis by auto
qed


end
