(* ===== verification/Delivery_Protocol.thy ===== *)
theory Delivery_Protocol
  imports World
begin

text \<open>
  The protocol by which several workers share the messages: what a worker may do to the status of a
  message in each phase of a delivery, and what the other processes may do. The invariant says that a
  message is held by one worker at a time and that one a relay has taken is never within reach again.
\<close>

section \<open>Definitions\<close>

text \<open>
  Where a worker is with a message: it has none, it has read one and looks at the lists, it holds the
  claim, the relay has taken the message, the relay has not. The message is the row that was read.
\<close>

datatype phase =
    Free
  | Looking Message
  | Holding Message
  | Confirmed Message
  | Declined Message

text \<open>A session with a relay, and a worker with the sessions it has held.\<close>

record delivery =
  dl_message :: Message
  dl_result :: "unit result"
  dl_log :: "wire list"

record agent =
  ag_phase :: phase
  ag_deliveries :: "delivery list"

definition new_agent :: agent where
  "new_agent = \<lparr>ag_phase = Free, ag_deliveries = []\<rparr>"

definition accepted :: "delivery \<Rightarrow> bool" where
  "accepted d \<longleftrightarrow> dl_result d = Inr ()"

definition confirmed :: "agent \<Rightarrow> int list" where
  "confirmed a = map (msg_ID \<circ> dl_message) (filter accepted (ag_deliveries a))"

definition said :: "agent \<Rightarrow> wire list" where
  "said a = concat (map dl_log (ag_deliveries a))"

definition held :: "phase \<Rightarrow> int option" where
  "held p = (case p of Holding m \<Rightarrow> Some (msg_ID m) | Confirmed m \<Rightarrow> Some (msg_ID m) | Declined m \<Rightarrow> Some (msg_ID m) | _ \<Rightarrow> None)"

definition statuses :: "shared \<Rightarrow> int \<Rightarrow> string option" where
  "statuses sh i = map_option msg_Status (find_message i (sh_db sh))"

definition restatus :: "int \<Rightarrow> string \<Rightarrow> shared \<Rightarrow> shared \<Rightarrow> bool" where
  "restatus i st sh sh' \<longleftrightarrow> statuses sh' = (\<lambda>k. if k = i then map_option (\<lambda>_. st) (statuses sh i) else statuses sh k)"

definition is_session :: "Client \<Rightarrow> delivery \<Rightarrow> bool" where
  "is_session c d \<longleftrightarrow> (\<exists>rel creds. Send c rel creds (msg_ToEmail (dl_message d)) (msg_Subject (dl_message d)) (msg_BodyText (dl_message d)) =
     (dl_result d, dl_log d))"

text \<open>
  The protocol: what a worker may do to the shared state in one step. It may write whatever it likes
  as long as no message changes its status, and it changes the status of a message only in the phases
  and in the directions below. It may give up at any moment.
\<close>

inductive acts :: "Client \<Rightarrow> shared \<times> agent \<Rightarrow> shared \<times> agent \<Rightarrow> bool" for c :: Client where
  stop: "acts c (sh, a) (sh, a\<lparr>ag_phase := Free\<rparr>)"
| look: "ag_phase a = Free \<Longrightarrow> acts c (sh, a) (sh, a\<lparr>ag_phase := Looking m\<rparr>)"
| keep: "statuses sh' = statuses sh \<Longrightarrow> acts c (sh, a) (sh', a)"
| suppress: "ag_phase a = Looking m \<Longrightarrow> restatus (msg_ID m) ''suppressed'' sh sh' \<Longrightarrow> acts c (sh, a) (sh', a)"
| claim: "ag_phase a = Looking m \<Longrightarrow> statuses sh (msg_ID m) = Some ''queued'' \<Longrightarrow> restatus (msg_ID m) ''sending'' sh sh' \<Longrightarrow>
    acts c (sh, a) (sh', a\<lparr>ag_phase := Holding m\<rparr>)"
| send: "ag_phase a = Holding (dl_message d) \<Longrightarrow> is_session c d \<Longrightarrow>
    acts c (sh, a) (sh, \<lparr>ag_phase = (if accepted d then Confirmed (dl_message d) else Declined (dl_message d)),
      ag_deliveries = ag_deliveries a @ [d]\<rparr>)"
| settle: "ag_phase a = Confirmed m \<Longrightarrow> st \<in> {''sent'', ''unknown''} \<Longrightarrow> restatus (msg_ID m) st sh sh' \<Longrightarrow> acts c (sh, a) (sh', a)"
| doubt: "ag_phase a = Declined m \<Longrightarrow> restatus (msg_ID m) ''unknown'' sh sh' \<Longrightarrow> acts c (sh, a) (sh', a)"
| release: "ag_phase a = Holding m \<and> st = ''queued'' \<or> ag_phase a = Declined m \<and> st \<in> {''queued'', ''failed''} \<Longrightarrow>
    statuses sh (msg_ID m) = Some ''sending'' \<Longrightarrow> restatus (msg_ID m) st sh sh' \<Longrightarrow> acts c (sh, a) (sh', a\<lparr>ag_phase := Free\<rparr>)"

text \<open>
  What the processes beside the workers do to the messages: they add queued and suppressed ones, put
  failed ones back to queued, and declare abandoned ones unknown.
\<close>

definition status_moves :: "string option \<Rightarrow> string option \<Rightarrow> bool" where
  "status_moves x y \<longleftrightarrow>
     x = y \<or> x = None \<and> y \<in> {Some ''queued'', Some ''suppressed''} \<or> x = Some ''failed'' \<and> y = Some ''queued'' \<or>
     x = Some ''sending'' \<and> y = Some ''unknown''"

definition background :: "shared \<Rightarrow> shared \<Rightarrow> bool" where
  "background sh sh' \<longleftrightarrow> (\<forall>i. status_moves\<^sup>*\<^sup>* (statuses sh i) (statuses sh' i))"

text \<open>All processes together.\<close>

record fleet =
  fl_shared :: shared
  fl_agent :: "nat \<Rightarrow> agent"

inductive fleet_step :: "fleet \<Rightarrow> fleet \<Rightarrow> bool" where
  worker: "acts c (fl_shared F, fl_agent F j) (sh', a') \<Longrightarrow> fleet_step F \<lparr>fl_shared = sh', fl_agent = (fl_agent F)(j := a')\<rparr>"
| elsewhere: "background (fl_shared F) sh' \<Longrightarrow> fleet_step F (F\<lparr>fl_shared := sh'\<rparr>)"

text \<open>A message that nobody can claim, now or later: it is neither queued nor failed.\<close>

definition out_of_reach :: "shared \<Rightarrow> int \<Rightarrow> bool" where
  "out_of_reach sh i \<longleftrightarrow> (\<exists>st. statuses sh i = Some st \<and> st \<noteq> ''queued'' \<and> st \<noteq> ''failed'')"

definition fleet_inv :: "fleet \<Rightarrow> bool" where
  "fleet_inv F \<longleftrightarrow>
     (\<forall>j i. held (ag_phase (fl_agent F j)) = Some i \<or> i \<in> set (confirmed (fl_agent F j)) \<longrightarrow> out_of_reach (fl_shared F) i) \<and>
     (\<forall>j k i. held (ag_phase (fl_agent F j)) = Some i \<longrightarrow> held (ag_phase (fl_agent F k)) = Some i \<longrightarrow> j = k) \<and>
     (\<forall>j k m. ag_phase (fl_agent F j) = Holding m \<or> ag_phase (fl_agent F j) = Declined m \<longrightarrow> msg_ID m \<notin> set (confirmed (fl_agent F k))) \<and>
     (\<forall>j k. j \<noteq> k \<longrightarrow> set (confirmed (fl_agent F j)) \<inter> set (confirmed (fl_agent F k)) = {}) \<and>
     (\<forall>j. distinct (confirmed (fl_agent F j)))"

section \<open>The invariant of the fleet\<close>

lemma held_simps [simp]:
  "held Free = None" "held (Looking m) = None" "held (Holding m) = Some (msg_ID m)" "held (Confirmed m) = Some (msg_ID m)"
  "held (Declined m) = Some (msg_ID m)"
  by (simp_all add: held_def)

lemma agent_simps [simp]:
  "confirmed (a\<lparr>ag_phase := p\<rparr>) = confirmed a" "said (a\<lparr>ag_phase := p\<rparr>) = said a"
  "said \<lparr>ag_phase = p, ag_deliveries = ds @ [d]\<rparr> = concat (map dl_log ds) @ dl_log d"
  "confirmed new_agent = []" "said new_agent = []" "ag_phase new_agent = Free"
  by (simp_all add: confirmed_def said_def new_agent_def)

lemma confirmed_send:
  "confirmed \<lparr>ag_phase = p, ag_deliveries = ag_deliveries a @ [d]\<rparr> = confirmed a @ (if accepted d then [msg_ID (dl_message d)] else [])"
  by (simp add: confirmed_def)

lemma reach_same: "statuses sh' = statuses sh \<Longrightarrow> out_of_reach sh' = out_of_reach sh"
  by (intro ext) (simp add: out_of_reach_def)

lemma reach_restatus:
  assumes "restatus i st sh sh'"
  shows "k \<noteq> i \<Longrightarrow> out_of_reach sh' k \<longleftrightarrow> out_of_reach sh k"
    and "st \<noteq> ''queued'' \<Longrightarrow> st \<noteq> ''failed'' \<Longrightarrow> out_of_reach sh k \<Longrightarrow> out_of_reach sh' k"
  using assms by (auto simp: restatus_def out_of_reach_def)

lemma reach_background:
  assumes "background sh sh'" and "out_of_reach sh i"
  shows "out_of_reach sh' i"
proof -
  have "status_moves\<^sup>*\<^sup>* (statuses sh i) (statuses sh' i)" using assms(1) by (simp add: background_def)
  moreover obtain st where "statuses sh i = Some st" "st \<noteq> ''queued''" "st \<noteq> ''failed''" using assms(2) by (auto simp: out_of_reach_def)
  ultimately have "\<exists>st. statuses sh' i = Some st \<and> st \<noteq> ''queued'' \<and> st \<noteq> ''failed''"
  proof (induction rule: rtranclp_induct)
    case base
    then show ?case by blast
  next
    case (step a b)
    then show ?case unfolding status_moves_def by fastforce
  qed
  then show ?thesis by (simp add: out_of_reach_def)
qed

text \<open>The invariant under a change of the shared state that leaves nothing within reach.\<close>

lemma inv_shared:
  assumes "fleet_inv F" and "\<And>i. out_of_reach (fl_shared F) i \<Longrightarrow> out_of_reach sh' i"
  shows "fleet_inv (F\<lparr>fl_shared := sh'\<rparr>)"
  using assms unfolding fleet_inv_def by simp

lemma inv_same_agent:
  assumes "fleet_inv F" and "\<And>i. out_of_reach (fl_shared F) i \<Longrightarrow> out_of_reach sh' i"
  shows "fleet_inv \<lparr>fl_shared = sh', fl_agent = (fl_agent F)(j := fl_agent F j)\<rparr>"
  using assms unfolding fleet_inv_def by simp

lemma inv_unheld:
  assumes "fleet_inv F" and "held p = None"
  shows "fleet_inv \<lparr>fl_shared = fl_shared F, fl_agent = (fl_agent F)(j := (fl_agent F j)\<lparr>ag_phase := p\<rparr>)\<rparr>"
proof -
  have "p \<noteq> Holding m" "p \<noteq> Declined m" for m using assms(2) by auto
  with assms show ?thesis unfolding fleet_inv_def by (simp add: fun_upd_def)
qed

lemma inv_release:
  assumes inv: "fleet_inv F" and mine: "ag_phase (fl_agent F j) = Holding m \<or> ag_phase (fl_agent F j) = Declined m"
    and set: "restatus (msg_ID m) st (fl_shared F) sh'"
  shows "fleet_inv \<lparr>fl_shared = sh', fl_agent = (fl_agent F)(j := (fl_agent F j)\<lparr>ag_phase := Free\<rparr>)\<rparr>"
proof -
  have h: "held (ag_phase (fl_agent F j)) = Some (msg_ID m)" using mine by auto
  have others: "i \<noteq> msg_ID m" if "held (ag_phase (fl_agent F k)) = Some i" "k \<noteq> j" for k i
    using inv h that unfolding fleet_inv_def by metis
  have fresh: "i \<noteq> msg_ID m" if "i \<in> set (confirmed (fl_agent F k))" for k i
    using that inv mine unfolding fleet_inv_def by metis
  show ?thesis
    using inv others fresh unfolding fleet_inv_def
    by (simp add: fun_upd_def) (metis reach_restatus(1) [OF set])
qed

lemma inv_claim:
  assumes inv: "fleet_inv F" and queued: "statuses (fl_shared F) (msg_ID m) = Some ''queued''"
    and set: "restatus (msg_ID m) ''sending'' (fl_shared F) sh'"
  shows "fleet_inv \<lparr>fl_shared = sh', fl_agent = (fl_agent F)(j := (fl_agent F j)\<lparr>ag_phase := Holding m\<rparr>)\<rparr>"
proof -
  have "\<not> out_of_reach (fl_shared F) (msg_ID m)" using queued by (simp add: out_of_reach_def)
  then have free: "held (ag_phase (fl_agent F k)) \<noteq> Some (msg_ID m)" "msg_ID m \<notin> set (confirmed (fl_agent F k))" for k
    using inv unfolding fleet_inv_def by blast+
  have "out_of_reach sh' (msg_ID m)" using queued set by (simp add: out_of_reach_def restatus_def)
  moreover have "out_of_reach (fl_shared F) i \<Longrightarrow> out_of_reach sh' i" for i by (rule reach_restatus(2) [OF set]) simp_all
  ultimately show ?thesis using inv free unfolding fleet_inv_def by (auto split: if_splits)
qed

lemma inv_send:
  assumes inv: "fleet_inv F" and mine: "ag_phase (fl_agent F j) = Holding (dl_message d)"
  shows "fleet_inv \<lparr>fl_shared = fl_shared F, fl_agent = (fl_agent F)(j :=
    \<lparr>ag_phase = (if accepted d then Confirmed (dl_message d) else Declined (dl_message d)), ag_deliveries = ag_deliveries (fl_agent F j) @ [d]\<rparr>)\<rparr>"
proof -
  let ?i = "msg_ID (dl_message d)"
  have h: "held (ag_phase (fl_agent F j)) = Some ?i" using mine by simp
  have others: "held (ag_phase (fl_agent F k)) \<noteq> Some ?i" if "k \<noteq> j" for k using inv h that unfolding fleet_inv_def by metis
  then have apart: "msg_ID n \<noteq> ?i" if "k \<noteq> j" "ag_phase (fl_agent F k) = Holding n \<or> ag_phase (fl_agent F k) = Declined n" for k n
    using that by (metis held_simps(3,5))
  have out: "out_of_reach (fl_shared F) ?i" and fresh: "?i \<notin> set (confirmed (fl_agent F k))" for k
    using inv h mine unfolding fleet_inv_def by blast+
  show ?thesis using inv others apart out fresh unfolding fleet_inv_def by (auto simp: confirmed_send split: if_splits)
qed

lemma acts_inv:
  assumes "acts c (fl_shared F, fl_agent F j) (sh', a')" and inv: "fleet_inv F"
  shows "fleet_inv \<lparr>fl_shared = sh', fl_agent = (fl_agent F)(j := a')\<rparr>"
  using assms(1)
proof (cases rule: acts.cases)
  case stop
  then show ?thesis using inv_unheld [OF inv, of Free j] by simp
next
  case (look m)
  then show ?thesis using inv_unheld [OF inv, of "Looking m" j] by simp
next
  case keep
  then show ?thesis using inv_same_agent [OF inv, of sh' j] reach_same [OF keep(2)] by simp
next
  case (suppress m)
  then show ?thesis using inv_same_agent [OF inv reach_restatus(2) [OF suppress(3)], of j] by simp
next
  case (claim m)
  then show ?thesis using inv_claim [OF inv claim(3,4), of j] by simp
next
  case (send d)
  then show ?thesis using inv_send [OF inv send(3)] by simp
next
  case (settle m st)
  have "st \<noteq> ''queued''" "st \<noteq> ''failed''" using settle(3) by auto
  with settle show ?thesis using inv_same_agent [OF inv reach_restatus(2) [OF settle(4)], of j] by simp
next
  case (doubt m)
  then show ?thesis using inv_same_agent [OF inv reach_restatus(2) [OF doubt(3)], of j] by simp
next
  case (release m st)
  then show ?thesis using inv_release [OF inv _ release(4), of j] by auto
qed

lemma fleet_step_inv: "fleet_step F F' \<Longrightarrow> fleet_inv F \<Longrightarrow> fleet_inv F'"
  by (induction rule: fleet_step.induct) (auto intro: acts_inv inv_shared reach_background)

lemma fleet_inv_steps: "fleet_step\<^sup>*\<^sup>* F F' \<Longrightarrow> fleet_inv F \<Longrightarrow> fleet_inv F'"
  by (induction rule: rtranclp_induct) (auto intro: fleet_step_inv)

lemma new_fleet_inv: "fleet_inv \<lparr>fl_shared = sh, fl_agent = (\<lambda>j. new_agent)\<rparr>"
  by (simp add: fleet_inv_def)

end
