(* ===== verification/Worker_Protocol.thy ===== *)
theory Worker_Protocol
  imports Worker Delivery_Protocol
begin

text \<open>
  The worker follows the protocol: whatever other processes do between its calls and whichever calls
  fail, each step of a run of \<open>worker_Run\<close>, and of a run that is cut off, is one the protocol allows.
  The proof is a chain of triples, one per call of \<open>ProcessOne\<close>, each from a phase to the next.
\<close>

section \<open>Definitions\<close>

text \<open>What a worker does over a transcript of steps: at each, some acts that lead from what it found to what it left.\<close>

fun performs :: "Client \<Rightarrow> agent \<Rightarrow> transition list \<Rightarrow> agent \<Rightarrow> bool" where
  "performs c a [] a' \<longleftrightarrow> a' = a"
| "performs c a (x # tr) a' \<longleftrightarrow>
     (\<exists>a1. (acts c)\<^sup>*\<^sup>* (tr_before x, a) (tr_after x, a1) \<and> said a1 = said a @ tr_log x \<and> performs c a1 tr a')"

definition in_phase :: "phase \<Rightarrow> agent \<Rightarrow> bool" where
  "in_phase p a \<longleftrightarrow> p = Free \<or> ag_phase a = p"

definition found_ok :: "transition list \<Rightarrow> bool" where
  "found_ok tr \<longleftrightarrow> (\<forall>x \<in> set tr. message_inv (sh_db (tr_before x)))"

text \<open>
  The run from \<open>w0\<close> to \<open>w\<close> follows the protocol up to each of its steps, and has come to phase \<open>p\<close>.
\<close>

definition traced :: "Client \<Rightarrow> world \<Rightarrow> phase \<Rightarrow> world \<Rightarrow> bool" where
  "traced c w0 p w \<longleftrightarrow> (\<exists>tr. w_trace w = w_trace w0 @ tr \<and>
     (\<forall>n. found_ok (take n tr) \<longrightarrow> (\<exists>a. performs c new_agent (take n tr) a \<and> (length tr \<le> n \<longrightarrow> in_phase p a))))"

definition stays :: "Client \<Rightarrow> world \<Rightarrow> world \<Rightarrow> bool" where
  "stays c w w' \<longleftrightarrow> (\<forall>w0 p. traced c w0 p w \<longrightarrow> traced c w0 p w')"

text \<open>A worker that finds the same message twice on the queue.\<close>

definition twice_queued :: world where
  "twice_queued = (demo_world (demo_db ''queued'') demo_relay)\<lparr>w_shared :=
     \<lparr>sh_db = demo_db ''queued'', sh_queue = Enqueue 1 (Enqueue 1 empty_queue), sh_limits = Map.empty\<rparr>\<rparr>"

definition demo_delivery :: "unit \<times> world" where
  "demo_delivery = run_state (worker_Run demo_service [None]) twice_queued"

definition speaks :: "transition list \<Rightarrow> bool" where
  "speaks tr \<longleftrightarrow> found_ok tr \<and> concat (map tr_log tr) \<noteq> []"

section \<open>Rules for runs\<close>

interpretation stays: frame_relation "stays c" for c
  by unfold_locales (simp_all add: stays_def)

lemma in_phase_Free [simp]: "in_phase Free a"
  by (simp add: in_phase_def)

lemma in_phase_other: "p \<noteq> Free \<Longrightarrow> in_phase p a \<longleftrightarrow> ag_phase a = p"
  by (simp add: in_phase_def)

lemma performs_append: "performs c a (tr @ tr') a' \<longleftrightarrow> (\<exists>a1. performs c a tr a1 \<and> performs c a1 tr' a')"
  by (induction tr arbitrary: a) auto

lemma traced_start: "traced c w Free w"
  unfolding traced_def by (intro exI [of _ "[]"]) (simp add: exI [of _ new_agent])

lemma traced_stop: "traced c w0 p w \<Longrightarrow> traced c w0 Free w"
  unfolding traced_def by fastforce

text \<open>One step: first the others act, then the worker.\<close>

lemma traced_step:
  assumes w: "traced c w0 p w" and tr: "w_trace w' = w_trace w @ [\<lparr>tr_before = interfered w, tr_after = w_shared w', tr_log = log\<rparr>]"
    and step: "\<And>a. in_phase p a \<Longrightarrow> message_inv (sh_db (interfered w)) \<Longrightarrow>
      \<exists>a'. (acts c)\<^sup>*\<^sup>* (interfered w, a) (w_shared w', a') \<and> said a' = said a @ log \<and> in_phase q a'"
  shows "traced c w0 q w'"
proof -
  from w obtain tr where t: "w_trace w = w_trace w0 @ tr"
    and P: "\<And>n. found_ok (take n tr) \<Longrightarrow> \<exists>a. performs c new_agent (take n tr) a \<and> (length tr \<le> n \<longrightarrow> in_phase p a)"
    unfolding traced_def by blast
  let ?tr = "tr @ [\<lparr>tr_before = interfered w, tr_after = w_shared w', tr_log = log\<rparr>]"
  have "\<exists>a. performs c new_agent (take n ?tr) a \<and> (length ?tr \<le> n \<longrightarrow> in_phase q a)" if ok: "found_ok (take n ?tr)" for n
  proof (cases "n \<le> length tr")
    case True
    with ok P [of n] show ?thesis by auto
  next
    case False
    then have all: "take n ?tr = ?tr" by simp
    have "found_ok ?tr" using ok unfolding all .
    then have "found_ok (take (length tr) tr)" and i: "message_inv (sh_db (interfered w))" by (simp_all add: found_ok_def)
    from P [OF this(1)] obtain a where a: "performs c new_agent tr a" "in_phase p a" by auto
    from step [OF a(2) i] obtain a' where a': "(acts c)\<^sup>*\<^sup>* (interfered w, a) (w_shared w', a')" "said a' = said a @ log" "in_phase q a'" by blast
    have "performs c new_agent ?tr a'" unfolding performs_append using a(1) a'(1,2) by auto
    with a'(3) show ?thesis unfolding all by blast
  qed
  with t tr show ?thesis unfolding traced_def by (intro exI [of _ ?tr]) simp
qed

text \<open>A call of which every effect is a step that leads from \<open>p\<close> to \<open>q\<close>; after an error the worker may stop.\<close>

lemma triple_call:
  assumes step: "\<And>t sh a. in_phase p a \<Longrightarrow> message_inv (sh_db sh) \<Longrightarrow>
      \<exists>a'. (acts c)\<^sup>*\<^sup>* (sh, a) (snd (f t sh), a') \<and> said a' = said a \<and> in_phase (q (fst (f t sh))) a'"
  shows "triple (traced c w0 p) (call f) (\<lambda>r. traced c w0 (case r of Inl _ \<Rightarrow> Free | Inr _ \<Rightarrow> q r))"
proof (rule tripleI)
  fix w r w' assume w: "traced c w0 p w" and run: "run_state (call f) w = (r, w')"
  let ?t = "w_clock w (w_step w)"
  have did: "traced c w0 (q (fst (f ?t (interfered w)))) (after_step (snd (f ?t (interfered w))) w)"
    by (rule traced_step [OF w, of _ "[]"]) (use step in \<open>simp_all add: after_step_def\<close>)
  have idle: "traced c w0 p (after_step (interfered w) w)"
    by (rule traced_step [OF w, of _ "[]"]) (auto simp: after_step_def)
  show "traced c w0 (case r of Inl _ \<Rightarrow> Free | Inr _ \<Rightarrow> q r) w'"
  proof (cases "w_fault w (w_step w)")
    case Executed
    with run have "r = fst (f ?t (interfered w))" "w' = after_step (snd (f ?t (interfered w))) w"
      by (auto simp: call_def Let_def split: prod.splits)
    with did show ?thesis by (cases "fst (f ?t (interfered w))") (auto intro: traced_stop)
  next
    case (Refused e)
    with run idle show ?thesis by (auto simp: call_def Let_def intro: traced_stop)
  next
    case (Unacknowledged e)
    with run did show ?thesis by (auto simp: call_def Let_def intro: traced_stop)
  qed
qed

text \<open>A call after which the phase is the same, whether it succeeds or not.\<close>

lemma triple_staying:
  assumes step: "\<And>t sh a. in_phase p a \<Longrightarrow> acts c (sh, a) (snd (f t sh), a)"
  shows "triple (traced c w0 p) (call f) (\<lambda>r. traced c w0 p)"
proof (rule tripleI)
  fix w r w' assume w: "traced c w0 p w" and run: "run_state (call f) w = (r, w')"
  have "traced c w0 p (after_step (snd (f (w_clock w (w_step w)) (interfered w))) w)"
  proof (rule traced_step [OF w, of _ "[]"])
    fix a assume a: "in_phase p a"
    show "\<exists>a'. (acts c)\<^sup>*\<^sup>* (interfered w, a) (w_shared (after_step (snd (f (w_clock w (w_step w)) (interfered w))) w), a') \<and>
        said a' = said a @ [] \<and> in_phase p a'"
      using r_into_rtranclp [where r = "acts c", OF step [OF a]] a by (intro exI [of _ a]) simp
  qed (simp_all add: after_step_def)
  moreover have "traced c w0 p (after_step (interfered w) w)"
    by (rule traced_step [OF w, of _ "[]"]) (auto simp: after_step_def)
  ultimately show "traced c w0 p w'"
    using run by (auto simp: call_def Let_def split: fault.splits prod.splits)
qed

lemma stays_triple: "state_io_rel (stays c) m \<Longrightarrow> triple (traced c w0 p) m (\<lambda>r. traced c w0 p)"
  unfolding triple_def state_io_rel_def stays_def by (fastforce split: prod.splits)

lemma stays_call:
  assumes "\<And>t sh. statuses (snd (f t sh)) = statuses sh"
  shows "state_io_rel (stays c) (call f)"
proof (rule state_io_relI)
  fix w r w' assume run: "run_state (call f) w = (r, w')"
  have "triple (traced c w0 p) (call f) (\<lambda>r. traced c w0 p)" for w0 p
    by (rule triple_staying) (rule acts.keep [OF assms])
  from tripleD [OF this _ run] show "stays c w w'" by (simp add: stays_def)
qed

lemma stays_then:
  assumes "state_io_rel (stays c) m" and "\<And>x. triple (traced c w0 p) (f x) Q"
  shows "triple (traced c w0 p) (m \<bind> f) Q"
  using stays_triple [OF assms(1)] assms(2) by (rule triple_bind)

lemma stays_ends: "state_io_rel (stays c) m \<Longrightarrow> triple (traced c w0 p) m (\<lambda>r. traced c w0 Free)"
  by (auto intro: triple_post [OF stays_triple] traced_stop)

section \<open>Updates of one status\<close>

text \<open>An update of one message, under a condition on its status.\<close>

lemma statuses_update:
  assumes "\<And>m. msg_ID (f m) = msg_ID m" and "\<And>m. msg_Status (f m) = st"
  shows "statuses (sh\<lparr>sh_db := update_messages (\<lambda>m. msg_ID m = i \<and> q (msg_Status m)) f (sh_db sh)\<rparr>) =
    (\<lambda>k. if k = i then map_option (\<lambda>s. if q s then st else s) (statuses sh i) else statuses sh k)"
proof
  fix k
  show "statuses (sh\<lparr>sh_db := update_messages (\<lambda>m. msg_ID m = i \<and> q (msg_Status m)) f (sh_db sh)\<rparr>) k =
    (if k = i then map_option (\<lambda>s. if q s then st else s) (statuses sh i) else statuses sh k)"
    by (cases "find_message k (sh_db sh)")
      (auto simp: statuses_def find_message_update [of f, OF assms(1)] assms(2) dest: find_message_SomeD)
qed

lemma set_status_restatus: "restatus i st sh (snd (on_db (SetMessageStatus i st) t sh))"
  by (cases "statuses sh i") (simp_all add: restatus_def fun_eq_iff SetMessageStatus_def on_db_def statuses_update [where q = "\<lambda>s. True", simplified])

lemma transition_restatus:
  "statuses sh i = Some st \<Longrightarrow> restatus i st' sh (snd (on_db (TransitionMessageStatus i st st') t sh))"
  by (simp add: statuses_update [where q = "\<lambda>s. s = st"] restatus_def fun_eq_iff TransitionMessageStatus_def on_db_def Let_def)

lemma transition_misses:
  "statuses sh i \<noteq> Some st \<Longrightarrow> statuses (snd (on_db (TransitionMessageStatus i st st') t sh)) = statuses sh"
  by (cases "statuses sh i") (auto simp: statuses_update [where q = "\<lambda>s. s = st"] TransitionMessageStatus_def on_db_def Let_def)

lemma retry_restatus:
  "statuses sh i = Some ''sending'' \<Longrightarrow> restatus i ''queued'' sh (snd (on_db (SetMessageRetryAt i at) t sh))"
  by (simp add: statuses_update [where q = "\<lambda>s. s = ''sending''"] restatus_def fun_eq_iff SetMessageRetryAt_def on_db_def Let_def)

lemma retry_misses:
  "statuses sh i \<noteq> Some ''sending'' \<Longrightarrow> statuses (snd (on_db (SetMessageRetryAt i at) t sh)) = statuses sh"
  by (cases "statuses sh i") (auto simp: statuses_update [where q = "\<lambda>s. s = ''sending''"] SetMessageRetryAt_def on_db_def Let_def)

lemma transition_result:
  assumes "message_inv (sh_db sh)"
  shows "fst (on_db (TransitionMessageStatus i st st') t sh) = Inr (statuses sh i = Some st)"
  using rows_affected_id [OF assms, of i "\<lambda>m. msg_Status m = st"]
  by (auto simp: TransitionMessageStatus_def on_db_def Let_def statuses_def)

section \<open>Calls that change no status\<close>

lemma stays_store:
  assumes "\<And>t d i. find_message i (snd (op t d)) = find_message i d"
  shows "state_io_rel (stays c) (store op)"
  unfolding store_def by (rule stays_call) (simp_all add: on_db_def assms statuses_def fun_eq_iff case_prod_unfold)

lemma stays_read: "(\<And>t d. snd (op t d) = d) \<Longrightarrow> state_io_rel (stays c) (store op)"
  by (rule stays_store) simp_all

lemma stays_reads:
  "state_io_rel (stays c) (store (IsSuppressed ws e))" "state_io_rel (stays c) (store (IsUnsubscribed ws e))"
  "state_io_rel (stays c) (store (NextAttemptNo i))"
  "state_io_rel (stays c) (store (GetSMTPAccountEncrypted ws))" "state_io_rel (stays c) (store (ListSMTPAccounts ws))"
  "state_io_rel (stays c) (store (CountFailedAttemptsByProviderSince ws p since))"
  by (rule stays_read,
      simp add: IsSuppressed_def IsUnsubscribed_def NextAttemptNo_def GetSMTPAccountEncrypted_def
        ListSMTPAccounts_def CountFailedAttemptsByProviderSince_def Let_def split: option.split list.split)+

lemma stays_writes:
  "state_io_rel (stays c) (store (InsertAttempt i n p resp ok))" "state_io_rel (stays c) (meter s ws i et md)"
  "state_io_rel (stays c) (store (SetActiveSMTPAccount ws name))"
  unfolding meter_def
  by (rule stays_store; simp add: InsertAttempt_def InsertMeteringEvent_def SetActiveSMTPAccount_def Let_def find_message_def)+

lemma stays_queue: "state_io_rel (stays c) (queue g)"
  unfolding queue_def by (rule stays_call) (simp_all add: on_queue_def statuses_def fun_eq_iff)

lemma stays_env: "state_io_rel (stays c) time_Now" "state_io_rel (stays c) time_Sleep"
proof -
  have idle: "stays c w (after_step (interfered w) w)" for w
    unfolding stays_def by (intro allI impI) (erule traced_step [of _ _ _ _ _ "[]"], auto simp: after_step_def)
  show "state_io_rel (stays c) time_Now" "state_io_rel (stays c) time_Sleep"
    by (rule state_io_relI; use idle in \<open>auto simp: time_Now_def time_Sleep_def\<close>)+
qed

lemma stays_pop: "state_io_rel (stays c) (PopQueue arrival)"
proof -
  have pops: "state_io_rel (stays c) (call (\<lambda>t. on_pop (f t) t))" for f :: "go_time \<Rightarrow> redis_queue \<Rightarrow> 'a \<times> redis_queue"
    by (rule stays_call) (simp_all add: on_pop_def case_prod_unfold statuses_def fun_eq_iff)
  show ?thesis unfolding PopQueue_def Dequeue_def by (intro stays.within pops)
qed

lemmas stays_steps = stays.within_return stays.within_bind stays.within_if stays.within_sum stays.within_option stays.within_prod
  stays.within_let stays_reads stays_writes stays_queue stays_env

lemma stays_credentials: "state_io_rel (stays c) (resolveCredentials s ws)"
  unfolding resolveCredentials_def by (intro stays_steps)

lemma stays_failover: "state_io_rel (stays c) (tryAutoFailover s ws p)"
  unfolding tryAutoFailover_def by (intro stays_steps)

section \<open>The steps of a delivery\<close>

lemma act_then: "acts c (sh, a) (sh', a') \<Longrightarrow> said a' = said a \<Longrightarrow> in_phase p a' \<Longrightarrow>
    \<exists>a'. (acts c)\<^sup>*\<^sup>* (sh, a) (sh', a') \<and> said a' = said a \<and> in_phase p a'"
  by blast

lemma keeps_then: "statuses sh' = statuses sh \<Longrightarrow> \<exists>a'. (acts c)\<^sup>*\<^sup>* (sh, a) (sh', a') \<and> said a' = said a \<and> in_phase Free a'"
  by (rule act_then [OF acts.keep]) simp_all

lemma looks: "triple (traced c w0 Free) (store (GetMessage i)) (\<lambda>r. traced c w0 (case r of Inl _ \<Rightarrow> Free | Inr m \<Rightarrow> Looking m))"
proof -
  have "triple (traced c w0 Free) (store (GetMessage i))
    (\<lambda>r. traced c w0 (case r of Inl _ \<Rightarrow> Free | Inr _ \<Rightarrow> (case r of Inl _ \<Rightarrow> Free | Inr m \<Rightarrow> Looking m)))"
    unfolding store_def
  proof (rule triple_call)
    fix t and sh :: shared and a :: agent
    let ?r = "on_db (GetMessage i) t sh" and ?f = "a\<lparr>ag_phase := Free\<rparr>"
    have same: "snd ?r = sh" by (simp add: on_db_def GetMessage_def split: option.split)
    have "acts c (sh, a) (sh, ?f)" by (rule acts.stop)
    moreover have "acts c (sh, ?f) (sh, ?f\<lparr>ag_phase := Looking m\<rparr>)" for m by (rule acts.look) simp
    ultimately have "(acts c)\<^sup>*\<^sup>* (sh, a) (sh, ?f)" "(acts c)\<^sup>*\<^sup>* (sh, a) (sh, ?f\<lparr>ag_phase := Looking m\<rparr>)" for m
      by (auto intro: rtranclp.rtrancl_into_rtrancl)
    then show "\<exists>a'. (acts c)\<^sup>*\<^sup>* (sh, a) (snd ?r, a') \<and> said a' = said a \<and>
        in_phase (case fst ?r of Inl _ \<Rightarrow> Free | Inr m \<Rightarrow> Looking m) a'"
      unfolding same by (cases "fst ?r") (force simp: in_phase_def)+
  qed
  then show ?thesis by (rule triple_post) (simp split: sum.splits)
qed

lemma claims: "triple (traced c w0 (Looking m)) (store (TransitionMessageStatus (msg_ID m) ''queued'' ''sending''))
    (\<lambda>r. traced c w0 (if r = Inr True then Holding m else Free))"
proof -
  have "triple (traced c w0 (Looking m)) (store (TransitionMessageStatus (msg_ID m) ''queued'' ''sending''))
    (\<lambda>r. traced c w0 (case r of Inl _ \<Rightarrow> Free | Inr _ \<Rightarrow> if r = Inr True then Holding m else Free))"
    unfolding store_def
  proof (rule triple_call)
    fix t and sh :: shared and a :: agent
    assume a: "in_phase (Looking m) a" and inv: "message_inv (sh_db sh)"
    let ?r = "on_db (TransitionMessageStatus (msg_ID m) ''queued'' ''sending'') t sh"
    show "\<exists>a'. (acts c)\<^sup>*\<^sup>* (sh, a) (snd ?r, a') \<and> said a' = said a \<and> in_phase (if fst ?r = Inr True then Holding m else Free) a'"
    proof (cases "statuses sh (msg_ID m) = Some ''queued''")
      case True
      from a have "ag_phase a = Looking m" by (simp add: in_phase_def)
      from acts.claim [OF this True transition_restatus [OF True]] show ?thesis
        by (rule act_then) (simp_all add: transition_result [OF inv] True in_phase_def)
    next
      case False
      with keeps_then [OF transition_misses] show ?thesis by (simp add: transition_result [OF inv])
    qed
  qed
  then show ?thesis by (rule triple_post) (auto split: sum.splits)
qed

lemma suppresses: "triple (traced c w0 (Looking m)) (store (SetMessageStatus (msg_ID m) ''suppressed'')) (\<lambda>r. traced c w0 (Looking m))"
  unfolding store_def by (rule triple_staying) (auto simp: in_phase_def intro: acts.suppress set_status_restatus)

lemma settles:
  assumes "st \<in> {''sent'', ''unknown''}"
  shows "triple (traced c w0 (Confirmed m)) (store (SetMessageStatus (msg_ID m) st)) (\<lambda>r. traced c w0 (Confirmed m))"
  unfolding store_def by (rule triple_staying) (use assms in \<open>auto simp: in_phase_def intro: acts.settle set_status_restatus\<close>)

lemma doubts: "triple (traced c w0 (Declined m)) (store (SetMessageStatus (msg_ID m) ''unknown'')) (\<lambda>r. traced c w0 (Declined m))"
  unfolding store_def by (rule triple_staying) (auto simp: in_phase_def intro: acts.doubt set_status_restatus)

text \<open>A call that takes the message out of the state \<open>sending\<close>, if it is still in it, ends the worker's hold on it.\<close>

lemma releases:
  assumes held: "p = Holding m \<and> st = ''queued'' \<or> p = Declined m \<and> st \<in> {''queued'', ''failed''}"
    and hit: "\<And>t sh. statuses sh (msg_ID m) = Some ''sending'' \<Longrightarrow> restatus (msg_ID m) st sh (snd (on_db op t sh))"
    and miss: "\<And>t sh. statuses sh (msg_ID m) \<noteq> Some ''sending'' \<Longrightarrow> statuses (snd (on_db op t sh)) = statuses sh"
  shows "triple (traced c w0 p) (store op) (\<lambda>r. traced c w0 Free)"
proof -
  have "triple (traced c w0 p) (store op) (\<lambda>r. traced c w0 (case r of Inl _ \<Rightarrow> Free | Inr _ \<Rightarrow> Free))"
    unfolding store_def
  proof (rule triple_call)
    fix t and sh :: shared and a :: agent
    assume a: "in_phase p a"
    show "\<exists>a'. (acts c)\<^sup>*\<^sup>* (sh, a) (snd (on_db op t sh), a') \<and> said a' = said a \<and> in_phase Free a'"
    proof (cases "statuses sh (msg_ID m) = Some ''sending''")
      case True
      from a held have "ag_phase a = Holding m \<and> st = ''queued'' \<or> ag_phase a = Declined m \<and> st \<in> {''queued'', ''failed''}"
        by (auto simp: in_phase_def)
      from acts.release [OF this True hit [OF True]] show ?thesis by (rule act_then) simp_all
    qed (rule keeps_then [OF miss])
  qed
  then show ?thesis by (rule triple_post) (simp split: sum.splits)
qed

lemma fails: "triple (traced c w0 (Declined m)) (store (TransitionMessageStatus (msg_ID m) ''sending'' ''failed'')) (\<lambda>r. traced c w0 Free)"
  by (rule releases [where st = "''failed''"]) (simp, rule transition_restatus, assumption, rule transition_misses)

lemma requeues:
  assumes "p = Holding m \<or> p = Declined m"
  shows "triple (traced c w0 p) (store (SetMessageRetryAt (msg_ID m) at)) (\<lambda>r. traced c w0 Free)"
  by (rule releases [where st = "''queued''"]) (use assms in \<open>auto simp: retry_restatus retry_misses\<close>)

lemma sends: "triple (traced c w0 (Holding m)) (smtp_send c creds (msg_ToEmail m) (msg_Subject m) (msg_BodyText m))
    (\<lambda>r. traced c w0 (case r of Inl _ \<Rightarrow> Declined m | Inr _ \<Rightarrow> Confirmed m))"
proof (rule tripleI)
  fix w r w'
  assume w: "traced c w0 (Holding m) w" and run: "run_state (smtp_send c creds (msg_ToEmail m) (msg_Subject m) (msg_BodyText m)) w = (r, w')"
  obtain log where log: "Send c (w_relay w (w_step w)) creds (msg_ToEmail m) (msg_Subject m) (msg_BodyText m) = (r, log)"
    and w': "w' = after_wire log w"
    using run by (auto simp: smtp_send_def on_wire_def split: prod.splits)
  define d where "d = \<lparr>dl_message = m, dl_result = r, dl_log = log\<rparr>"
  have d: "is_session c d" "dl_message d = m" "dl_log d = log" using log by (auto simp: is_session_def d_def)
  have acc: "(if accepted d then Confirmed m else Declined m) = (case r of Inl _ \<Rightarrow> Declined m | Inr _ \<Rightarrow> Confirmed m)"
    by (cases r) (simp_all add: accepted_def d_def)
  show "traced c w0 (case r of Inl _ \<Rightarrow> Declined m | Inr _ \<Rightarrow> Confirmed m) w'"
  proof (rule traced_step [OF w, where log = log])
    fix a :: agent assume "in_phase (Holding m) a"
    then have "ag_phase a = Holding (dl_message d)" by (simp add: in_phase_def d)
    note act = acts.send [OF this d(1), of "interfered w", unfolded d(2) acc]
    show "\<exists>a'. (acts c)\<^sup>*\<^sup>* (interfered w, a) (w_shared w', a') \<and> said a' = said a @ log \<and>
      in_phase (case r of Inl _ \<Rightarrow> Declined m | Inr _ \<Rightarrow> Confirmed m) a'"
      by (rule exI, rule conjI, unfold w', simp, rule r_into_rtranclp, rule act) (simp add: d(3) in_phase_def said_def)
  qed (simp add: w' after_wire_def)
qed

section \<open>The routines\<close>

lemma requeue_run:
  assumes p: "p = Holding m \<or> p = Declined m" and s: "svc_retry_at_store s"
  shows "triple (traced c w0 p) (scheduleRetryState s (msg_ID m) at) (\<lambda>r. traced c w0 Free)"
proof -
  have rest: "state_io_rel (stays c) (case r of Inl e \<Rightarrow> State_Monad.return (Inl e) | Inr _ \<Rightarrow> (case svc_queue s of
      SchedulerQueue \<Rightarrow> queue (ScheduleRetry i at) | NilQueue \<Rightarrow> State_Monad.return (Inl e')
    | PlainQueue \<Rightarrow> do { now \<leftarrow> time_Now; _ \<leftarrow> (if at - now > 0 then time_Sleep else State_Monad.return ()); queue (Enqueue i) }))"
    for r :: "unit result" and i e' by (intro stays_steps grows.kind_within)
  show ?thesis
    unfolding scheduleRetryState_def using s
    by simp (intro triple_bind [OF requeues [OF p]] triple_bind [OF triple_return] stays_ends rest; assumption)
qed

lemma give_back_run:
  assumes "svc_retry_at_store s"
  shows "triple (traced c w0 (Holding m)) (give_back s m e) (\<lambda>r. traced c w0 Free)"
  unfolding give_back_def using assms
  by (intro stays_then [OF stays_env(1)] triple_bind [OF requeue_run] triple_return disjI1 refl)

lemma record_sent_run: "triple (traced c w0 (Confirmed m)) (record_sent s m n provider) (\<lambda>r. traced c w0 Free)"
proof -
  have "triple (traced c w0 (Confirmed m)) (record_sent s m n provider) (\<lambda>r. traced c w0 (Confirmed m))"
    unfolding record_sent_def
    by (intro stays_then stays_writes triple_sum triple_bind [OF settles] triple_return) simp_all
  then show ?thesis by (rule triple_post) (rule traced_stop)
qed

lemma record_failed_run:
  assumes s: "svc_retry_at_store s"
  shows "triple (traced c w0 (Declined m)) (record_failed s m n provider e) (\<lambda>r. traced c w0 Free)"
proof -
  have metered: "state_io_rel (stays c) (case r of
      Inr (True, toProvider) \<Rightarrow> meter s ws i et (md toProvider) | _ \<Rightarrow> State_Monad.return (Inr ()))"
    for r :: "(bool \<times> string) result" and ws i et md
    by (auto split: sum.split bool.split intro: stays.within_return stays_writes)
  have doubt: "triple (traced c w0 (Declined m)) (do { markErr \<leftarrow> store (SetMessageStatus (msg_ID m) ''unknown'');
      State_Monad.return (Inl (errors_Join e' markErr)) }) (\<lambda>r. traced c w0 Free)" for e'
    by (rule triple_bind [OF doubts]) (rule triple_return, rule traced_stop)
  show ?thesis
    unfolding record_failed_def Let_def
    by (intro stays_then stays_writes stays_failover metered stays_env triple_sum triple_if doubt requeue_run [OF _ s] disjI2 refl
        triple_bind [OF fails] triple_return)
qed

lemma send_claimed_run:
  assumes s: "svc_retry_at_store s"
  shows "triple (traced (svc_sender s) w0 (Holding m)) (send_claimed s m) (\<lambda>r. traced (svc_sender s) w0 Free)"
proof -
  have sent: "triple (traced (svc_sender s) w0 (Holding m))
     (do { r \<leftarrow> smtp_send (svc_sender s) creds (msg_ToEmail m) (msg_Subject m) (msg_BodyText m);
           case r of Inr _ \<Rightarrow> record_sent s m n provider | Inl err \<Rightarrow> record_failed s m n provider err }) (\<lambda>r. traced (svc_sender s) w0 Free)"
    for creds n provider
    by (rule triple_bind [OF sends]) (auto intro: record_sent_run record_failed_run [OF s] split: sum.split)
  show ?thesis
    unfolding send_claimed_def Let_def
    by (intro stays_then stays_reads stays_credentials triple_sum give_back_run [OF s] sent)
qed

lemma process_run:
  assumes s: "svc_retry_at_store s"
  shows "triple (traced (svc_sender s) w0 Free) (ProcessOne s i) (\<lambda>r. traced (svc_sender s) w0 Free)"
proof -
  have claimed: "triple (traced (svc_sender s) w0 (Looking m))
     (do { r \<leftarrow> store (TransitionMessageStatus (msg_ID m) ''queued'' ''sending'');
           case r of Inl err \<Rightarrow> State_Monad.return (Inl err) | Inr ok \<Rightarrow>
           if \<not> ok then State_Monad.return (Inr ()) else send_claimed s m }) (\<lambda>r. traced (svc_sender s) w0 Free)" for m
    by (rule triple_bind [OF claims]) (auto intro: send_claimed_run [OF s] triple_return split: sum.split)
  have suppressed: "triple (traced (svc_sender s) w0 (Looking m)) (store (SetMessageStatus (msg_ID m) ''suppressed'')) (\<lambda>r. traced (svc_sender s) w0 Free)" for m
    by (rule triple_post [OF suppresses]) (rule traced_stop)
  have looked: "triple (traced (svc_sender s) w0 (Looking m)) (State_Monad.return r) (\<lambda>r. traced (svc_sender s) w0 Free)" for m and r :: "unit result"
    by (rule triple_return) (rule traced_stop)
  show ?thesis
    unfolding ProcessOne_def
  proof (rule triple_bind [OF looks])
    fix r
    show "triple (traced (svc_sender s) w0 (case r of Inl _ \<Rightarrow> Free | Inr m \<Rightarrow> Looking m))
      (case r of Inl err \<Rightarrow> State_Monad.return (Inl err) | Inr m \<Rightarrow>
     if msg_Status m = ''suppressed'' \<or> msg_Status m = ''sent'' then State_Monad.return (Inr ())
     else if msg_Status m \<noteq> ''queued'' then State_Monad.return (Inr ())
     else do {
       r \<leftarrow> store (IsSuppressed (msg_WorkspaceID m) (msg_ToEmail m));
       case r of Inl err \<Rightarrow> State_Monad.return (Inl err) | Inr suppressed \<Rightarrow> do {
       r \<leftarrow> store (IsUnsubscribed (msg_WorkspaceID m) (msg_ToEmail m));
       case r of Inl err \<Rightarrow> State_Monad.return (Inl err) | Inr unsubscribed \<Rightarrow>
       if suppressed \<or> unsubscribed then store (SetMessageStatus (msg_ID m) ''suppressed'')
       else do {
         r \<leftarrow> store (TransitionMessageStatus (msg_ID m) ''queued'' ''sending'');
         case r of Inl err \<Rightarrow> State_Monad.return (Inl err) | Inr ok \<Rightarrow>
         if \<not> ok then State_Monad.return (Inr ()) else send_claimed s m }}}) (\<lambda>r. traced (svc_sender s) w0 Free)"
    proof (cases r)
      case (Inl e)
      then show ?thesis by (simp add: triple_return)
    next
      case (Inr m)
      show ?thesis unfolding Inr sum.case
        by (intro triple_if looked stays_then stays_reads triple_sum suppressed claimed)
    qed
  qed
qed

lemma turn_run:
  assumes "svc_retry_at_store s"
  shows "triple (traced (svc_sender s) w0 Free) (worker_turn s arrival) (\<lambda>r. traced (svc_sender s) w0 Free)"
proof -
  have take: "triple (traced (svc_sender s) w0 Free) (case x of None \<Rightarrow> State_Monad.return True
      | Some i \<Rightarrow> do { _ \<leftarrow> ProcessOne s i; State_Monad.return True }) (\<lambda>r. traced (svc_sender s) w0 Free)" for x
    by (cases x) (auto intro: triple_return triple_bind [OF process_run [OF assms]])
  show ?thesis
    unfolding worker_turn_def
  proof (rule stays_then [OF stays_pop])
    fix r :: "int option result"
    show "triple (traced (svc_sender s) w0 Free)
       (case r of
          Inl e \<Rightarrow> if errors_Is (\<lambda>x. x = Canceled) e then State_Monad.return False else do { time_Sleep; State_Monad.return True }
        | Inr None \<Rightarrow> State_Monad.return True
        | Inr (Some i) \<Rightarrow> do { _ \<leftarrow> ProcessOne s i; State_Monad.return True }) (\<lambda>r. traced (svc_sender s) w0 Free)"
    proof (cases r)
      case (Inl e)
      then show ?thesis by (auto intro: triple_return stays_then stays_env)
    next
      case (Inr x)
      with take [of x] show ?thesis by (simp split: option.splits)
    qed
  qed
qed

lemma worker_run:
  assumes "svc_retry_at_store s"
  shows "triple (traced (svc_sender s) w0 Free) (worker_Run s arrivals) (\<lambda>r. traced (svc_sender s) w0 Free)"
proof (induction arrivals)
  case Nil
  then show ?case by (simp add: triple_return)
next
  case (Cons arrival arrivals)
  show ?case unfolding worker_Run.simps by (intro triple_bind [OF turn_run [OF assms]] triple_if Cons.IH triple_return)
qed

text \<open>A worker, cut off at any step, has followed the protocol.\<close>

lemma worker_performs:
  assumes "svc_retry_at_store s" and "run_state (worker_Run s arrivals) w = (r, w')" and tr: "w_trace w' = w_trace w @ tr @ rest" and "found_ok tr"
  shows "\<exists>a. performs (svc_sender s) new_agent tr a"
proof -
  have "traced (svc_sender s) w Free w'" by (rule tripleD [OF worker_run [OF assms(1)] traced_start assms(2)])
  then obtain tr' where "tr @ rest = tr'"
    and P: "\<And>n. found_ok (take n tr') \<Longrightarrow> \<exists>a. performs (svc_sender s) new_agent (take n tr') a"
    unfolding traced_def using tr by auto
  then have "take (length tr) tr' = tr" by auto
  with P [of "length tr"] assms(4) show ?thesis by simp
qed

text \<open>What a worker has said is what its steps put on the wire, in whole sessions.\<close>

lemma performs_said: "performs c a tr a' \<Longrightarrow> said a' = said a @ concat (map tr_log tr)"
  by (induction tr arbitrary: a) auto

lemma acts_sessions:
  assumes "(acts c)\<^sup>*\<^sup>* p q" and "\<forall>d \<in> set (ag_deliveries (snd p)). is_session c d"
  shows "\<forall>d \<in> set (ag_deliveries (snd q)). is_session c d"
  using assms
proof (induction rule: rtranclp_induct)
  case (step y z)
  from step.hyps(2) step.IH [OF step.prems] show ?case by (cases rule: acts.cases) auto
qed simp

lemma performs_sessions:
  assumes "performs c a tr a'" and "\<forall>d \<in> set (ag_deliveries a). is_session c d"
  shows "\<forall>d \<in> set (ag_deliveries a'). is_session c d"
  using assms
proof (induction tr arbitrary: a)
  case (Cons x tr)
  from Cons.prems(1) obtain a1 where a1: "(acts c)\<^sup>*\<^sup>* (tr_before x, a) (tr_after x, a1)" "performs c a1 tr a'" by auto
  show ?case by (rule Cons.IH [OF a1(2)]) (use acts_sessions [OF a1(1)] Cons.prems(2) in simp)
qed simp

text \<open>
  C5 The worker refines the protocol. Take the steps that a run of \<open>worker_Run\<close> makes, in any world, up
  to any point: as long as the message tables they meet have unique ids, they are a performance of the
  protocol of one worker, and what they put on the wire are the sessions of that performance. The
  others may do anything between two steps, and any call may fail.
\<close>

theorem worker_refines_protocol:
  assumes "svc_retry_at_store s" and "run_state (worker_Run s arrivals) w = (r, w')" and "w_trace w' = w_trace w @ tr @ rest" and "found_ok tr"
  shows "\<exists>a. performs (svc_sender s) new_agent tr a \<and> concat (map tr_log tr) = concat (map dl_log (ag_deliveries a)) \<and>
    (\<forall>d \<in> set (ag_deliveries a). is_session (svc_sender s) d)"
proof -
  from worker_performs [OF assms] obtain a where a: "performs (svc_sender s) new_agent tr a" by blast
  from performs_said [OF a] performs_sessions [OF a] show ?thesis using a by (auto simp: said_def new_agent_def)
qed

lemma demo_speaks: "speaks (w_trace (snd demo_delivery))"
  by code_simp

theorem worker_refines_protocol_witness:
  "\<exists>a. performs (svc_sender demo_service) new_agent (w_trace (snd demo_delivery)) a \<and> 
     concat (map tr_log (w_trace (snd demo_delivery))) = concat (map dl_log (ag_deliveries a)) \<and> ag_deliveries a \<noteq> []"
proof -
  have run: "run_state (worker_Run demo_service [None]) twice_queued = (fst demo_delivery, snd demo_delivery)"
    unfolding demo_delivery_def by (rule surjective_pairing)
  have ok: "found_ok (w_trace (snd demo_delivery))" and said: "concat (map tr_log (w_trace (snd demo_delivery))) \<noteq> []"
    using demo_speaks by (simp_all add: speaks_def)
  have svc: "svc_retry_at_store demo_service" by (simp add: demo_service_def NewMessageService_def Let_def)
  have "w_trace (snd demo_delivery) = w_trace twice_queued @ w_trace (snd demo_delivery) @ []" by (simp add: twice_queued_def demo_world_def)
  from worker_refines_protocol [OF svc run this ok] said show ?thesis by fastforce
qed

end
