(* ===== verification/Process_Fleet.thy ===== *)
theory Process_Fleet
  imports Worker_Protocol Message_Recovery
begin

text \<open>
  Any number of processes side by side: workers, admissions, recoveries and manual retries, each
  running its code in its own world, their steps interleaved in any way and each stopped anywhere. No
  message is taken by a relay twice, as long as manual retries find their queue; one that does not
  takes back what a worker has recorded meanwhile.
\<close>

section \<open>Definitions\<close>

text \<open>A manual retry whose calls succeed.\<close>

definition retries :: "world \<Rightarrow> world \<Rightarrow> bool" where
  "retries w w' \<longleftrightarrow> (faultless w \<longrightarrow> moves background w w')"

text \<open>
  The processes that touch messages: the loop of a worker, an admission, the recovery beside a worker,
  a manual retry; each with the code it runs.
\<close>

datatype process =
    Working MessageService "string option list"
  | Queueing MessageService int string string string string
  | Recovering MessageService nat
  | Retrying MessageService int "int list" int

definition carry_out :: "process \<Rightarrow> unit io" where
  "carry_out p = (case p of
     Working s arrivals \<Rightarrow> worker_Run s arrivals
   | Queueing s ws frm to subject body \<Rightarrow> do { _ \<leftarrow> QueueMessage s ws frm to subject body; State_Monad.return () }
   | Recovering s ticks \<Rightarrow> runRecovery s ticks
   | Retrying s ws ids limit \<Rightarrow> do { _ \<leftarrow> RetryMessages s ws ids limit; State_Monad.return () })"

definition process_service :: "process \<Rightarrow> MessageService" where
  "process_service p = (case p of Working s _ \<Rightarrow> s | Queueing s _ _ _ _ _ \<Rightarrow> s | Recovering s _ \<Rightarrow> s | Retrying s _ _ _ \<Rightarrow> s)"

text \<open>
  The program is built with a store that knows retry times. Of a manual retry it is asked that its
  calls succeed, those of every other process may fail.
\<close>

definition set_up :: "process \<times> world \<Rightarrow> bool" where
  "set_up p \<longleftrightarrow> w_trace (snd p) = [] \<and> (case fst p of
     Working s _ \<Rightarrow> svc_retry_at_store s
   | Retrying s _ _ _ \<Rightarrow> svc_queue s \<noteq> NilQueue \<and> faultless (snd p)
   | _ \<Rightarrow> True)"

definition trace_of :: "process \<times> world \<Rightarrow> transition list" where
  "trace_of p = w_trace (snd (run_state (carry_out (fst p)) (snd p)))"

text \<open>
  An interleaving: steps of numbered processes, each of which meets what the one before left. The
  steps of a process are the beginning of a run of its code: it may have been stopped in the middle.
\<close>

fun chained :: "shared \<Rightarrow> (nat \<times> transition) list \<Rightarrow> bool" where
  "chained sh [] \<longleftrightarrow> True"
| "chained sh ((k, x) # xs) \<longleftrightarrow> tr_before x = sh \<and> chained (tr_after x) xs"

definition steps_of :: "nat \<Rightarrow> (nat \<times> transition) list \<Rightarrow> transition list" where
  "steps_of k xs = map snd (filter (\<lambda>e. fst e = k) xs)"

definition interleaving :: "(process \<times> world) list \<Rightarrow> shared \<Rightarrow> (nat \<times> transition) list \<Rightarrow> bool" where
  "interleaving ps sh xs \<longleftrightarrow> chained sh xs \<and> (\<forall>e \<in> set xs. fst e < length ps) \<and>
     (\<forall>k < length ps. \<exists>rest. trace_of (ps ! k) = steps_of k xs @ rest)"

definition is_worker :: "process \<Rightarrow> bool" where
  "is_worker p \<longleftrightarrow> (case p of Working _ _ \<Rightarrow> True | _ \<Rightarrow> False)"

text \<open>Two workers, one after the other, with the same message twice on the queue.\<close>

definition after_first :: world where
  "after_first = twice_queued\<lparr>w_shared := w_shared (snd (run_state (worker_Run demo_service [None]) twice_queued))\<rparr>"

definition demo_fleet :: "(process \<times> world) list" where
  "demo_fleet = [(Working demo_service [None], twice_queued), (Working demo_service [None], after_first)]"

definition demo_steps :: "(nat \<times> transition) list" where
  "demo_steps = map (Pair 0) (trace_of (demo_fleet ! 0)) @ map (Pair 1) (trace_of (demo_fleet ! 1))"

text \<open>
  A manual retry of a failed message: the queue takes the id but its answer is lost, a worker
  delivers the message, and then the retry records its failure. The message is retried once more.
\<close>

definition delivered_meanwhile :: "shared \<Rightarrow> shared" where
  "delivered_meanwhile sh = w_shared (snd (run_state (worker_turn demo_service None) ((demo_world (sh_db sh) demo_relay)\<lparr>w_shared := sh\<rparr>)))"

definition race_world :: world where
  "race_world = (demo_world (demo_db ''failed'') demo_relay)\<lparr>
     w_fault := (\<lambda>n. if n = 2 then Unacknowledged (ErrDriver ''timeout'') else Executed),
     w_other := (\<lambda>n sh. if n = 3 then delivered_meanwhile sh else sh)\<rparr>"

definition race_retry :: "MessageRetryResult result \<times> world" where
  "race_retry = run_state (RetryMessages demo_service 1 [1] 0) race_world"

definition race_end :: shared where
  "race_end = delivered_meanwhile (w_shared (snd (run_state (RetryMessages demo_service 1 [1] 0)
     ((demo_world (demo_db ''failed'') demo_relay)\<lparr>w_shared := w_shared (snd race_retry)\<rparr>))))"

text \<open>What the last step of the retry met and left, the status and the answer at its end, the attempts by then.\<close>

definition race_report ::
    "MessageRetryResult result \<times> world \<Rightarrow> (string option \<times> string option) list \<times> string option \<times> string list \<times> bool list" where
  "race_report p = (case p of (r, w) \<Rightarrow>
     (map (\<lambda>x. (statuses (tr_before x) 1, statuses (tr_after x) 1)) (drop 3 (w_trace w)), statuses (w_shared w) 1,
      (case r of Inl e \<Rightarrow> [] | Inr out \<Rightarrow> map mro_Error (mrr_Outcomes out)), map att_Success (attempts_of 1 (sh_db (w_shared w)))))"

section \<open>The processes beside the workers\<close>

lemma statuses_frame:
  "db_messages (sh_db sh') = db_messages (sh_db sh) \<Longrightarrow> statuses sh' = statuses sh"
  by (intro ext) (simp add: statuses_def find_message_def)

lemma background_same: "statuses sh' = statuses sh \<Longrightarrow> background sh sh'"
  by (simp add: background_def)

lemma background_each: "(\<And>i. status_moves (statuses sh i) (statuses sh' i)) \<Longrightarrow> background sh sh'"
  by (auto simp: background_def)

lemma background_create:
  assumes "msg_Status m = ''queued'' \<or> msg_Status m = ''suppressed''"
  shows "background sh (upd_db (CreateMessage m t) sh)"
proof (rule background_each)
  fix i
  show "status_moves (statuses sh i) (statuses (upd_db (CreateMessage m t) sh) i)"
    using assms by (auto simp: status_moves_def statuses_def upd_db_def CreateMessage_def Let_def find_message_def find_append split: option.splits)
qed

lemma background_update:
  assumes "\<And>m. msg_ID (f m) = msg_ID m" and "\<And>m. p m \<Longrightarrow> status_moves (Some (msg_Status m)) (Some (msg_Status (f m)))"
  shows "background sh (sh\<lparr>sh_db := update_messages p f (sh_db sh)\<rparr>)"
proof (rule background_each)
  fix i
  show "status_moves (statuses sh i) (statuses (sh\<lparr>sh_db := update_messages p f (sh_db sh)\<rparr>) i)"
    using assms(2) by (cases "find_message i (sh_db sh)") (auto simp: statuses_def find_message_update [of f, OF assms(1)] status_moves_def)
qed

interpretation background: queueing_guarantee background
proof
  show "background sh sh" for sh by (simp add: background_def)
  show "background sh sh''" if "background sh sh'" "background sh' sh''" for sh sh' sh''
    using that unfolding background_def by (meson rtranclp_trans)
  show "background sh (upd_db (CreateMessage m t) sh)" if "msg_Status m = ''queued'' \<or> msg_Status m = ''suppressed''" for sh m t
    using that by (rule background_create)
qed (rule background_same, rule statuses_frame, simp add: upd_db_def InsertMeteringEvent_def)+

interpretation background_recovery: recovery_guarantee background
proof
  show "background sh (upd_db (ClaimQueuedMessagesForRecovery older lim t) sh)" for sh older lim t
    unfolding upd_db_def ClaimQueuedMessagesForRecovery_def Let_def snd_conv by (rule background_update) (simp_all add: status_moves_def)
  show "background sh (upd_db (MarkStaleSendingUnknown older t) sh)" for sh older t
    unfolding upd_db_def MarkStaleSendingUnknown_def Let_def snd_conv by (rule background_update) (simp_all add: status_moves_def)
qed (rule background.enqueue)

lemma background_reopen: "background sh (upd_db (TransitionMessageStatus i ''failed'' ''queued'' t) sh)"
  unfolding upd_db_def TransitionMessageStatus_def Let_def snd_conv by (rule background_update) (auto simp: status_moves_def)

lemma moves_faultless: "moves S w w' \<Longrightarrow> faultless w' \<longleftrightarrow> faultless w"
  by (simp add: moves_def same_env_def faultless_def)

interpretation retries: frame_relation retries
proof
  show "retries w w" for w by (simp add: retries_def background.world.refl)
  show "retries w w''" if "retries w w'" "retries w' w''" for w w' w''
    using that background.world.trans [of w w' w''] moves_faultless [of background w w'] by (auto simp: retries_def)
qed

lemma retries_background: "state_io_rel (moves background) m \<Longrightarrow> state_io_rel retries m"
  by (auto simp: state_io_rel_def retries_def)

lemma retries_enqueue:
  assumes q: "svc_queue s \<noteq> NilQueue" and g: "\<And>u. state_io_rel retries (g u)"
  shows "state_io_rel retries (queue_Enqueue s i \<bind> (\<lambda>r. case r of Inl e \<Rightarrow> f e | Inr u \<Rightarrow> g u))"
proof (rule state_io_relI)
  fix w r w' assume run: "run_state (queue_Enqueue s i \<bind> (\<lambda>r. case r of Inl e \<Rightarrow> f e | Inr u \<Rightarrow> g u)) w = (r, w')"
  obtain x w1 where e: "run_state (queue_Enqueue s i) w = (x, w1)" by (metis surj_pair)
  have first: "retries w w1" using state_io_relD [OF retries_background [OF background.enqueue_within(2)] e] .
  show "retries w w'"
  proof (cases "faultless w")
    case True
    then have "x = Inr ()" using e q by (auto simp: queue_Enqueue_def queue_def call_def on_queue_def faultless_def Let_def)
    with run e have "run_state (g ()) w1 = (r, w')" by simp
    with first show ?thesis using state_io_relD [OF g] retries.trans by blast
  qed (simp add: retries_def)
qed

lemma retryMessage_retries:
  assumes "svc_queue s \<noteq> NilQueue"
  shows "state_io_rel retries (retryMessage s ws msg out)"
proof -
  have "state_io_rel retries (store (TransitionMessageStatus i ''failed'' ''queued''))" for i
    by (rule retries_background [OF background.store_within]) (rule background_reopen)
  then show ?thesis
    unfolding retryMessage_def
    by (simp only: assms if_False)
      (intro retries.within_if retries.within_sum retries.within_return retries.within_bind [of "store op" for op] retries_enqueue [OF assms]
        retries.within_bind [of "meter s ws i e md" for ws i e md] retries_background [OF background.meter_within])
qed

lemma RetryMessages_retries:
  assumes "svc_queue s \<noteq> NilQueue"
  shows "state_io_rel retries (RetryMessages s ws ids lim)"
proof -
  note steps = retries.within retries_background [OF background.store_reads(3)] retries_background [OF background.store_reads(10)]
    retryMessage_retries [OF assms]
  have "state_io_rel retries (retry_ids s ws is out)" for ws "is" out
    by (induction "is" arbitrary: out) (simp_all, (intro steps | assumption)+)
  moreover have "state_io_rel retries (retry_listed s ws ms out)" for ws ms out
    by (induction ms arbitrary: out) (auto intro!: steps)
  ultimately show ?thesis unfolding RetryMessages_def by (intro steps)
qed

section \<open>Composition\<close>

lemma pop_keeps: "state_io_rel (moves keeps_tables) (PopQueue arrival)"
proof -
  have pops: "keeps_tables sh (snd (on_pop f t sh))" for f t and sh :: shared
    by (simp add: keeps_tables_def tables_ok_def on_pop_def case_prod_unfold)
  show ?thesis unfolding PopQueue_def Dequeue_def by (intro tables.world.within tables.moves_call pops)
qed

lemma worker_keeps: "state_io_rel (moves keeps_tables) (worker_Run s arrivals)"
proof (induction arrivals)
  case Nil
  then show ?case by (simp add: tables.world.within_return)
next
  case (Cons arrival arrivals)
  have "state_io_rel (moves keeps_tables) (worker_turn s arrival)"
    unfolding worker_turn_def by (intro tables.world.within tables.moves_env pop_keeps tables.process_within)
  then show ?case unfolding worker_Run.simps by (intro tables.world.within_bind tables.world.within_if tables.world.within_return Cons.IH)
qed

text \<open>The loop of the recovery is within what its rounds are within.\<close>

lemma recovery_loop:
  assumes "frame_relation R" and "\<And>g l lim. state_io_rel R (RecoverQueue s g l lim)"
  shows "state_io_rel R (runRecovery s ticks)"
proof -
  have "state_io_rel R (recovery_ticks s n)" for n
    by (induction n) (simp_all add: recoverMessages_def assms(2) frame_relation.within_bind [OF assms(1)] frame_relation.within_return [OF assms(1)])
  then show ?thesis unfolding runRecovery_def recoverMessages_def by (intro frame_relation.within_bind [OF assms(1)] assms(2))
qed

lemmas recovery_within = recovery_loop [OF tables.world.frame_relation_axioms tables.recover_within]
  recovery_loop [OF silent.frame_relation_axioms recover_silent]
  recovery_loop [OF background.world.frame_relation_axioms background_recovery.recover_within]

lemma process_keeps: "state_io_rel (moves keeps_tables) (carry_out p)"
  unfolding carry_out_def
  by (cases p) (simp_all add: worker_keeps recovery_within tables.routines_within tables.world.within_bind tables.world.within_return)

lemma stepwise_within: "state_io_rel (moves S) m \<Longrightarrow> stepwise S w (snd (run_state m w))"
  using state_io_relD [OF _ surjective_pairing] by (fastforce simp: moves_def)

lemma trace_keeps:
  assumes "w_trace w = []" and "x \<in> set (trace_of (p, w))"
  shows "keeps_tables (tr_before x) (tr_after x)"
  using stepwise_within [OF process_keeps, of w p] assms by (auto simp: stepwise_def trace_of_def)

text \<open>Nothing is ever found but tables that are in order.\<close>

lemma chained_ok:
  assumes "chained sh xs" and "tables_ok sh" and "\<forall>e \<in> set xs. keeps_tables (tr_before (snd e)) (tr_after (snd e))"
  shows "\<forall>e \<in> set xs. tables_ok (tr_before (snd e))"
  using assms
proof (induction sh xs rule: chained.induct)
  case (2 sh k x xs)
  then have "tables_ok (tr_after x)" by (simp add: keeps_tables_def)
  with 2 show ?case by simp
qed simp

lemma acts_steps:
  assumes "(acts c)\<^sup>*\<^sup>* (sh, A k) (sh', a')"
  shows "fleet_step\<^sup>*\<^sup>* \<lparr>fl_shared = sh, fl_agent = A\<rparr> \<lparr>fl_shared = sh', fl_agent = A(k := a')\<rparr>"
  using assms
proof (induction "(sh', a')" arbitrary: sh' a' rule: rtranclp_induct)
  case base
  then show ?case by simp
next
  case (step y)
  obtain sh1 a1 where y: "y = (sh1, a1)" by (cases y)
  have "fleet_step \<lparr>fl_shared = sh1, fl_agent = A(k := a1)\<rparr> \<lparr>fl_shared = sh', fl_agent = A(k := a')\<rparr>"
    using fleet_step.worker [of c "\<lparr>fl_shared = sh1, fl_agent = A(k := a1)\<rparr>" k sh' a'] step.hyps(2) by (simp add: y)
  with step.hyps(3) [OF y] show ?case by (rule rtranclp.rtrancl_into_rtrancl)
qed

text \<open>Workers that follow the protocol, and others that keep to the background, make a run of the fleet.\<close>

lemma weave:
  assumes "chained sh xs"
    and "\<And>k. W k \<Longrightarrow> performs (c k) (A k) (steps_of k xs) (A' k)"
    and "\<And>k. \<not> W k \<Longrightarrow> A' k = A k \<and> (\<forall>x \<in> set (steps_of k xs). background (tr_before x) (tr_after x))"
  shows "\<exists>sh'. fleet_step\<^sup>*\<^sup>* \<lparr>fl_shared = sh, fl_agent = A\<rparr> \<lparr>fl_shared = sh', fl_agent = A'\<rparr>"
  using assms
proof (induction sh xs arbitrary: A rule: chained.induct)
  case (1 sh)
  have "A' k = A k" for k using "1.prems"(2,3) [of k] by (cases "W k") (auto simp: steps_of_def)
  then have "A' = A" by blast
  then show ?case by blast
next
  case (2 sh k x xs)
  have here: "tr_before x = sh" "chained (tr_after x) xs" using "2.prems"(1) by auto
  have mine: "steps_of k ((k, x) # xs) = x # steps_of k xs" by (simp add: steps_of_def)
  have other: "steps_of l ((k, x) # xs) = steps_of l xs" if "l \<noteq> k" for l using that by (simp add: steps_of_def)
  show ?case
  proof (cases "W k")
    case True
    from "2.prems"(2) [OF this] obtain a1 where a1: "(acts (c k))\<^sup>*\<^sup>* (sh, A k) (tr_after x, a1)" "performs (c k) a1 (steps_of k xs) (A' k)"
      by (auto simp: mine here)
    have "\<exists>sh'. fleet_step\<^sup>*\<^sup>* \<lparr>fl_shared = tr_after x, fl_agent = A(k := a1)\<rparr> \<lparr>fl_shared = sh', fl_agent = A'\<rparr>"
    proof (rule "2.IH" [OF here(2)])
      show "performs (c l) ((A(k := a1)) l) (steps_of l xs) (A' l)" if "W l" for l
        using a1(2) "2.prems"(2) [OF that] other [of l] by (cases "l = k") auto
      show "A' l = (A(k := a1)) l \<and> (\<forall>x \<in> set (steps_of l xs). background (tr_before x) (tr_after x))" if "\<not> W l" for l
        using True "2.prems"(3) [OF that] other [of l] that by (cases "l = k") auto
    qed
    with acts_steps [of "c k" sh A k, OF a1(1)] show ?thesis by (meson rtranclp_trans)
  next
    case False
    with "2.prems"(3) have bg: "background sh (tr_after x)" using mine here(1) by fastforce
    have "\<exists>sh'. fleet_step\<^sup>*\<^sup>* \<lparr>fl_shared = tr_after x, fl_agent = A\<rparr> \<lparr>fl_shared = sh', fl_agent = A'\<rparr>"
    proof (rule "2.IH" [OF here(2)])
      show "performs (c l) (A l) (steps_of l xs) (A' l)" if "W l" for l
        using False "2.prems"(2) [OF that] other [of l] that by (cases "l = k") auto
      show "A' l = A l \<and> (\<forall>x \<in> set (steps_of l xs). background (tr_before x) (tr_after x))" if "\<not> W l" for l
        using "2.prems"(3) [OF that] other [of l] mine by (cases "l = k") auto
    qed
    moreover have "fleet_step \<lparr>fl_shared = sh, fl_agent = A\<rparr> \<lparr>fl_shared = tr_after x, fl_agent = A\<rparr>"
      using fleet_step.elsewhere [of "\<lparr>fl_shared = sh, fl_agent = A\<rparr>", simplified, OF bg] by simp
    ultimately show ?thesis by (meson converse_rtranclp_into_rtranclp)
  qed
qed

lemma queue_silent: "state_io_rel silent (QueueMessage s ws frm to subject body)"
  unfolding QueueMessage_def workspacePolicy_def policy_limit_def by (intro silent_steps silent_call admit_silent)

lemma process_silent: "\<not> is_worker p \<Longrightarrow> state_io_rel silent (carry_out p)"
  unfolding carry_out_def is_worker_def
  by (cases p) (simp_all add: queue_silent recovery_within silent_retry silent.within_bind silent.within_return)

lemma process_background:
  assumes "set_up (p, w)" and "\<not> is_worker p" and "x \<in> set (trace_of (p, w))"
  shows "background (tr_before x) (tr_after x)" and "tr_log x = []"
proof -
  let ?w' = "snd (run_state (carry_out p) w)"
  have w: "w_trace w = []" using assms(1) by (simp add: set_up_def)
  have "silent w ?w'" using state_io_relD [OF process_silent [OF assms(2)] surjective_pairing] .
  with w assms(3) show "tr_log x = []" by (auto simp: silent_def trace_of_def)
  have "stepwise background w ?w'"
  proof (cases "\<exists>s ws ids lim. p = Retrying s ws ids lim")
    case True
    then obtain s ws ids lim where Retrying: "p = Retrying s ws ids lim" by blast
    then have "state_io_rel retries (carry_out p)" and "faultless w"
      using assms(1) by (simp_all add: set_up_def carry_out_def RetryMessages_retries retries.within_bind retries.within_return)
    then show ?thesis using state_io_relD [OF _ surjective_pairing] by (fastforce simp: retries_def moves_def)
  next
    case False
    with assms(2) have "state_io_rel (moves background) (carry_out p)"
      by (cases p) (simp_all add: is_worker_def carry_out_def background.queue_message_within recovery_within
         background.world.within_bind background.world.within_return)
    then show ?thesis by (rule stepwise_within)
  qed
  with w assms(3) show "background (tr_before x) (tr_after x)" by (auto simp: stepwise_def trace_of_def)
qed

lemma distinct_concat_map:
  assumes "\<forall>k < n. distinct (f k)" and "\<forall>k < n. \<forall>l < n. k \<noteq> l \<longrightarrow> set (f k) \<inter> set (f l) = {}"
  shows "distinct (concat (map f [0..<n]))"
  using assms
proof (induction n)
  case (Suc n)
  have "set (f n) \<inter> set (f k) = {}" if "k < n" for k using Suc.prems(2) that by (metis Suc_lessD Suc_mono lessI less_irrefl)
  then have "set (concat (map f [0..<n])) \<inter> set (f n) = {}" by fastforce
  with Suc show ?case by simp
qed simp

lemma interleaving_ok:
  assumes "interleaving ps sh xs" and "tables_ok sh" and "\<forall>p \<in> set ps. set_up p" and k: "k < length ps"
  shows "found_ok (steps_of k xs)" and "\<forall>x \<in> set (steps_of k xs). x \<in> set (trace_of (ps ! k))"
proof -
  have own: "x \<in> set (trace_of (ps ! l))" if "(l, x) \<in> set xs" for l x
  proof -
    have "l < length ps" using assms(1) that by (force simp: interleaving_def)
    moreover have "x \<in> set (steps_of l xs)" using that by (force simp: steps_of_def)
    ultimately show ?thesis using assms(1) unfolding interleaving_def by (metis Un_iff set_append)
  qed
  then show "\<forall>x \<in> set (steps_of k xs). x \<in> set (trace_of (ps ! k))" by (auto simp: steps_of_def)
  have "keeps_tables (tr_before x) (tr_after x)" if e: "(l, x) \<in> set xs" for l x
  proof -
    have "l < length ps" using assms(1) e by (force simp: interleaving_def)
    then have "w_trace (snd (ps ! l)) = []" using assms(3) by (simp add: set_up_def)
    with trace_keeps [of "snd (ps ! l)" x "fst (ps ! l)"] own [OF e] show ?thesis by simp
  qed
  then have "\<forall>e \<in> set xs. tables_ok (tr_before (snd e))"
    using assms(1,2) by (intro chained_ok) (auto simp: interleaving_def)
  then show "found_ok (steps_of k xs)" by (auto simp: found_ok_def steps_of_def tables_ok_def)
qed

lemma agent_of:
  assumes "interleaving ps sh xs" and "tables_ok sh" and set_up: "\<forall>p \<in> set ps. set_up p" and k: "k < length ps"
    and "is_worker (fst (ps ! k))"
  shows "\<exists>a. performs (svc_sender (process_service (fst (ps ! k)))) new_agent (steps_of k xs) a"
proof -
  from assms(5) obtain s arrivals where w: "fst (ps ! k) = Working s arrivals" by (auto simp: is_worker_def split: process.splits)
  from set_up k have u: "set_up (ps ! k)" by simp
  have svc: "svc_retry_at_store s" "w_trace (snd (ps ! k)) = []" using u w by (simp_all add: set_up_def)
  obtain rest where "trace_of (ps ! k) = steps_of k xs @ rest" using assms(1) k unfolding interleaving_def by blast
  then have "w_trace (snd (run_state (worker_Run s arrivals) (snd (ps ! k)))) = w_trace (snd (ps ! k)) @ steps_of k xs @ rest"
    by (simp add: trace_of_def carry_out_def w svc)
  from worker_performs [OF svc(1) surjective_pairing this interleaving_ok(1) [OF assms(1-4)]] w show ?thesis
    by (simp add: process_service_def)
qed

lemma fleet_confirms_once:
  assumes il: "interleaving ps sh xs" and ok: "tables_ok sh" and set_up: "\<forall>p \<in> set ps. set_up p"
  shows "\<exists>ds. length ds = length ps \<and>
    (\<forall>k < length ps. (\<forall>d \<in> set (ds ! k). is_session (svc_sender (process_service (fst (ps ! k)))) d) \<and>
       concat (map dl_log (ds ! k)) = concat (map tr_log (steps_of k xs))) \<and>
    distinct (map (msg_ID \<circ> dl_message) (filter accepted (concat ds)))"
proof -
  let ?c = "\<lambda>k. svc_sender (process_service (fst (ps ! k)))"
  define W where "W k \<longleftrightarrow> k < length ps \<and> is_worker (fst (ps ! k))" for k
  have "\<forall>k. \<exists>a. (W k \<longrightarrow> performs (?c k) new_agent (steps_of k xs) a) \<and> (\<not> W k \<longrightarrow> a = new_agent)"
    using agent_of [OF il ok set_up] unfolding W_def by metis
  then obtain A where A: "\<And>k. W k \<Longrightarrow> performs (?c k) new_agent (steps_of k xs) (A k)" "\<And>k. \<not> W k \<Longrightarrow> A k = new_agent" by metis
  have calm: "background (tr_before x) (tr_after x) \<and> tr_log x = []" if "\<not> W k" "x \<in> set (steps_of k xs)" for k x
  proof -
    have k: "k < length ps" using il that(2) by (auto simp: interleaving_def steps_of_def)
    with set_up that interleaving_ok(2) [OF il ok set_up k] show ?thesis
      using process_background [of "fst (ps ! k)" "snd (ps ! k)" x] by (auto simp: W_def)
  qed
  obtain sh' where "fleet_step\<^sup>*\<^sup>* \<lparr>fl_shared = sh, fl_agent = \<lambda>k. new_agent\<rparr> \<lparr>fl_shared = sh', fl_agent = A\<rparr>"
    using weave [of sh xs W ?c "\<lambda>k. new_agent" A] il A calm by (auto simp: interleaving_def)
  from fleet_inv_steps [OF this new_fleet_inv] have inv: "fleet_inv \<lparr>fl_shared = sh', fl_agent = A\<rparr>" .
  let ?ds = "map (ag_deliveries \<circ> A) [0..<length ps]"
  have "map (msg_ID \<circ> dl_message) (filter accepted (concat ?ds)) = concat (map (confirmed \<circ> A) [0..<length ps])"
    by (simp add: confirmed_def filter_concat map_concat comp_def)
  moreover have "distinct (concat (map (confirmed \<circ> A) [0..<length ps]))"
    by (rule distinct_concat_map) (use inv in \<open>auto simp: fleet_inv_def\<close>)
  moreover have "(\<forall>d \<in> set (ag_deliveries (A k)). is_session (?c k) d) \<and> said (A k) = concat (map tr_log (steps_of k xs))" for k
  proof (cases "W k")
    case True
    from performs_said [OF A(1) [OF True]] performs_sessions [OF A(1) [OF True]] show ?thesis by (simp add: new_agent_def said_def)
  next
    case False
    with A(2) calm [OF False] show ?thesis by (simp add: new_agent_def said_def)
  qed
  ultimately show ?thesis by (intro exI [of _ ?ds]) (simp add: said_def)
qed

section \<open>The theorems\<close>

lemma chained_alone: "meets (\<lambda>n sh. sh) n sh tr sh' \<Longrightarrow> chained sh (map (Pair k) tr @ xs) \<longleftrightarrow> chained sh' xs"
  by (induction tr arbitrary: n sh) auto

lemma trace_chained:
  assumes "alone w" and "w_trace w = []"
  shows "chained (w_shared w) (map (Pair k) (trace_of (p, w)) @ xs) \<longleftrightarrow> chained (w_shared (snd (run_state (carry_out p) w))) xs"
  using stepwise_within [OF process_keeps, of w p] assms
  by (auto simp: stepwise_def trace_of_def alone_def intro!: chained_alone)

lemma demo_steps_of: "steps_of 0 demo_steps = trace_of (demo_fleet ! 0)" "steps_of (Suc 0) demo_steps = trace_of (demo_fleet ! Suc 0)"
  by (simp_all add: steps_of_def demo_steps_def filter_map comp_def)

lemma demo_interleaving: "interleaving demo_fleet (w_shared twice_queued) demo_steps"
proof -
  have "alone twice_queued" "w_trace twice_queued = []" "alone after_first" "w_trace after_first = []"
    by (simp_all add: twice_queued_def after_first_def alone_def demo_world_def)
  then have "chained (w_shared twice_queued) demo_steps"
    unfolding demo_steps_def using trace_chained [of after_first 1 "Working demo_service [None]" "[]"]
    by (simp add: demo_fleet_def trace_chained carry_out_def after_first_def)
  moreover have "\<exists>rest. trace_of (demo_fleet ! k) = steps_of k demo_steps @ rest" if "k < 2" for k
    using that demo_steps_of by (auto simp: less_2_cases_iff)
  ultimately show ?thesis by (auto simp: interleaving_def demo_steps_def demo_fleet_def numeral_2_eq_2)
qed

lemma demo_said: "concat (map tr_log (steps_of 0 demo_steps)) \<noteq> []"
  using demo_speaks by (simp add: demo_steps_of demo_fleet_def trace_of_def carry_out_def speaks_def demo_delivery_def)

lemma race_facts:
  "race_report race_retry = ([(Some ''sent'', Some ''failed'')], Some ''failed'', [''queue enqueue failed''], [True])"
  by code_simp




end
