(* ===== verification/Spec2Isabelle.thy ===== *)
theory Spec2Isabelle
  imports Queue_Refinement Message_Queueing Message_Policy Smtp_Accounts Webhook_Sig Webhook_Replay Webhook_Parser Access Tenant_Views Webhook_Endpoint Login_Limits Access_Log Application Process_Fleet
begin

text \<open>
  A verification of maild (\<open>src/\<close>), a service in Go that queues, sends and accounts for outgoing mail
  of several workspaces. Clients call an HTTP API with a key or a session; messages are rows in
  PostgreSQL, their ids wait in Redis, a worker hands them to an SMTP relay, and providers report
  bounces and complaints over signed webhooks, which put recipients on lists nobody is written to.

  \<^bold>\<open>Prelude.\<close> \<open>Go_Base\<close>, \<open>Go_Hex\<close> and \<open>Go_Base64\<close> model what the code uses of Go's
  standard library on strings (byte strings), integers, times and durations (\<open>int\<close> nanoseconds).
  \<open>Effects\<close> has the state monad's triples and the locale \<open>frame_relation\<close>, by which relations
  between states before and after are carried through monadic code. \<open>Domain_Types\<close> has the records of
  \<open>src/internal/domain\<close>, the errors and the database; \<open>World\<close> the state a process runs in: the shared
  state, the fate of each call (executed, refused, executed with the answer lost), what the other
  processes do between two calls, the clock, the relay, and the transcripts of its steps and of all
  SMTP sessions.

  \<^bold>\<open>Stores.\<close> \<open>Pg_Store\<close>, \<open>Webhook_Store\<close> (\<open>src/internal/store/postgres/postgres.go\<close>,
  \<open>webhook_atomic.go\<close>) and \<open>Pg_Users\<close> (\<open>user.go\<close>) have one function for each statement or transaction,
  on tables as lists of rows with their sequences and constraints. \<open>Redis_Queue\<close>
  (\<open>src/internal/queue/redis_queue.go\<close>) has the ready list, the delayed set and the script that pops;
  \<open>Queue_Refinement\<close> shows that it implements a work list with due times. \<open>Redis_Limiter\<close>
  (\<open>src/internal/ratelimit\<close>) has the counters and the bound on what they admit within an hour. \<open>Crypto\<close>
  (\<open>src/internal/crypto/crypto.go\<close>) has the sealer, \<open>Smtp_Client\<close>
  (\<open>src/internal/smtpclient/smtpclient.go\<close>, \<open>src/internal/sanitize/error.go\<close>) the SMTP session,
  against a relay given by its answers, with the theorem that credentials travel only over TLS.

  \<^bold>\<open>Services.\<close> \<open>Message_Service\<close> and \<open>Webhook_Service\<close>
  (\<open>src/internal/service/message_service.go\<close>) are monadic programs, routine by routine, with every
  early return. \<open>Service_Frames\<close> states what the store promises as the locales
  \<open>queueing_guarantee\<close>, \<open>recovery_guarantee\<close> and \<open>store_guarantee\<close>, and proves once that each routine, as
  a whole and in each of its steps, stays within any such guarantee; the interpretations give the
  invariants of the tables and that nobody leaves a list. On these rest \<open>Message_Delivery\<close>
  (\<open>ProcessOne\<close>), \<open>Message_Queueing\<close> (\<open>QueueMessage\<close>), \<open>Message_Policy\<close>, \<open>Message_Recovery\<close>,
  \<open>Smtp_Accounts\<close>, and, for webhooks, \<open>Webhook_Delivery\<close> (an event is recorded and applied once
  however often it is delivered) and \<open>Webhook_Replay\<close>. \<open>Service_Reads\<close> has the reads and the
  domain checks (\<open>src/internal/domaincheck\<close>, \<open>domain_service.go\<close>). \<open>Webhook_Sig\<close>
  (\<open>src/internal/webhooksig\<close>) and \<open>Webhook_Parser\<close> (\<open>src/internal/api/webhook_event_parser.go\<close>) are the
  signature check and the parser of provider events. \<open>Worker\<close> (\<open>src/internal/worker\<close>) joins queue and
  delivery: its runs write to no listed recipient, and an accepted message is delivered.

  \<^bold>\<open>Processes side by side.\<close> \<open>Delivery_Protocol\<close> is an abstract specification: the phases in which a
  worker claims, sends and settles a message, as a step relation, with an invariant for any number of
  workers. \<open>Worker_Protocol\<close> shows that the code of the worker refines it, step by step, whatever fails
  and whatever the others do. \<open>Process_Fleet\<close> puts workers, admissions, recoveries and manual retries
  side by side, each running its code, interleaved in any way and stopped anywhere: no message is
  accepted by a relay twice, except through the compensation in a manual retry that lost the answer of
  its queue, of which it has an example.

  \<^bold>\<open>HTTP.\<close> \<open>Access\<close> (\<open>src/internal/auth/apikey.go\<close>, \<open>session.go\<close>, \<open>src/internal/api/access.go\<close>)
  has sessions, principals and the guards of all routes; \<open>Api_Handlers\<close> and \<open>Api_Server\<close>
  (\<open>src/internal/api/http.go\<close>, \<open>ui_v040.go\<close>, \<open>ui_templates.go\<close>) every handler of the API.
  \<open>Tenant_Isolation\<close> and \<open>Tenant_Views\<close> show, for the server from guard to response, that a request
  changes and shows nothing of a workspace its user does not belong to; \<open>Webhook_Endpoint\<close> that what is
  acknowledged is recorded. \<open>Auth_Handlers\<close> (\<open>src/internal/auth/handlers.go\<close>, \<open>ratelimit.go\<close>) has
  sign-up, login, key management and the login limiter, over a state of their own (users, sessions,
  failure counters); \<open>Auth_Frames\<close>, \<open>Auth_Sessions\<close> and \<open>Login_Limits\<close> show when a session is opened,
  that the tables stay consistent, the life of a key and the bound on guesses. \<open>Site_Routes\<close>
  (\<open>src/internal/httpserver/server.go\<close>, \<open>src/internal/runtime\<close>) has the table of all routes and the
  public pages with the loading of their templates, \<open>Access_Log\<close> (\<open>logging.go\<close> beside it) the writer
  behind the access log and when the log is true.

  \<^bold>\<open>Start.\<close> \<open>Configuration\<close> (\<open>src/internal/config/config.go\<close>), \<open>Migrations\<close>
  (\<open>src/internal/migrate/migrate.go\<close>) and \<open>Application\<close> (\<open>src/internal/app/app.go\<close>) have the
  environment, its validation, the upgrade of the schema, the construction of the parts and what the
  program returns at its end; an instance that starts meets what the theorems on the parts assume of it.

  \<^bold>\<open>Bounds.\<close> No function uses fuel: loops over lists are recursions over these lists. The loop of
  the worker takes the list of what arrives in each turn before its context ends, for any such list,
  and that of the recovery the number of its ticks;
  the attempts to apply an event are counted down from their configured number. Ids are \<open>int\<close> and need
  only be fresh: a rolled back insert advances the sequence of PostgreSQL but not that of the model.
  Where the width of an integer matters (shifts in backoffs, attempt numbers, Unix times, parsed
  decimals) it is written out.

  \<^bold>\<open>Parameters.\<close> Code outside the repository is an argument: AES-GCM, SHA-256, HMAC, bcrypt,
  random bytes, \<open>encoding/json\<close>, \<open>html/template\<close>, time layouts, DNS, the SMTP relay, and what
  PostgreSQL answers to a migration. Hypotheses on them are named (\<open>aead_correct\<close>, \<open>bcrypt_correct\<close>)
  and hold for the instances in the witnesses.

  \<^bold>\<open>Not modelled.\<close> Sockets, timeouts, the delivery of signals and the draining of connections at
  shutdown; goroutines other than as processes whose calls interleave; connection pools; what is
  logged beside the access log; static files (\<open>src/internal/web\<close>); the version string. Text is compared and folded
  bytewise, with the space characters of Unicode but letter case of ASCII only.
\<close>

end
